theory Spec2Isabelle
  imports Main "HOL-Library.Sublist"
begin

section \<open>The Release adapter of the release service\<close>

text \<open>
  A shallow embedding of \<^verbatim>\<open>controllers/release/release_adapter.go\<close>: the operations
  that the reconciler runs in a fixed order on one Release. The adapter holds the Release
  in memory and talks to the cluster through a client; every client call can fail. The
  model passes a \<open>World\<close> through every function: the Release in memory, the objects of
  the cluster, the failures the next client calls will meet, and the calls issued so far.
\<close>

subsection \<open>Strings\<close>

text \<open>
  \<^verbatim>\<open>strings.Split(s, string(types.Separator))\<close>: the separator is the one-character
  string \<^verbatim>\<open>"/"\<close>, so the result has one segment more than \<open>s\<close> has separators, and the
  empty string gives one empty segment.
\<close>

definition Separator :: char where
  "Separator = CHR ''/''"

fun Split :: "string \<Rightarrow> char \<Rightarrow> string list" where
  "Split [] sep = [[]]"
| "Split (c # cs) sep =
     (if c = sep then [] # Split cs sep
      else (case Split cs sep of
              [] \<Rightarrow> [[c]]
            | p # ps \<Rightarrow> (c # p) # ps))"

text \<open>\<^verbatim>\<open>fmt.Sprintf("%s%c%s", namespace, types.Separator, name)\<close>.\<close>

definition NamespacedName :: "string \<Rightarrow> string \<Rightarrow> string" where
  "NamespacedName namespace name = namespace @ [Separator] @ name"

text \<open>\<^verbatim>\<open>strings.Contains(s, substr)\<close>.\<close>

fun Contains :: "string \<Rightarrow> string \<Rightarrow> bool" where
  "Contains [] substr = (substr = [])"
| "Contains (c # cs) substr = (prefix substr (c # cs) \<or> Contains cs substr)"

subsection \<open>Errors and operation results\<close>

text \<open>
  A Go \<^verbatim>\<open>error\<close> as the adapter reads it: its message (\<^verbatim>\<open>err.Error()\<close>) and whether
  \<^verbatim>\<open>errors.IsNotFound(err)\<close> holds. \<^verbatim>\<open>fmt.Errorf\<close> builds an error that is not a
  not-found.
\<close>

datatype err = Err (IsNotFound: bool) (Error: string)

definition Errorf :: "string \<Rightarrow> err" where
  "Errorf message = Err False message"

text \<open>
  Modelled from the spec: the chain-control primitives of the reconciler package are not
  under src. An operation returns continue, stop, requeue or requeue-with-error; a nil
  error maps to continue or stop per call site, a non-nil error always to
  requeue-with-error.
\<close>

datatype OperationResult = Continue | Stop | RequeueRequest | RequeueError err

definition ContinueProcessing :: OperationResult where
  "ContinueProcessing = Continue"

definition Requeue :: OperationResult where
  "Requeue = RequeueRequest"

definition RequeueWithError :: "err \<Rightarrow> OperationResult" where
  "RequeueWithError e = RequeueError e"

definition RequeueOnErrorOrContinue :: "err option \<Rightarrow> OperationResult" where
  "RequeueOnErrorOrContinue e = (case e of None \<Rightarrow> Continue | Some x \<Rightarrow> RequeueError x)"

definition RequeueOnErrorOrStop :: "err option \<Rightarrow> OperationResult" where
  "RequeueOnErrorOrStop e = (case e of None \<Rightarrow> Stop | Some x \<Rightarrow> RequeueError x)"

subsection \<open>The objects\<close>

type_synonym Time = nat

datatype ConditionStatus = ConditionTrue | ConditionFalse | ConditionUnknown

datatype ReleaseReason =
    ReleaseReasonValidationError
  | ReleaseReasonTargetDisabledError
  | ReleaseReasonReleasePlanValidationError
  | ReleaseReasonPipelineFailed
  | ReleaseReasonRunning
  | ReleaseReasonSucceeded

text \<open>
  The status of a Release: the references the adapter writes, the start and completion
  times, and the two conditions (release and deployment), each absent or a status with a
  reason and a message.
\<close>

record ReleaseStatus =
  st_ReleasePipelineRun :: string
  st_ReleaseStrategy :: string
  st_Target :: string
  st_SnapshotEnvironmentBinding :: string
  st_StartTime :: "Time option"
  st_CompletionTime :: "Time option"
  st_Released :: "(ConditionStatus \<times> ReleaseReason \<times> string) option"
  st_Deployed :: "(ConditionStatus \<times> string \<times> string) option"

record Release =
  rel_Name :: string
  rel_Namespace :: string
  rel_DeletionTimestamp :: "Time option"
  rel_Finalizers :: "string list"
  rel_ReleasePlan :: string
  rel_Snapshot :: string
  rel_Status :: ReleaseStatus

record ReleasePlan =
  plan_Name :: string
  plan_Namespace :: string
  plan_Application :: string
  plan_Target :: string

record ReleasePlanAdmission =
  rpa_Name :: string
  rpa_Namespace :: string
  rpa_Labels :: "(string \<times> string) list"
  rpa_Application :: string
  rpa_Origin :: string
  rpa_Environment :: string
  rpa_ReleaseStrategy :: string

record ReleaseStrategy =
  strat_Name :: string
  strat_Namespace :: string
  strat_Policy :: string

record EnterpriseContractPolicy =
  pol_Name :: string
  pol_Namespace :: string

record Snapshot =
  snap_Name :: string
  snap_Namespace :: string
  snap_Application :: string

record Application =
  app_Name :: string
  app_Namespace :: string

record Component =
  comp_Name :: string
  comp_Namespace :: string
  comp_Application :: string

record Environment =
  env_Name :: string
  env_Namespace :: string

text \<open>
  A PipelineRun: its name (given by the cluster from \<open>pr_GenerateName\<close> at creation), its
  labels, what the builder put into it, and its \<^verbatim>\<open>Succeeded\<close> condition (status and
  message) once the pipeline engine has set one.
\<close>

record PipelineRun =
  pr_Name :: string
  pr_GenerateName :: string
  pr_Namespace :: string
  pr_Labels :: "(string \<times> string) list"
  pr_Owner :: "string \<times> string"
  pr_Strategy :: string
  pr_Policy :: string
  pr_Snapshot :: string
  pr_Succeeded :: "(ConditionStatus \<times> string) option"

record Condition =
  cond_Type :: string
  cond_Status :: ConditionStatus
  cond_Reason :: string
  cond_Message :: string

record SnapshotEnvironmentBinding =
  seb_Name :: string
  seb_GenerateName :: string
  seb_Namespace :: string
  seb_Application :: string
  seb_Environment :: string
  seb_Snapshot :: string
  seb_Components :: "string list"
  seb_ControllerOwner :: "(string \<times> string) option"
  seb_OwnerAnnotation :: "(string \<times> string) option"
  seb_ComponentDeploymentConditions :: "Condition list"

subsection \<open>The cluster, the client and its failures\<close>

record Cluster =
  stored :: "Release option"
  releasePlans :: "ReleasePlan list"
  releasePlanAdmissions :: "ReleasePlanAdmission list"
  releaseStrategies :: "ReleaseStrategy list"
  policies :: "EnterpriseContractPolicy list"
  snapshots :: "Snapshot list"
  applications :: "Application list"
  components :: "Component list"
  environments :: "Environment list"
  pipelineRuns :: "PipelineRun list"
  bindings :: "SnapshotEnvironmentBinding list"
  serial :: nat

datatype Kind =
    KRelease | KReleasePlan | KReleasePlanAdmission | KReleaseStrategy
  | KEnterpriseContractPolicy | KSnapshot | KApplication | KComponent | KEnvironment
  | KPipelineRun | KSnapshotEnvironmentBinding

datatype Call =
    CallGet Kind string string
  | CallList Kind
  | CallCreate Kind
  | CallDelete Kind string string
  | CallPatch
  | CallStatusPatch
  | CallSyncSnapshot string string

text \<open>
  \<open>release\<close> is \<^verbatim>\<open>a.release\<close>, the object in memory; \<open>stored (cluster w)\<close> is its copy in
  the cluster, which only a successful patch changes. \<open>faults\<close> holds, for each of the
  next client calls in turn, the error that call fails with (\<open>None\<close>: the call is
  served); past the end of the list every call is served. \<open>calls\<close> is the log of the
  client calls issued, the latest last. \<open>clock\<close> is what \<^verbatim>\<open>time.Now()\<close> reads.
\<close>

record World =
  release :: Release
  cluster :: Cluster
  faults :: "err option list"
  calls :: "Call list"
  clock :: Time

definition call :: "Call \<Rightarrow> World \<Rightarrow> err option \<times> World" where
  "call c w =
     (case faults w of
        [] \<Rightarrow> (None, w\<lparr>calls := calls w @ [c]\<rparr>)
      | f # fs \<Rightarrow> (f, w\<lparr>faults := fs, calls := calls w @ [c]\<rparr>))"

definition KindName :: "Kind \<Rightarrow> string" where
  "KindName k =
     (case k of
        KRelease \<Rightarrow> ''releases.appstudio.redhat.com''
      | KReleasePlan \<Rightarrow> ''releaseplans.appstudio.redhat.com''
      | KReleasePlanAdmission \<Rightarrow> ''releaseplanadmissions.appstudio.redhat.com''
      | KReleaseStrategy \<Rightarrow> ''releasestrategies.appstudio.redhat.com''
      | KEnterpriseContractPolicy \<Rightarrow> ''enterprisecontractpolicies.appstudio.redhat.com''
      | KSnapshot \<Rightarrow> ''snapshots.appstudio.redhat.com''
      | KApplication \<Rightarrow> ''applications.appstudio.redhat.com''
      | KComponent \<Rightarrow> ''components.appstudio.redhat.com''
      | KEnvironment \<Rightarrow> ''environments.appstudio.redhat.com''
      | KPipelineRun \<Rightarrow> ''pipelineruns.tekton.dev''
      | KSnapshotEnvironmentBinding \<Rightarrow> ''snapshotenvironmentbindings.appstudio.redhat.com'')"

text \<open>
  \<open>KindName\<close> is the qualified resource of a kind, \<open>resource.group\<close>. The not-found error
  of the API for an object of a kind reads \<open>resource.group "name" not found\<close>.
\<close>

definition NewNotFound :: "Kind \<Rightarrow> string \<Rightarrow> err" where
  "NewNotFound k name = Err True (KindName k @ '' '' @ [CHR 0x22] @ name @ [CHR 0x22] @ '' not found'')"

text \<open>
  \<^verbatim>\<open>client.Get\<close> of the object of a kind with a namespace and a name: the call fails as
  the world says, or the object is not in the cluster (not-found), or it is returned.
\<close>

definition client_Get ::
  "Kind \<Rightarrow> (Cluster \<Rightarrow> 'a list) \<Rightarrow> ('a \<Rightarrow> string) \<Rightarrow> ('a \<Rightarrow> string) \<Rightarrow> string \<Rightarrow> string
     \<Rightarrow> World \<Rightarrow> (err + 'a) \<times> World" where
  "client_Get k objects namespace_of name_of namespace name w =
     (case call (CallGet k namespace name) w of
        (Some e, w1) \<Rightarrow> (Inl e, w1)
      | (None, w1) \<Rightarrow>
          (case find (\<lambda>x. namespace_of x = namespace \<and> name_of x = name) (objects (cluster w1)) of
             None \<Rightarrow> (Inl (NewNotFound k name), w1)
           | Some x \<Rightarrow> (Inr x, w1)))"

text \<open>
  \<^verbatim>\<open>client.List\<close> of the objects of a kind that a selector accepts, at most \<open>limit\<close> of
  them when a limit is given: the call fails as the world says, or the matching objects
  are returned in the order of the cluster (none matching is an empty list, not an error).
\<close>

definition client_List ::
  "Kind \<Rightarrow> (Cluster \<Rightarrow> 'a list) \<Rightarrow> ('a \<Rightarrow> bool) \<Rightarrow> nat option \<Rightarrow> World \<Rightarrow> (err + 'a list) \<times> World" where
  "client_List k objects selector limit w =
     (case call (CallList k) w of
        (Some e, w1) \<Rightarrow> (Inl e, w1)
      | (None, w1) \<Rightarrow>
          (let items = filter selector (objects (cluster w1))
           in (Inr (case limit of None \<Rightarrow> items | Some n \<Rightarrow> take n items), w1)))"

text \<open>
  The name the cluster gives to an object created with a \<^verbatim>\<open>GenerateName\<close>: the prefix
  followed by a suffix no other object has, here the decimal digits of a serial number.
\<close>

function Itoa :: "nat \<Rightarrow> string" where
  "Itoa n = (if n < 10 then [''0123456789'' ! n] else Itoa (n div 10) @ [''0123456789'' ! (n mod 10)])"
  by pat_completeness auto
termination
  by (relation "measure (\<lambda>n. n)") auto

text \<open>
  \<^verbatim>\<open>client.Create\<close> of a PipelineRun and of a SnapshotEnvironmentBinding: the call fails
  and creates nothing, or the object gets its name and is in the cluster from then on.
\<close>

definition client_Create_PipelineRun :: "PipelineRun \<Rightarrow> World \<Rightarrow> (err + PipelineRun) \<times> World" where
  "client_Create_PipelineRun obj w =
     (case call (CallCreate KPipelineRun) w of
        (Some e, w1) \<Rightarrow> (Inl e, w1)
      | (None, w1) \<Rightarrow>
          (let c = cluster w1;
               created = obj\<lparr>pr_Name := pr_GenerateName obj @ Itoa (serial c)\<rparr>
           in (Inr created,
               w1\<lparr>cluster := c\<lparr>pipelineRuns := pipelineRuns c @ [created], serial := Suc (serial c)\<rparr>\<rparr>)))"

definition client_Create_SnapshotEnvironmentBinding ::
  "SnapshotEnvironmentBinding \<Rightarrow> World \<Rightarrow> (err + SnapshotEnvironmentBinding) \<times> World" where
  "client_Create_SnapshotEnvironmentBinding obj w =
     (case call (CallCreate KSnapshotEnvironmentBinding) w of
        (Some e, w1) \<Rightarrow> (Inl e, w1)
      | (None, w1) \<Rightarrow>
          (let c = cluster w1;
               created = obj\<lparr>seb_Name := seb_GenerateName obj @ Itoa (serial c)\<rparr>
           in (Inr created,
               w1\<lparr>cluster := c\<lparr>bindings := bindings c @ [created], serial := Suc (serial c)\<rparr>\<rparr>)))"

text \<open>
  \<^verbatim>\<open>client.Delete\<close> of a PipelineRun: the call fails as the world says (with a not-found
  when another client has removed the object meanwhile), or the object is not in the
  cluster (not-found), or it is removed.
\<close>

definition client_Delete_PipelineRun :: "PipelineRun \<Rightarrow> World \<Rightarrow> err option \<times> World" where
  "client_Delete_PipelineRun obj w =
     (case call (CallDelete KPipelineRun (pr_Namespace obj) (pr_Name obj)) w of
        (Some e, w1) \<Rightarrow> (Some e, w1)
      | (None, w1) \<Rightarrow>
          (let c = cluster w1;
               same = (\<lambda>x. pr_Namespace x = pr_Namespace obj \<and> pr_Name x = pr_Name obj)
           in if \<exists>x \<in> set (pipelineRuns c). same x
              then (None, w1\<lparr>cluster := c\<lparr>pipelineRuns := filter (\<lambda>x. \<not> same x) (pipelineRuns c)\<rparr>\<rparr>)
              else (Some (NewNotFound KPipelineRun (pr_Name obj)), w1)))"

text \<open>
  A merge patch carries the fields in which the object differs from the copy taken
  before the change (\<^verbatim>\<open>client.MergeFrom(a.release.DeepCopy())\<close>); the cluster writes
  those fields into its own copy and keeps the others.
\<close>

definition merge :: "'a \<Rightarrow> 'a \<Rightarrow> 'a \<Rightarrow> 'a" where
  "merge original changed current = (if changed = original then current else changed)"

text \<open>
  The status is merged field by field, except for the conditions: they are one array,
  which a merge patch carries whole as soon as one condition differs, and which then
  replaces the array of the cluster's copy.
\<close>

definition merge_status :: "ReleaseStatus \<Rightarrow> ReleaseStatus \<Rightarrow> ReleaseStatus \<Rightarrow> ReleaseStatus" where
  "merge_status original changed current =
     (let conditions =
            merge (st_Released original, st_Deployed original) (st_Released changed, st_Deployed changed)
              (st_Released current, st_Deployed current)
      in \<lparr> st_ReleasePipelineRun =
             merge (st_ReleasePipelineRun original) (st_ReleasePipelineRun changed) (st_ReleasePipelineRun current),
           st_ReleaseStrategy =
             merge (st_ReleaseStrategy original) (st_ReleaseStrategy changed) (st_ReleaseStrategy current),
           st_Target = merge (st_Target original) (st_Target changed) (st_Target current),
           st_SnapshotEnvironmentBinding =
             merge (st_SnapshotEnvironmentBinding original) (st_SnapshotEnvironmentBinding changed)
               (st_SnapshotEnvironmentBinding current),
           st_StartTime = merge (st_StartTime original) (st_StartTime changed) (st_StartTime current),
           st_CompletionTime =
             merge (st_CompletionTime original) (st_CompletionTime changed) (st_CompletionTime current),
           st_Released = fst conditions,
           st_Deployed = snd conditions \<rparr>)"

text \<open>The copy of the Release in the cluster, when the cluster has it under the same key.\<close>

definition stored_release :: "World \<Rightarrow> Release option" where
  "stored_release w =
     (case stored (cluster w) of
        None \<Rightarrow> None
      | Some s \<Rightarrow>
          if rel_Namespace s = rel_Namespace (release w) \<and> rel_Name s = rel_Name (release w)
          then Some s else None)"

text \<open>
  \<^verbatim>\<open>a.client.Patch(a.context, a.release, patch)\<close>: the patch of the object itself; it
  carries the finalizers when they changed (the status is not written through it). When
  the call is served the cluster's copy takes the patch, and the object in memory
  becomes the cluster's copy. A failed call leaves the cluster's copy and the object in
  memory as they are.
\<close>

definition client_Patch :: "Release \<Rightarrow> World \<Rightarrow> err option \<times> World" where
  "client_Patch original w =
     (case call CallPatch w of
        (Some e, w1) \<Rightarrow> (Some e, w1)
      | (None, w1) \<Rightarrow>
          (case stored_release w1 of
             None \<Rightarrow> (Some (NewNotFound KRelease (rel_Name (release w1))), w1)
           | Some s \<Rightarrow>
               (let s' = s\<lparr>rel_Finalizers :=
                             merge (rel_Finalizers original) (rel_Finalizers (release w1)) (rel_Finalizers s)\<rparr>
                in (None, w1\<lparr>release := s', cluster := (cluster w1)\<lparr>stored := Some s'\<rparr>\<rparr>))))"

text \<open>\<^verbatim>\<open>a.client.Status().Patch(a.context, a.release, patch)\<close>: the same for the status.\<close>

definition client_Status_Patch :: "Release \<Rightarrow> World \<Rightarrow> err option \<times> World" where
  "client_Status_Patch original w =
     (case call CallStatusPatch w of
        (Some e, w1) \<Rightarrow> (Some e, w1)
      | (None, w1) \<Rightarrow>
          (case stored_release w1 of
             None \<Rightarrow> (Some (NewNotFound KRelease (rel_Name (release w1))), w1)
           | Some s \<Rightarrow>
               (let s' = s\<lparr>rel_Status :=
                             merge_status (rel_Status original) (rel_Status (release w1)) (rel_Status s)\<rparr>
                in (None, w1\<lparr>release := s', cluster := (cluster w1)\<lparr>stored := Some s'\<rparr>\<rparr>))))"

text \<open>
  Modelled from the spec: the syncer package is not under src.
  \<^verbatim>\<open>syncSnapshot(snapshot, targetNamespace)\<close> synchronizes the snapshot into the target
  namespace so that the objects the binding refers to exist there; it can fail.
\<close>

definition SyncSnapshot :: "Snapshot \<Rightarrow> string \<Rightarrow> World \<Rightarrow> err option \<times> World" where
  "SyncSnapshot snapshot namespace w =
     (case call (CallSyncSnapshot (snap_Name snapshot) namespace) w of
        (Some e, w1) \<Rightarrow> (Some e, w1)
      | (None, w1) \<Rightarrow>
          (let c = cluster w1
           in if \<exists>x \<in> set (snapshots c). snap_Namespace x = namespace \<and> snap_Name x = snap_Name snapshot
              then (None, w1)
              else (None, w1\<lparr>cluster := c\<lparr>snapshots := snapshots c @ [snapshot\<lparr>snap_Namespace := namespace\<rparr>]\<rparr>\<rparr>)))"

subsection \<open>The Release type's own operations\<close>

text \<open>
  Modelled from the spec: the methods of the Release type (package api/v1alpha1) are not
  under src. The spec names the states they set and read: a Release is marked invalid
  with a reason and a message; marked running when its execution is registered; it has
  started from then on and is done once it has succeeded or failed; marked succeeded
  (condition true) or failed with the execution's message; marked deploying, or deployed
  with the binding's status, reason and message; it has been deployed once the
  deployment condition is true.
\<close>

definition MarkInvalid :: "ReleaseReason \<Rightarrow> string \<Rightarrow> Release \<Rightarrow> Release" where
  "MarkInvalid reason message r =
     r\<lparr>rel_Status := (rel_Status r)\<lparr>st_Released := Some (ConditionFalse, reason, message)\<rparr>\<rparr>"

definition MarkRunning :: "Time \<Rightarrow> Release \<Rightarrow> Release" where
  "MarkRunning now r =
     r\<lparr>rel_Status := (rel_Status r)
         \<lparr>st_StartTime := Some now,
          st_Released := Some (ConditionUnknown, ReleaseReasonRunning, [])\<rparr>\<rparr>"

definition MarkSucceeded :: "Release \<Rightarrow> Release" where
  "MarkSucceeded r =
     r\<lparr>rel_Status := (rel_Status r)\<lparr>st_Released := Some (ConditionTrue, ReleaseReasonSucceeded, [])\<rparr>\<rparr>"

definition MarkFailed :: "ReleaseReason \<Rightarrow> string \<Rightarrow> Release \<Rightarrow> Release" where
  "MarkFailed reason message r =
     r\<lparr>rel_Status := (rel_Status r)\<lparr>st_Released := Some (ConditionFalse, reason, message)\<rparr>\<rparr>"

definition MarkDeploying :: "string \<Rightarrow> string \<Rightarrow> Release \<Rightarrow> Release" where
  "MarkDeploying reason message r =
     r\<lparr>rel_Status := (rel_Status r)\<lparr>st_Deployed := Some (ConditionUnknown, reason, message)\<rparr>\<rparr>"

definition MarkDeployed :: "ConditionStatus \<Rightarrow> string \<Rightarrow> string \<Rightarrow> Release \<Rightarrow> Release" where
  "MarkDeployed status reason message r =
     r\<lparr>rel_Status := (rel_Status r)\<lparr>st_Deployed := Some (status, reason, message)\<rparr>\<rparr>"

definition HasStarted :: "Release \<Rightarrow> bool" where
  "HasStarted r = (st_StartTime (rel_Status r) \<noteq> None)"

definition IsDone :: "Release \<Rightarrow> bool" where
  "IsDone r =
     (case st_Released (rel_Status r) of
        None \<Rightarrow> False
      | Some (status, reason, message) \<Rightarrow> status \<noteq> ConditionUnknown)"

definition HasSucceeded :: "Release \<Rightarrow> bool" where
  "HasSucceeded r =
     (case st_Released (rel_Status r) of
        None \<Rightarrow> False
      | Some (status, reason, message) \<Rightarrow> status = ConditionTrue)"

definition HasBeenDeployed :: "Release \<Rightarrow> bool" where
  "HasBeenDeployed r =
     (case st_Deployed (rel_Status r) of
        None \<Rightarrow> False
      | Some (status, reason, message) \<Rightarrow> status = ConditionTrue)"

text \<open>
  The finalizer helpers of controllerutil: membership, appending when absent, and
  removing every occurrence.
\<close>

definition finalizerName :: string where
  "finalizerName = ''appstudio.redhat.com/release-finalizer''"

definition ContainsFinalizer :: "Release \<Rightarrow> string \<Rightarrow> bool" where
  "ContainsFinalizer r finalizer = (finalizer \<in> set (rel_Finalizers r))"

definition AddFinalizer :: "Release \<Rightarrow> string \<Rightarrow> Release" where
  "AddFinalizer r finalizer =
     (if finalizer \<in> set (rel_Finalizers r) then r
      else r\<lparr>rel_Finalizers := rel_Finalizers r @ [finalizer]\<rparr>)"

definition RemoveFinalizer :: "Release \<Rightarrow> string \<Rightarrow> Release" where
  "RemoveFinalizer r finalizer = r\<lparr>rel_Finalizers := filter (\<lambda>f. f \<noteq> finalizer) (rel_Finalizers r)\<rparr>"

subsection \<open>Labels and builders\<close>

text \<open>
  Modelled from the spec: the label names are constants of packages that are not under
  src. The release execution carries the labels \<^verbatim>\<open>release-name\<close> and
  \<^verbatim>\<open>release-namespace\<close>; the opt-out label of an admission is the auto-release label.
\<close>

definition ReleaseNameLabel :: string where
  "ReleaseNameLabel = ''release-name''"

definition ReleaseNamespaceLabel :: string where
  "ReleaseNamespaceLabel = ''release-namespace''"

definition AutoReleaseLabel :: string where
  "AutoReleaseLabel = ''auto-release''"

definition ComponentDeploymentConditionAllComponentsDeployed :: string where
  "ComponentDeploymentConditionAllComponentsDeployed = ''AllComponentsDeployed''"

text \<open>\<^verbatim>\<open>client.MatchingLabels\<close>: the object carries every label of the selector.\<close>

definition MatchingLabels :: "(string \<times> string) list \<Rightarrow> (string \<times> string) list \<Rightarrow> bool" where
  "MatchingLabels selector labels = (\<forall>(k, v) \<in> set selector. map_of labels k = Some v)"

text \<open>
  Modelled from the spec: the builder of the tekton package is not under src. It takes a
  name prefix and a namespace and accepts the owner, the release metadata, the strategy,
  the policy and the snapshot; the manifest carries the release-name and
  release-namespace labels of the Release.
\<close>

definition NewReleasePipelineRun ::
  "string \<Rightarrow> string \<Rightarrow> Release \<Rightarrow> ReleaseStrategy \<Rightarrow> EnterpriseContractPolicy \<Rightarrow> Snapshot \<Rightarrow> PipelineRun" where
  "NewReleasePipelineRun name namespace r releaseStrategy enterpriseContractPolicy snapshot =
     \<lparr> pr_Name = [],
       pr_GenerateName = name @ ''-'',
       pr_Namespace = namespace,
       pr_Labels = [(ReleaseNameLabel, rel_Name r), (ReleaseNamespaceLabel, rel_Namespace r)],
       pr_Owner = (rel_Namespace r, rel_Name r),
       pr_Strategy = strat_Name releaseStrategy,
       pr_Policy = pol_Name enterpriseContractPolicy,
       pr_Snapshot = snap_Name snapshot,
       pr_Succeeded = None \<rparr>"

text \<open>
  Modelled from the spec: the builder of the gitops package is not under src. It builds
  the binding from the components, the snapshot and the environment: the binding lies in
  the environment's namespace, and names the environment, the snapshot and the
  application that owns the snapshot.
\<close>

definition NewSnapshotEnvironmentBinding ::
  "Component list \<Rightarrow> Snapshot \<Rightarrow> Environment \<Rightarrow> SnapshotEnvironmentBinding" where
  "NewSnapshotEnvironmentBinding cs snapshot environment =
     \<lparr> seb_Name = [],
       seb_GenerateName = env_Name environment @ ''-'',
       seb_Namespace = env_Namespace environment,
       seb_Application = snap_Application snapshot,
       seb_Environment = env_Name environment,
       seb_Snapshot = snap_Name snapshot,
       seb_Components = map comp_Name cs,
       seb_ControllerOwner = None,
       seb_OwnerAnnotation = None,
       seb_ComponentDeploymentConditions = [] \<rparr>"

text \<open>
  \<^verbatim>\<open>ctrl.SetControllerReference\<close> refuses an owner in another namespace than the object;
  \<^verbatim>\<open>libhandler.SetOwnerAnnotations\<close> refuses an owner without a name.
\<close>

definition SetControllerReference ::
  "Application \<Rightarrow> SnapshotEnvironmentBinding \<Rightarrow> err + SnapshotEnvironmentBinding" where
  "SetControllerReference owner obj =
     (if app_Namespace owner \<noteq> seb_Namespace obj
      then Inl (Errorf ''cross-namespace owner references are disallowed'')
      else Inr (obj\<lparr>seb_ControllerOwner := Some (app_Namespace owner, app_Name owner)\<rparr>))"

definition SetOwnerAnnotations ::
  "Release \<Rightarrow> SnapshotEnvironmentBinding \<Rightarrow> err + SnapshotEnvironmentBinding" where
  "SetOwnerAnnotations owner obj =
     (if rel_Name owner = []
      then Inl (Errorf ''owner does not have a name, cannot call SetOwnerAnnotations'')
      else Inr (obj\<lparr>seb_OwnerAnnotation := Some (rel_Namespace owner, rel_Name owner)\<rparr>))"

subsection \<open>Retrieving objects\<close>

definition getReleasePlan :: "World \<Rightarrow> (err + ReleasePlan) \<times> World" where
  "getReleasePlan w =
     client_Get KReleasePlan releasePlans plan_Namespace plan_Name
       (rel_Namespace (release w)) (rel_ReleasePlan (release w)) w"

text \<open>
  The loop of \<^verbatim>\<open>getActiveReleasePlanAdmission\<close> over the listed admissions, with
  \<open>activeReleasePlanAdmission\<close> as the accumulator: an admission of another application
  is skipped; a second admission of the application is an error, whatever its labels;
  an admission labelled auto-release \<^verbatim>\<open>"false"\<close> is an error; otherwise it becomes the
  active one.
\<close>

definition multipleFound :: "ReleasePlan \<Rightarrow> err" where
  "multipleFound releasePlan =
     Errorf (''multiple ReleasePlanAdmissions found with the target ('' @ plan_Target releasePlan
             @ '') for application '' @ [CHR 0x27] @ plan_Application releasePlan @ [CHR 0x27])"

definition autoReleaseFalse :: "ReleasePlanAdmission \<Rightarrow> err" where
  "autoReleaseFalse releasePlanAdmission =
     Errorf (''found ReleasePlanAdmission '' @ [CHR 0x27] @ rpa_Name releasePlanAdmission @ [CHR 0x27]
             @ '' with auto-release label set to false'')"

definition noneFound :: "ReleasePlan \<Rightarrow> err" where
  "noneFound releasePlan =
     Errorf (''no ReleasePlanAdmission found in the target ('' @ plan_Target releasePlan
             @ '') for application '' @ [CHR 0x27] @ plan_Application releasePlan @ [CHR 0x27])"

fun activeLoop ::
  "ReleasePlan \<Rightarrow> ReleasePlanAdmission list \<Rightarrow> ReleasePlanAdmission option
     \<Rightarrow> err + ReleasePlanAdmission option" where
  "activeLoop releasePlan [] activeReleasePlanAdmission = Inr activeReleasePlanAdmission"
| "activeLoop releasePlan (releasePlanAdmission # items) activeReleasePlanAdmission =
     (if rpa_Application releasePlanAdmission \<noteq> plan_Application releasePlan
      then activeLoop releasePlan items activeReleasePlanAdmission
      else if activeReleasePlanAdmission \<noteq> None
      then Inl (multipleFound releasePlan)
      else if map_of (rpa_Labels releasePlanAdmission) AutoReleaseLabel = Some ''false''
      then Inl (autoReleaseFalse releasePlanAdmission)
      else activeLoop releasePlan items (Some releasePlanAdmission))"

definition getActiveReleasePlanAdmission :: "World \<Rightarrow> (err + ReleasePlanAdmission) \<times> World" where
  "getActiveReleasePlanAdmission w =
     (case getReleasePlan w of
        (Inl e, w1) \<Rightarrow> (Inl e, w1)
      | (Inr releasePlan, w1) \<Rightarrow>
          (case client_List KReleasePlanAdmission releasePlanAdmissions
                  (\<lambda>x. rpa_Namespace x = plan_Target releasePlan \<and> rpa_Origin x = plan_Namespace releasePlan)
                  None w1 of
             (Inl e, w2) \<Rightarrow> (Inl e, w2)
           | (Inr items, w2) \<Rightarrow>
               (case activeLoop releasePlan items None of
                  Inl e \<Rightarrow> (Inl e, w2)
                | Inr None \<Rightarrow> (Inl (noneFound releasePlan), w2)
                | Inr (Some activeReleasePlanAdmission) \<Rightarrow> (Inr activeReleasePlanAdmission, w2))))"

definition getApplication :: "ReleasePlanAdmission \<Rightarrow> World \<Rightarrow> (err + Application) \<times> World" where
  "getApplication releasePlanAdmission w =
     client_Get KApplication applications app_Namespace app_Name
       (rpa_Namespace releasePlanAdmission) (rpa_Application releasePlanAdmission) w"

definition getApplicationComponents :: "Application \<Rightarrow> World \<Rightarrow> (err + Component list) \<times> World" where
  "getApplicationComponents application w =
     client_List KComponent components
       (\<lambda>x. comp_Namespace x = app_Namespace application \<and> comp_Application x = app_Name application)
       None w"

definition getSnapshot :: "World \<Rightarrow> (err + Snapshot) \<times> World" where
  "getSnapshot w =
     client_Get KSnapshot snapshots snap_Namespace snap_Name
       (rel_Namespace (release w)) (rel_Snapshot (release w)) w"

definition getEnvironment :: "ReleasePlanAdmission \<Rightarrow> World \<Rightarrow> (err + Environment) \<times> World" where
  "getEnvironment releasePlanAdmission w =
     client_Get KEnvironment environments env_Namespace env_Name
       (rpa_Namespace releasePlanAdmission) (rpa_Environment releasePlanAdmission) w"

text \<open>
  \<^verbatim>\<open>getReleasePipelineRun\<close>: the first PipelineRun carrying the two labels of the Release
  (\<open>Inr (Some pipelineRun)\<close>), nil without an error when the list is empty (\<open>Inr None\<close>),
  nil with the error when the List fails.
\<close>

definition getReleasePipelineRun :: "World \<Rightarrow> (err + PipelineRun option) \<times> World" where
  "getReleasePipelineRun w =
     (case client_List KPipelineRun pipelineRuns
             (\<lambda>x. MatchingLabels [(ReleaseNameLabel, rel_Name (release w)),
                                   (ReleaseNamespaceLabel, rel_Namespace (release w))] (pr_Labels x))
             (Some 1) w of
        (Inl e, w1) \<Rightarrow> (Inl e, w1)
      | (Inr items, w1) \<Rightarrow>
          (case items of
             [] \<Rightarrow> (Inr None, w1)
           | pipelineRun # rest \<Rightarrow> (Inr (Some pipelineRun), w1)))"

definition getReleaseStrategy :: "ReleasePlanAdmission \<Rightarrow> World \<Rightarrow> (err + ReleaseStrategy) \<times> World" where
  "getReleaseStrategy releasePlanAdmission w =
     client_Get KReleaseStrategy releaseStrategies strat_Namespace strat_Name
       (rpa_Namespace releasePlanAdmission) (rpa_ReleaseStrategy releasePlanAdmission) w"

definition getEnterpriseContractPolicy ::
  "ReleaseStrategy \<Rightarrow> World \<Rightarrow> (err + EnterpriseContractPolicy) \<times> World" where
  "getEnterpriseContractPolicy releaseStrategy w =
     client_Get KEnterpriseContractPolicy policies pol_Namespace pol_Name
       (strat_Namespace releaseStrategy) (strat_Policy releaseStrategy) w"

text \<open>
  \<^verbatim>\<open>getSnapshotEnvironmentBinding\<close>: among the bindings of the environment, the first one of
  the admission's application; nil without an error when there is none.
\<close>

definition getSnapshotEnvironmentBinding ::
  "Environment \<Rightarrow> ReleasePlanAdmission \<Rightarrow> World \<Rightarrow> (err + SnapshotEnvironmentBinding option) \<times> World" where
  "getSnapshotEnvironmentBinding environment releasePlanAdmission w =
     (case client_List KSnapshotEnvironmentBinding bindings
             (\<lambda>x. seb_Namespace x = env_Namespace environment \<and> seb_Environment x = env_Name environment)
             None w of
        (Inl e, w1) \<Rightarrow> (Inl e, w1)
      | (Inr items, w1) \<Rightarrow>
          (Inr (find (\<lambda>binding. seb_Application binding = rpa_Application releasePlanAdmission) items), w1))"

definition invalidNamespacedName :: "string \<Rightarrow> err" where
  "invalidNamespacedName s =
     Errorf (''found invalid namespaced name of SnapshotEnvironmentBinding in release status: ''
             @ [CHR 0x27] @ s @ [CHR 0x27])"

definition getSnapshotEnvironmentBindingFromReleaseStatus ::
  "World \<Rightarrow> (err + SnapshotEnvironmentBinding) \<times> World" where
  "getSnapshotEnvironmentBindingFromReleaseStatus w =
     (let bindingNamespacedName =
            Split (st_SnapshotEnvironmentBinding (rel_Status (release w))) Separator
      in if length bindingNamespacedName \<noteq> 2
         then (Inl (invalidNamespacedName (st_SnapshotEnvironmentBinding (rel_Status (release w)))), w)
         else client_Get KSnapshotEnvironmentBinding bindings seb_Namespace seb_Name
                (bindingNamespacedName ! 0) (bindingNamespacedName ! 1) w)"

definition getSnapshotEnvironmentResources ::
  "ReleasePlanAdmission \<Rightarrow> World \<Rightarrow> (err + Application \<times> Component list \<times> Snapshot) \<times> World" where
  "getSnapshotEnvironmentResources releasePlanAdmission w =
     (case getApplication releasePlanAdmission w of
        (Inl e, w1) \<Rightarrow> (Inl e, w1)
      | (Inr application, w1) \<Rightarrow>
          (case getApplicationComponents application w1 of
             (Inl e, w2) \<Rightarrow> (Inl e, w2)
           | (Inr cs, w2) \<Rightarrow>
               (case getSnapshot w2 of
                  (Inl e, w3) \<Rightarrow> (Inl e, w3)
                | (Inr snapshot, w3) \<Rightarrow> (Inr (application, cs, snapshot), w3))))"

subsection \<open>Creating, finalizing and registering\<close>

definition createReleasePipelineRun ::
  "ReleaseStrategy \<Rightarrow> EnterpriseContractPolicy \<Rightarrow> Snapshot \<Rightarrow> World \<Rightarrow> (err + PipelineRun) \<times> World" where
  "createReleasePipelineRun releaseStrategy enterpriseContractPolicy snapshot w =
     client_Create_PipelineRun
       (NewReleasePipelineRun ''release-pipelinerun'' (strat_Namespace releaseStrategy) (release w)
          releaseStrategy enterpriseContractPolicy snapshot) w"

definition createSnapshotEnvironmentBinding ::
  "Environment \<Rightarrow> ReleasePlanAdmission \<Rightarrow> World \<Rightarrow> (err + SnapshotEnvironmentBinding) \<times> World" where
  "createSnapshotEnvironmentBinding environment releasePlanAdmission w =
     (case getSnapshotEnvironmentResources releasePlanAdmission w of
        (Inl e, w1) \<Rightarrow> (Inl e, w1)
      | (Inr (application, cs, snapshot), w1) \<Rightarrow>
          (case SetControllerReference application (NewSnapshotEnvironmentBinding cs snapshot environment) of
             Inl e \<Rightarrow> (Inl e, w1)
           | Inr binding \<Rightarrow>
               (case SetOwnerAnnotations (release w1) binding of
                  Inl e \<Rightarrow> (Inl e, w1)
                | Inr binding' \<Rightarrow> client_Create_SnapshotEnvironmentBinding binding' w1)))"

definition finalizeRelease :: "World \<Rightarrow> err option \<times> World" where
  "finalizeRelease w =
     (case getReleasePipelineRun w of
        (Inl e, w1) \<Rightarrow> (Some e, w1)
      | (Inr None, w1) \<Rightarrow> (None, w1)
      | (Inr (Some pipelineRun), w1) \<Rightarrow>
          (case client_Delete_PipelineRun pipelineRun w1 of
             (Some e, w2) \<Rightarrow> if \<not> IsNotFound e then (Some e, w2) else (None, w2)
           | (None, w2) \<Rightarrow> (None, w2)))"

text \<open>\<^verbatim>\<open>meta.FindStatusCondition\<close>: the first condition of the type.\<close>

definition FindStatusCondition :: "Condition list \<Rightarrow> string \<Rightarrow> Condition option" where
  "FindStatusCondition conditions conditionType = find (\<lambda>c. cond_Type c = conditionType) conditions"

definition registerGitOpsDeploymentStatus ::
  "SnapshotEnvironmentBinding option \<Rightarrow> World \<Rightarrow> err option \<times> World" where
  "registerGitOpsDeploymentStatus binding w =
     (case binding of
        None \<Rightarrow> (None, w)
      | Some b \<Rightarrow>
          (case FindStatusCondition (seb_ComponentDeploymentConditions b)
                  ComponentDeploymentConditionAllComponentsDeployed of
             None \<Rightarrow> (None, w)
           | Some condition \<Rightarrow>
               (let patch = release w;
                    r = (if cond_Status condition = ConditionUnknown
                         then MarkDeploying (cond_Reason condition) (cond_Message condition) (release w)
                         else MarkDeployed (cond_Status condition) (cond_Reason condition)
                                (cond_Message condition) (release w))
                in client_Status_Patch patch (w\<lparr>release := r\<rparr>))))"

text \<open>
  \<^verbatim>\<open>pipelineRun.IsDone()\<close>: the \<^verbatim>\<open>Succeeded\<close> condition is there and is not unknown.
\<close>

definition pr_IsDone :: "PipelineRun \<Rightarrow> bool" where
  "pr_IsDone pipelineRun =
     (case pr_Succeeded pipelineRun of
        None \<Rightarrow> False
      | Some (status, message) \<Rightarrow> status \<noteq> ConditionUnknown)"

definition registerReleasePipelineRunStatus :: "PipelineRun option \<Rightarrow> World \<Rightarrow> err option \<times> World" where
  "registerReleasePipelineRunStatus pipelineRun w =
     (case pipelineRun of
        None \<Rightarrow> (None, w)
      | Some p \<Rightarrow>
          (case pr_Succeeded p of
             None \<Rightarrow> (None, w)
           | Some (status, message) \<Rightarrow>
               if pr_IsDone p then
                 (let patch = release w;
                      r = (release w)\<lparr>rel_Status := (rel_Status (release w))\<lparr>st_CompletionTime := Some (clock w)\<rparr>\<rparr>;
                      r' = (if status = ConditionTrue then MarkSucceeded r
                            else MarkFailed ReleaseReasonPipelineFailed message r)
                  in client_Status_Patch patch (w\<lparr>release := r'\<rparr>))
               else (None, w)))"

definition registerReleaseStatusData ::
  "PipelineRun option \<Rightarrow> ReleaseStrategy option \<Rightarrow> World \<Rightarrow> err option \<times> World" where
  "registerReleaseStatusData releasePipelineRun releaseStrategy w =
     (case (releasePipelineRun, releaseStrategy) of
        (Some p, Some s) \<Rightarrow>
          (let patch = release w;
               r = (release w)\<lparr>rel_Status := (rel_Status (release w))
                     \<lparr>st_ReleasePipelineRun := NamespacedName (pr_Namespace p) (pr_Name p),
                      st_ReleaseStrategy := NamespacedName (strat_Namespace s) (strat_Name s),
                      st_Target := pr_Namespace p\<rparr>\<rparr>
           in client_Status_Patch patch (w\<lparr>release := MarkRunning (clock w) r\<rparr>))
      | _ \<Rightarrow> (None, w))"

definition syncResources :: "World \<Rightarrow> err option \<times> World" where
  "syncResources w =
     (case getActiveReleasePlanAdmission w of
        (Inl e, w1) \<Rightarrow> (Some e, w1)
      | (Inr releasePlanAdmission, w1) \<Rightarrow>
          (case getSnapshot w1 of
             (Inl e, w2) \<Rightarrow> (Some e, w2)
           | (Inr snapshot, w2) \<Rightarrow> SyncSnapshot snapshot (rpa_Namespace releasePlanAdmission) w2))"

subsection \<open>The operations\<close>

definition EnsureFinalizersAreCalled :: "World \<Rightarrow> OperationResult \<times> World" where
  "EnsureFinalizersAreCalled w =
     (if rel_DeletionTimestamp (release w) = None then (ContinueProcessing, w)
      else if ContainsFinalizer (release w) finalizerName then
        (case finalizeRelease w of
           (Some e, w1) \<Rightarrow> (RequeueWithError e, w1)
         | (None, w1) \<Rightarrow>
             (let patch = release w1
              in case client_Patch patch (w1\<lparr>release := RemoveFinalizer (release w1) finalizerName\<rparr>) of
                   (Some e, w2) \<Rightarrow> (RequeueWithError e, w2)
                 | (None, w2) \<Rightarrow> (Requeue, w2)))
      else (Requeue, w))"

text \<open>The loop of \<^verbatim>\<open>EnsureFinalizerIsAdded\<close> that sets \<open>finalizerFound\<close>.\<close>

definition finalizerFound :: "Release \<Rightarrow> bool" where
  "finalizerFound r =
     foldl (\<lambda>found finalizer. if finalizer = finalizerName then True else found) False (rel_Finalizers r)"

definition EnsureFinalizerIsAdded :: "World \<Rightarrow> OperationResult \<times> World" where
  "EnsureFinalizerIsAdded w =
     (if \<not> finalizerFound (release w) then
        (let patch = release w
         in case client_Patch patch (w\<lparr>release := AddFinalizer (release w) finalizerName\<rparr>) of
              (e, w1) \<Rightarrow> (RequeueOnErrorOrContinue e, w1))
      else (ContinueProcessing, w))"

text \<open>
  The three lines that follow a failed validation in the source: copy the Release for
  the patch, mark it invalid with the error's message, patch the status, and stop unless
  the patch failed.
\<close>

definition markInvalid :: "ReleaseReason \<Rightarrow> err \<Rightarrow> World \<Rightarrow> OperationResult \<times> World" where
  "markInvalid reason e w =
     (let patch = release w
      in case client_Status_Patch patch (w\<lparr>release := MarkInvalid reason (Error e) (release w)\<rparr>) of
           (pe, w1) \<Rightarrow> (RequeueOnErrorOrStop pe, w1))"

definition EnsureReleasePlanAdmissionEnabled :: "World \<Rightarrow> OperationResult \<times> World" where
  "EnsureReleasePlanAdmissionEnabled w =
     (case getActiveReleasePlanAdmission w of
        (Inl e, w1) \<Rightarrow>
          if Contains (Error e) ''multiple ReleasePlanAdmissions found''
          then markInvalid ReleaseReasonValidationError e w1
          else if Contains (Error e) ''auto-release label set to false''
          then markInvalid ReleaseReasonTargetDisabledError e w1
          else (ContinueProcessing, w1)
      | (Inr releasePlanAdmission, w1) \<Rightarrow> (ContinueProcessing, w1))"

text \<open>
  The block of \<^verbatim>\<open>EnsureReleasePipelineRunExists\<close> under \<^verbatim>\<open>if pipelineRun == nil\<close>, with
  the registration that ends the operation.
\<close>

definition triggerReleasePipelineRun :: "World \<Rightarrow> OperationResult \<times> World" where
  "triggerReleasePipelineRun w =
     (case getActiveReleasePlanAdmission w of
        (Inl e, w1) \<Rightarrow> markInvalid ReleaseReasonReleasePlanValidationError e w1
      | (Inr releasePlanAdmission, w1) \<Rightarrow>
     (case getReleaseStrategy releasePlanAdmission w1 of
        (Inl e, w2) \<Rightarrow> markInvalid ReleaseReasonValidationError e w2
      | (Inr releaseStrategy, w2) \<Rightarrow>
     (case getEnterpriseContractPolicy releaseStrategy w2 of
        (Inl e, w3) \<Rightarrow> markInvalid ReleaseReasonValidationError e w3
      | (Inr enterpriseContractPolicy, w3) \<Rightarrow>
     (case getSnapshot w3 of
        (Inl e, w4) \<Rightarrow> markInvalid ReleaseReasonValidationError e w4
      | (Inr snapshot, w4) \<Rightarrow>
     (case createReleasePipelineRun releaseStrategy enterpriseContractPolicy snapshot w4 of
        (Inl e, w5) \<Rightarrow> (RequeueWithError e, w5)
      | (Inr pipelineRun, w5) \<Rightarrow>
     (case registerReleaseStatusData (Some pipelineRun) (Some releaseStrategy) w5 of
        (e, w6) \<Rightarrow> (RequeueOnErrorOrContinue e, w6)))))))"

definition EnsureReleasePipelineRunExists :: "World \<Rightarrow> OperationResult \<times> World" where
  "EnsureReleasePipelineRunExists w =
     (case getReleasePipelineRun w of
        (Inl e, w1) \<Rightarrow>
          if \<not> IsNotFound e then (RequeueWithError e, w1) else triggerReleasePipelineRun w1
      | (Inr None, w1) \<Rightarrow> triggerReleasePipelineRun w1
      | (Inr (Some pipelineRun), w1) \<Rightarrow>
          (case registerReleaseStatusData (Some pipelineRun) None w1 of
             (e, w2) \<Rightarrow> (RequeueOnErrorOrContinue e, w2)))"

definition EnsureReleasePipelineStatusIsTracked :: "World \<Rightarrow> OperationResult \<times> World" where
  "EnsureReleasePipelineStatusIsTracked w =
     (if \<not> HasStarted (release w) \<or> IsDone (release w) then (ContinueProcessing, w)
      else
        (case getReleasePipelineRun w of
           (Inl e, w1) \<Rightarrow> (RequeueWithError e, w1)
         | (Inr (Some pipelineRun), w1) \<Rightarrow>
             (case registerReleasePipelineRunStatus (Some pipelineRun) w1 of
                (e, w2) \<Rightarrow> (RequeueOnErrorOrContinue e, w2))
         | (Inr None, w1) \<Rightarrow> (ContinueProcessing, w1)))"

text \<open>
  The block of \<^verbatim>\<open>EnsureSnapshotEnvironmentBindingExists\<close> under \<^verbatim>\<open>if binding == nil\<close>.
\<close>

definition triggerSnapshotEnvironmentBinding ::
  "Environment \<Rightarrow> ReleasePlanAdmission \<Rightarrow> World \<Rightarrow> OperationResult \<times> World" where
  "triggerSnapshotEnvironmentBinding environment releasePlanAdmission w =
     (case syncResources w of
        (Some e, w1) \<Rightarrow> (RequeueWithError e, w1)
      | (None, w1) \<Rightarrow>
          (let patch = release w1
           in case createSnapshotEnvironmentBinding environment releasePlanAdmission w1 of
                (Inl e, w2) \<Rightarrow> (RequeueWithError e, w2)
              | (Inr binding, w2) \<Rightarrow>
                  (case client_Status_Patch patch
                          (w2\<lparr>release := (release w2)\<lparr>rel_Status := (rel_Status (release w2))
                                 \<lparr>st_SnapshotEnvironmentBinding :=
                                    NamespacedName (seb_Namespace binding) (seb_Name binding)\<rparr>\<rparr>\<rparr>) of
                     (e, w3) \<Rightarrow> (RequeueOnErrorOrContinue e, w3))))"

definition EnsureSnapshotEnvironmentBindingExists :: "World \<Rightarrow> OperationResult \<times> World" where
  "EnsureSnapshotEnvironmentBindingExists w =
     (if \<not> HasSucceeded (release w) \<or> HasBeenDeployed (release w) then (ContinueProcessing, w)
      else
        (case getActiveReleasePlanAdmission w of
           (Inl e, w1) \<Rightarrow> (RequeueWithError e, w1)
         | (Inr releasePlanAdmission, w1) \<Rightarrow>
             if rpa_Environment releasePlanAdmission = [] then (ContinueProcessing, w1)
             else
               (case getEnvironment releasePlanAdmission w1 of
                  (Inl e, w2) \<Rightarrow> (RequeueWithError e, w2)
                | (Inr environment, w2) \<Rightarrow>
                    (case getSnapshotEnvironmentBinding environment releasePlanAdmission w2 of
                       (Inl e, w3) \<Rightarrow>
                         if \<not> IsNotFound e then (RequeueWithError e, w3)
                         else triggerSnapshotEnvironmentBinding environment releasePlanAdmission w3
                     | (Inr None, w3) \<Rightarrow>
                         triggerSnapshotEnvironmentBinding environment releasePlanAdmission w3
                     | (Inr (Some binding), w3) \<Rightarrow> (ContinueProcessing, w3)))))"

definition EnsureSnapshotEnvironmentBindingIsTracked :: "World \<Rightarrow> OperationResult \<times> World" where
  "EnsureSnapshotEnvironmentBindingIsTracked w =
     (if \<not> HasSucceeded (release w) \<or> st_SnapshotEnvironmentBinding (rel_Status (release w)) = []
         \<or> HasBeenDeployed (release w)
      then (ContinueProcessing, w)
      else
        (case getSnapshotEnvironmentBindingFromReleaseStatus w of
           (Inl e, w1) \<Rightarrow> (RequeueWithError e, w1)
         | (Inr binding, w1) \<Rightarrow>
             (case registerGitOpsDeploymentStatus (Some binding) w1 of
                (e, w2) \<Rightarrow> (RequeueOnErrorOrContinue e, w2))))"

text \<open>
  Modelled from the spec: the controller and the handler of the reconciler package are
  not under src. The driver invokes an ordered chain of operations on the same Release;
  each operation returns continue, stop, requeue or requeue-with-error, and the chain
  short-circuits on the first result that is not continue. The chain is
  ensure-finalizer-called, ensure-finalizer-present, ensure-admission-enabled,
  ensure-pipeline-run-exists, ensure-pipeline-status-tracked, ensure-binding-exists,
  ensure-binding-tracked.
\<close>

fun ReconcileHandler :: "(World \<Rightarrow> OperationResult \<times> World) list \<Rightarrow> World \<Rightarrow> OperationResult \<times> World" where
  "ReconcileHandler [] w = (ContinueProcessing, w)"
| "ReconcileHandler (operation # operations) w =
     (case operation w of
        (Continue, w1) \<Rightarrow> ReconcileHandler operations w1
      | (r, w1) \<Rightarrow> (r, w1))"

definition Reconcile :: "World \<Rightarrow> OperationResult \<times> World" where
  "Reconcile w =
     ReconcileHandler
       [EnsureFinalizersAreCalled, EnsureFinalizerIsAdded, EnsureReleasePlanAdmissionEnabled,
        EnsureReleasePipelineRunExists, EnsureReleasePipelineStatusIsTracked,
        EnsureSnapshotEnvironmentBindingExists, EnsureSnapshotEnvironmentBindingIsTracked] w"

subsection \<open>An example cluster\<close>

text \<open>
  A Release of the application \<open>web\<close> in the namespace \<open>dev\<close>, with its plan towards the
  namespace \<open>managed\<close>, where one admission accepts the application, names a strategy and
  the environment \<open>production\<close>.
\<close>

definition example_status :: ReleaseStatus where
  "example_status =
     \<lparr> st_ReleasePipelineRun = [], st_ReleaseStrategy = [], st_Target = [],
       st_SnapshotEnvironmentBinding = [], st_StartTime = None, st_CompletionTime = None,
       st_Released = None, st_Deployed = None \<rparr>"

definition example_release :: Release where
  "example_release =
     \<lparr> rel_Name = ''release-1'', rel_Namespace = ''dev'', rel_DeletionTimestamp = None,
       rel_Finalizers = [finalizerName], rel_ReleasePlan = ''plan'', rel_Snapshot = ''snapshot-1'',
       rel_Status = example_status \<rparr>"

definition example_plan :: ReleasePlan where
  "example_plan =
     \<lparr> plan_Name = ''plan'', plan_Namespace = ''dev'', plan_Application = ''web'',
       plan_Target = ''managed'' \<rparr>"

definition example_admission :: ReleasePlanAdmission where
  "example_admission =
     \<lparr> rpa_Name = ''admission'', rpa_Namespace = ''managed'', rpa_Labels = [],
       rpa_Application = ''web'', rpa_Origin = ''dev'', rpa_Environment = ''production'',
       rpa_ReleaseStrategy = ''strategy'' \<rparr>"

definition example_pipelineRun :: PipelineRun where
  "example_pipelineRun =
     \<lparr> pr_Name = ''release-pipelinerun-0'', pr_GenerateName = ''release-pipelinerun-'',
       pr_Namespace = ''managed'',
       pr_Labels = [(ReleaseNameLabel, ''release-1''), (ReleaseNamespaceLabel, ''dev'')],
       pr_Owner = (''dev'', ''release-1''), pr_Strategy = ''strategy'', pr_Policy = ''policy'',
       pr_Snapshot = ''snapshot-1'', pr_Succeeded = None \<rparr>"

definition example_binding :: SnapshotEnvironmentBinding where
  "example_binding =
     \<lparr> seb_Name = ''production-0'', seb_GenerateName = ''production-'', seb_Namespace = ''managed'',
       seb_Application = ''web'', seb_Environment = ''production'', seb_Snapshot = ''snapshot-1'',
       seb_Components = [''frontend''], seb_ControllerOwner = Some (''managed'', ''web''),
       seb_OwnerAnnotation = Some (''dev'', ''release-1''), seb_ComponentDeploymentConditions = [] \<rparr>"

definition example_cluster :: Cluster where
  "example_cluster =
     \<lparr> stored = Some example_release,
       releasePlans = [example_plan],
       releasePlanAdmissions = [example_admission],
       releaseStrategies =
         [\<lparr> strat_Name = ''strategy'', strat_Namespace = ''managed'', strat_Policy = ''policy'' \<rparr>],
       policies = [\<lparr> pol_Name = ''policy'', pol_Namespace = ''managed'' \<rparr>],
       snapshots =
         [\<lparr> snap_Name = ''snapshot-1'', snap_Namespace = ''dev'', snap_Application = ''web'' \<rparr>],
       applications = [\<lparr> app_Name = ''web'', app_Namespace = ''managed'' \<rparr>],
       components =
         [\<lparr> comp_Name = ''frontend'', comp_Namespace = ''managed'', comp_Application = ''web'' \<rparr>],
       environments = [\<lparr> env_Name = ''production'', env_Namespace = ''managed'' \<rparr>],
       pipelineRuns = [],
       bindings = [],
       serial = 0 \<rparr>"

definition example_world :: World where
  "example_world =
     \<lparr> release = example_release, cluster = example_cluster, faults = [], calls = [], clock = 100 \<rparr>"

text \<open>
  The example Release once it has succeeded, with a given binding reference in its status.
\<close>

definition tracked_world :: "string \<Rightarrow> World" where
  "tracked_world reference =
     example_world\<lparr>release := MarkSucceeded
        (example_release\<lparr>rel_Status := example_status\<lparr>st_SnapshotEnvironmentBinding := reference\<rparr>\<rparr>)\<rparr>"

text \<open>The example Release once its execution is registered, with no PipelineRun left.\<close>

definition running_world :: World where
  "running_world = example_world\<lparr>release := MarkRunning 90 example_release\<rparr>"

text \<open>
  The example Release with a given deletion timestamp and given finalizers, in the cluster
  as in memory, and given PipelineRuns.
\<close>

definition finalizing_world :: "Time option \<Rightarrow> string list \<Rightarrow> PipelineRun list \<Rightarrow> World" where
  "finalizing_world deletion finalizers runs =
     \<lparr> release = example_release\<lparr>rel_DeletionTimestamp := deletion, rel_Finalizers := finalizers\<rparr>,
       cluster = example_cluster
         \<lparr>stored := Some (example_release\<lparr>rel_DeletionTimestamp := deletion, rel_Finalizers := finalizers\<rparr>),
          pipelineRuns := runs\<rparr>,
       faults = [], calls = [], clock = 100 \<rparr>"

definition deleting_world :: "string list \<Rightarrow> PipelineRun list \<Rightarrow> World" where
  "deleting_world finalizers runs = finalizing_world (Some 95) finalizers runs"

subsection \<open>Notions used to state the properties\<close>

text \<open>
  \<open>served n w\<close>: the next \<open>n\<close> client calls of the world are served (none of them
  fails). \<open>after cs w\<close>: the world once the calls \<open>cs\<close> have been issued and answered,
  nothing else changed.
\<close>

definition served :: "nat \<Rightarrow> World \<Rightarrow> bool" where
  "served n w = (\<forall>f \<in> set (take n (faults w)). f = None)"

definition after :: "Call list \<Rightarrow> World \<Rightarrow> World" where
  "after cs w = w\<lparr>faults := drop (length cs) (faults w), calls := calls w @ cs\<rparr>"

text \<open>
  What the cluster holds for the Release: its ReleasePlan, and, for a plan, the
  admissions that the List of \<^verbatim>\<open>getActiveReleasePlanAdmission\<close> returns (those of the
  target namespace whose origin is the plan's namespace) and that declare the plan's
  application, in the order of the cluster. \<open>resolving w\<close> are the two calls of a
  resolution.
\<close>

definition releasePlanOf :: "World \<Rightarrow> ReleasePlan option" where
  "releasePlanOf w =
     find (\<lambda>x. plan_Namespace x = rel_Namespace (release w) \<and> plan_Name x = rel_ReleasePlan (release w))
       (releasePlans (cluster w))"

definition candidates :: "ReleasePlan \<Rightarrow> World \<Rightarrow> ReleasePlanAdmission list" where
  "candidates releasePlan w =
     filter (\<lambda>x. rpa_Application x = plan_Application releasePlan)
       (filter (\<lambda>x. rpa_Namespace x = plan_Target releasePlan \<and> rpa_Origin x = plan_Namespace releasePlan)
          (releasePlanAdmissions (cluster w)))"

definition resolving :: "World \<Rightarrow> Call list" where
  "resolving w =
     [CallGet KReleasePlan (rel_Namespace (release w)) (rel_ReleasePlan (release w)),
      CallList KReleasePlanAdmission]"

text \<open>\<open>adjacent a b s\<close>: somewhere in \<open>s\<close> the element \<open>a\<close> is directly followed by \<open>b\<close>.\<close>

fun adjacent :: "'a \<Rightarrow> 'a \<Rightarrow> 'a list \<Rightarrow> bool" where
  "adjacent a b (x # y # zs) = (x = a \<and> y = b \<or> adjacent a b (y # zs))"
| "adjacent a b zs = False"

text \<open>
  \<open>reads w w'\<close>: from \<open>w\<close> to \<open>w'\<close> only Get and List calls were issued; the Release in
  memory, the cluster and the clock are the same.
\<close>

fun is_read :: "Call \<Rightarrow> bool" where
  "is_read (CallGet k namespace name) = True"
| "is_read (CallList k) = True"
| "is_read c = False"

definition reads :: "World \<Rightarrow> World \<Rightarrow> bool" where
  "reads w w' \<longleftrightarrow>
     release w' = release w \<and> cluster w' = cluster w \<and> clock w' = clock w
     \<and> (\<exists>n. faults w' = drop n (faults w))
     \<and> (\<exists>cs. calls w' = calls w @ cs \<and> (\<forall>c \<in> set cs. is_read c))"

text \<open>
  The example world with given admissions in the cluster; an admission that opts out,
  and a second admission of the same application.
\<close>

definition admissions_world :: "ReleasePlanAdmission list \<Rightarrow> World" where
  "admissions_world admissions =
     example_world\<lparr>cluster := example_cluster\<lparr>releasePlanAdmissions := admissions\<rparr>\<rparr>"

definition opted_out_admission :: ReleasePlanAdmission where
  "opted_out_admission =
     example_admission\<lparr>rpa_Name := ''admission-off'', rpa_Labels := [(AutoReleaseLabel, ''false'')]\<rparr>"

definition second_admission :: ReleasePlanAdmission where
  "second_admission = example_admission\<lparr>rpa_Name := ''admission-2'', rpa_Labels := [(AutoReleaseLabel, ''true'')]\<rparr>"


text \<open>
  \<open>transient w\<close>: none of the failures that the world holds is a not-found; the API
  answers not-found for an object that is missing, and a List of a kind it serves never
  does. \<open>labelled r p\<close>: the PipelineRun carries the two labels of the Release.
  \<open>bound environment admission b\<close>: the binding is the one that the lookup of
  \<^verbatim>\<open>getSnapshotEnvironmentBinding\<close> accepts for the environment and the admission.
\<close>

definition transient :: "World \<Rightarrow> bool" where
  "transient w = (\<forall>e. Some e \<in> set (faults w) \<longrightarrow> \<not> IsNotFound e)"

definition labelled :: "Release \<Rightarrow> PipelineRun \<Rightarrow> bool" where
  "labelled r p =
     MatchingLabels [(ReleaseNameLabel, rel_Name r), (ReleaseNamespaceLabel, rel_Namespace r)] (pr_Labels p)"

definition bound :: "Environment \<Rightarrow> ReleasePlanAdmission \<Rightarrow> SnapshotEnvironmentBinding \<Rightarrow> bool" where
  "bound environment releasePlanAdmission b \<longleftrightarrow>
     seb_Namespace b = env_Namespace environment \<and> seb_Environment b = env_Name environment
     \<and> seb_Application b = rpa_Application releasePlanAdmission"

text \<open>
  What the cluster holds for the Release, continued: the one admission that a served
  resolution returns, the environment that an admission declares, and the snapshot that
  the Release names.
\<close>

definition activeOf :: "World \<Rightarrow> ReleasePlanAdmission option" where
  "activeOf w =
     (case releasePlanOf w of
        None \<Rightarrow> None
      | Some releasePlan \<Rightarrow>
          (case candidates releasePlan w of
             [a] \<Rightarrow> if map_of (rpa_Labels a) AutoReleaseLabel = Some ''false'' then None else Some a
           | _ \<Rightarrow> None))"

definition environmentOf :: "ReleasePlanAdmission \<Rightarrow> World \<Rightarrow> Environment option" where
  "environmentOf a w =
     find (\<lambda>x. env_Namespace x = rpa_Namespace a \<and> env_Name x = rpa_Environment a)
       (environments (cluster w))"

definition snapshotOf :: "World \<Rightarrow> Snapshot option" where
  "snapshotOf w =
     find (\<lambda>x. snap_Namespace x = rel_Namespace (release w) \<and> snap_Name x = rel_Snapshot (release w))
       (snapshots (cluster w))"

text \<open>
  \<open>same_spec r r'\<close>: the two Releases have the same name, namespace, plan and snapshot.
  \<open>consistent w\<close>: the cluster's copy of the Release, if there is one, has the spec of the
  object in memory. \<open>static c\<close>: the objects of the cluster that the adapter only reads.
  \<open>updates w w'\<close>: the step from \<open>w\<close> to \<open>w'\<close> keeps the identity of the Release and the
  objects that are only read, consumes failures in order, and keeps a consistent world
  consistent with the same spec. \<open>quiet\<close>: moreover no PipelineRun, binding or snapshot
  is added or removed. \<open>launched\<close>: exactly one PipelineRun, labelled for the Release, is
  added.
\<close>

definition same_spec :: "Release \<Rightarrow> Release \<Rightarrow> bool" where
  "same_spec r r' \<longleftrightarrow>
     rel_Name r' = rel_Name r \<and> rel_Namespace r' = rel_Namespace r
     \<and> rel_ReleasePlan r' = rel_ReleasePlan r \<and> rel_Snapshot r' = rel_Snapshot r"

definition consistent :: "World \<Rightarrow> bool" where
  "consistent w = (\<forall>s. stored_release w = Some s \<longrightarrow> same_spec (release w) s)"

definition static ::
  "Cluster \<Rightarrow> ReleasePlan list \<times> ReleasePlanAdmission list \<times> ReleaseStrategy list
     \<times> EnterpriseContractPolicy list \<times> Application list \<times> Component list \<times> Environment list" where
  "static c =
     (releasePlans c, releasePlanAdmissions c, releaseStrategies c, policies c, applications c,
      components c, environments c)"

definition updates :: "World \<Rightarrow> World \<Rightarrow> bool" where
  "updates w w' \<longleftrightarrow>
     rel_Name (release w') = rel_Name (release w) \<and> rel_Namespace (release w') = rel_Namespace (release w)
     \<and> static (cluster w') = static (cluster w)
     \<and> (\<exists>n. faults w' = drop n (faults w))
     \<and> (consistent w \<longrightarrow> consistent w' \<and> same_spec (release w) (release w'))"

definition quiet :: "World \<Rightarrow> World \<Rightarrow> bool" where
  "quiet w w' \<longleftrightarrow>
     updates w w' \<and> pipelineRuns (cluster w') = pipelineRuns (cluster w)
     \<and> bindings (cluster w') = bindings (cluster w) \<and> snapshots (cluster w') = snapshots (cluster w)"

definition launched :: "World \<Rightarrow> World \<Rightarrow> bool" where
  "launched w w' \<longleftrightarrow>
     updates w w' \<and> bindings (cluster w') = bindings (cluster w)
     \<and> snapshots (cluster w') = snapshots (cluster w)
     \<and> (\<exists>p. pipelineRuns (cluster w') = pipelineRuns (cluster w) @ [p] \<and> labelled (release w) p)"

text \<open>
  \<open>snapshot_of_plan w\<close>: the snapshot that the Release names belongs to the application
  of the Release's plan. \<open>built environment w b\<close>: the binding lies in the environment's
  namespace, names the environment, and has the application of the Release's snapshot.
\<close>

definition snapshot_of_plan :: "World \<Rightarrow> bool" where
  "snapshot_of_plan w =
     (\<forall>s releasePlan. snapshotOf w = Some s \<and> releasePlanOf w = Some releasePlan
        \<longrightarrow> snap_Application s = plan_Application releasePlan)"

definition built :: "Environment \<Rightarrow> World \<Rightarrow> SnapshotEnvironmentBinding \<Rightarrow> bool" where
  "built environment w b \<longleftrightarrow>
     seb_Namespace b = env_Namespace environment \<and> seb_Environment b = env_Name environment
     \<and> (\<exists>s. snapshotOf w = Some s \<and> seb_Application b = snap_Application s)"

text \<open>
  The example Release once it has succeeded, in the cluster as in memory, with given
  bindings; and the example world with the PipelineRun of the Release in the cluster.
\<close>

definition succeeded_world :: "SnapshotEnvironmentBinding list \<Rightarrow> World" where
  "succeeded_world bs =
     example_world\<lparr>release := MarkSucceeded example_release,
                   cluster := example_cluster\<lparr>stored := Some (MarkSucceeded example_release),
                                             bindings := bs\<rparr>\<rparr>"

definition triggered_world :: World where
  "triggered_world = example_world\<lparr>cluster := example_cluster\<lparr>pipelineRuns := [example_pipelineRun]\<rparr>\<rparr>"

text \<open>
  The example world with a plan whose target holds the text by which the gating
  operation recognizes the multiple-admissions failure, and with no admission.
\<close>

definition blank_target_plan :: ReleasePlan where
  "blank_target_plan = example_plan\<lparr>plan_Target := ''multiple ReleasePlanAdmissions found''\<rparr>"

definition blank_target_world :: World where
  "blank_target_world =
     example_world\<lparr>cluster := example_cluster\<lparr>releasePlans := [blank_target_plan],
                                             releasePlanAdmissions := []\<rparr>\<rparr>"

text \<open>
  Three worlds in which a creation is repeated. In the first the snapshot of the
  succeeded Release belongs to another application than its plan. In the second the
  PipelineRun of the Release is in the cluster and the next client call, the List that
  looks for it, is answered with a not-found error. In the third the cluster's copy of
  the succeeded Release names another plan than the Release in memory, a plan of
  another application that has an admission of its own.
\<close>

definition foreign_snapshot_world :: World where
  "foreign_snapshot_world =
     (succeeded_world [])\<lparr>cluster := (cluster (succeeded_world []))
        \<lparr>snapshots := [\<lparr> snap_Name = ''snapshot-1'', snap_Namespace = ''dev'', snap_Application = ''api'' \<rparr>]\<rparr>\<rparr>"

definition unserved_list_world :: World where
  "unserved_list_world =
     triggered_world\<lparr>faults := [Some (Err True ''the server could not find the requested resource'')]\<rparr>"

definition stale_world :: World where
  "stale_world =
     (succeeded_world [])\<lparr>cluster := (cluster (succeeded_world []))
        \<lparr>stored := Some (MarkSucceeded (example_release\<lparr>rel_ReleasePlan := ''plan-2''\<rparr>)),
         releasePlans := [example_plan, example_plan\<lparr>plan_Name := ''plan-2'', plan_Application := ''api''\<rparr>],
         releasePlanAdmissions :=
           [example_admission, example_admission\<lparr>rpa_Name := ''admission-api'', rpa_Application := ''api''\<rparr>],
         applications := [\<lparr> app_Name = ''web'', app_Namespace = ''managed'' \<rparr>,
                          \<lparr> app_Name = ''api'', app_Namespace = ''managed'' \<rparr>]\<rparr>\<rparr>"

section \<open>Properties\<close>

subsection \<open>Splitting and searching strings\<close>

lemma Split_nonempty: "Split s sep \<noteq> []"
  by (induction s) (auto split: list.splits)

lemma length_Split: "length (Split s sep) = Suc (count_list s sep)"
  by (induction s) (auto split: list.splits simp: Split_nonempty)

lemma Split_no_separator: "sep \<notin> set s \<Longrightarrow> Split s sep = [s]"
  by (induction s) auto

lemma Split_append: "sep \<notin> set a \<Longrightarrow> Split (a @ sep # b) sep = a # Split b sep"
  by (induction a) auto

lemma Split_NamespacedName:
  "Separator \<notin> set namespace \<Longrightarrow> Separator \<notin> set name
   \<Longrightarrow> Split (NamespacedName namespace name) Separator = [namespace, name]"
  by (simp add: NamespacedName_def Split_append Split_no_separator)

lemma Contains_sublist: "Contains s substr \<longleftrightarrow> sublist substr s"
  by (induction s) (auto simp: sublist_Cons_right)

lemma Contains_middle: "Contains (a @ m @ b) m"
  by (simp add: Contains_sublist)

lemma invalidNamespacedName_descriptive:
  "\<not> IsNotFound (invalidNamespacedName s)"
  "Contains (Error (invalidNamespacedName s)) ''invalid namespaced name''"
proof -
  show "\<not> IsNotFound (invalidNamespacedName s)"
    by (simp add: invalidNamespacedName_def Errorf_def)
  have "Error (invalidNamespacedName s)
          = ''found '' @ ''invalid namespaced name'' @ ('' of SnapshotEnvironmentBinding in release status: ''
             @ [CHR 0x27] @ s @ [CHR 0x27])"
    by (simp add: invalidNamespacedName_def Errorf_def)
  then show "Contains (Error (invalidNamespacedName s)) ''invalid namespaced name''"
    using Contains_middle by metis
qed

subsection \<open>The binding reference in the status\<close>

text \<open>
  C8. Malformed persisted binding reference. When the tracking of the binding runs (the
  Release has succeeded, a binding reference is recorded and the deployment is not
  finished) and the recorded reference does not split into exactly two segments, the
  operation ends the pass at once with requeue-with-error, carrying the error "found
  invalid namespaced name ...", which is not a not-found; nothing is fetched, patched or
  tried again within the pass (the world is left as it was).
\<close>

theorem malformed_binding_reference:
  assumes "HasSucceeded (release w)"
    and "st_SnapshotEnvironmentBinding (rel_Status (release w)) \<noteq> []"
    and "\<not> HasBeenDeployed (release w)"
    and "length (Split (st_SnapshotEnvironmentBinding (rel_Status (release w))) Separator) \<noteq> 2"
  shows "EnsureSnapshotEnvironmentBindingIsTracked w
           = (RequeueWithError (invalidNamespacedName (st_SnapshotEnvironmentBinding (rel_Status (release w)))), w)
         \<and> \<not> IsNotFound (invalidNamespacedName (st_SnapshotEnvironmentBinding (rel_Status (release w))))
         \<and> Contains (Error (invalidNamespacedName (st_SnapshotEnvironmentBinding (rel_Status (release w)))))
              ''invalid namespaced name''"
  using assms
  by (simp add: EnsureSnapshotEnvironmentBindingIsTracked_def
        getSnapshotEnvironmentBindingFromReleaseStatus_def invalidNamespacedName_descriptive)

theorem malformed_binding_reference_witness:
  "EnsureSnapshotEnvironmentBindingIsTracked (tracked_world ''production-0'')
     = (RequeueError (Err False
          (''found invalid namespaced name of SnapshotEnvironmentBinding in release status: ''
           @ [CHR 0x27] @ ''production-0'' @ [CHR 0x27])),
        tracked_world ''production-0'')"
  using malformed_binding_reference [of "tracked_world ''production-0''"]
  by (simp add: tracked_world_def example_world_def example_release_def example_status_def
        MarkSucceeded_def HasSucceeded_def HasBeenDeployed_def Separator_def
        RequeueWithError_def invalidNamespacedName_def Errorf_def)

subsection \<open>Client calls\<close>

lemmas example_defs =
  deleting_world_def finalizing_world_def example_world_def example_cluster_def example_release_def example_status_def
  example_plan_def example_admission_def example_pipelineRun_def example_binding_def

lemmas operation_defs =
  EnsureFinalizersAreCalled_def finalizeRelease_def getReleasePipelineRun_def client_List_def call_def
  client_Delete_PipelineRun_def client_Patch_def stored_release_def merge_def
  ContainsFinalizer_def RemoveFinalizer_def MatchingLabels_def finalizerName_def
  ReleaseNameLabel_def ReleaseNamespaceLabel_def Requeue_def RequeueWithError_def
  ContinueProcessing_def NewNotFound_def KindName_def Let_def

lemma call_result:
  "call c w = (f, w') \<Longrightarrow>
     release w' = release w \<and> cluster w' = cluster w \<and> clock w' = clock w
     \<and> calls w' = calls w @ [c] \<and> faults w' = tl (faults w)
     \<and> f = (case faults w of [] \<Rightarrow> None | x # xs \<Rightarrow> x)"
  by (auto simp: call_def split: list.splits)

lemma client_Get_frame:
  "client_Get k objects namespace_of name_of namespace name w = (r, w') \<Longrightarrow>
     release w' = release w \<and> cluster w' = cluster w \<and> clock w' = clock w
     \<and> calls w' = calls w @ [CallGet k namespace name] \<and> faults w' = tl (faults w)"
  by (auto simp: client_Get_def split: prod.splits option.splits dest!: call_result)

lemma client_List_frame:
  "client_List k objects selector limit w = (r, w') \<Longrightarrow>
     release w' = release w \<and> cluster w' = cluster w \<and> clock w' = clock w
     \<and> calls w' = calls w @ [CallList k] \<and> faults w' = tl (faults w)"
  by (auto simp: client_List_def Let_def split: prod.splits option.splits dest!: call_result)

lemma getReleasePipelineRun_frame:
  "getReleasePipelineRun w = (r, w') \<Longrightarrow>
     release w' = release w \<and> cluster w' = cluster w \<and> clock w' = clock w
     \<and> calls w' = calls w @ [CallList KPipelineRun] \<and> faults w' = tl (faults w)"
  by (auto simp: getReleasePipelineRun_def split: prod.splits sum.splits list.splits
      dest!: client_List_frame)



lemma client_Patch_failed:
  "client_Patch original w = (Some e, w') \<Longrightarrow>
     release w' = release w \<and> cluster w' = cluster w \<and> calls w' = calls w @ [CallPatch]"
  by (auto simp: client_Patch_def Let_def split: prod.splits option.splits dest!: call_result)

lemma client_Patch_served:
  "client_Patch original w = (None, w') \<Longrightarrow>
     \<exists>s. stored_release w = Some s
       \<and> release w' = s\<lparr>rel_Finalizers := merge (rel_Finalizers original) (rel_Finalizers (release w)) (rel_Finalizers s)\<rparr>
       \<and> stored (cluster w') = Some (release w')
       \<and> pipelineRuns (cluster w') = pipelineRuns (cluster w)
       \<and> bindings (cluster w') = bindings (cluster w)
       \<and> calls w' = calls w @ [CallPatch]"
  by (auto simp: client_Patch_def Let_def stored_release_def split: prod.splits option.splits if_splits dest!: call_result)

lemma client_Delete_PipelineRun_result:
  "client_Delete_PipelineRun p w = (r, w') \<Longrightarrow>
     release w' = release w \<and> stored (cluster w') = stored (cluster w)
     \<and> calls w' = calls w @ [CallDelete KPipelineRun (pr_Namespace p) (pr_Name p)]
     \<and> (r = None \<longrightarrow> p \<notin> set (pipelineRuns (cluster w')))"
  by (auto simp: client_Delete_PipelineRun_def Let_def split: prod.splits option.splits if_splits dest!: call_result)

subsection \<open>Tracking the execution\<close>

lemma getReleasePipelineRun_None:
  assumes "case faults w of [] \<Rightarrow> True | f # fs \<Rightarrow> f = None"
    and "\<forall>p \<in> set (pipelineRuns (cluster w)).
           \<not> MatchingLabels [(ReleaseNameLabel, rel_Name (release w)),
                             (ReleaseNamespaceLabel, rel_Namespace (release w))] (pr_Labels p)"
  shows "getReleasePipelineRun w
           = (Inr None, w\<lparr>faults := tl (faults w), calls := calls w @ [CallList KPipelineRun]\<rparr>)"
proof -
  have "filter (\<lambda>x. MatchingLabels [(ReleaseNameLabel, rel_Name (release w)),
                             (ReleaseNamespaceLabel, rel_Namespace (release w))] (pr_Labels x))
          (pipelineRuns (cluster w)) = []"
    using assms(2) by (simp add: filter_empty_conv)
  then show ?thesis
    using assms(1)
    by (auto simp: getReleasePipelineRun_def client_List_def call_def split: list.splits)
qed

text \<open>
  C10. For a Release that has started and is not done, when the List of its PipelineRun is
  served and no PipelineRun of the cluster carries the two labels of the Release, the
  lookup returns nil without an error and the tracking operation returns continue; the
  only thing that happened is the List call: the Release in memory and the cluster (so
  also the stored status: no failure mark, no completion time) are as before.
\<close>

theorem vanished_execution_not_tracked:
  assumes "HasStarted (release w)" and "\<not> IsDone (release w)"
    and "case faults w of [] \<Rightarrow> True | f # fs \<Rightarrow> f = None"
    and "\<forall>p \<in> set (pipelineRuns (cluster w)).
           \<not> MatchingLabels [(ReleaseNameLabel, rel_Name (release w)),
                             (ReleaseNamespaceLabel, rel_Namespace (release w))] (pr_Labels p)"
  shows "getReleasePipelineRun w
           = (Inr None, w\<lparr>faults := tl (faults w), calls := calls w @ [CallList KPipelineRun]\<rparr>)
         \<and> EnsureReleasePipelineStatusIsTracked w
           = (ContinueProcessing, w\<lparr>faults := tl (faults w), calls := calls w @ [CallList KPipelineRun]\<rparr>)"
  using assms(1,2) getReleasePipelineRun_None [OF assms(3,4)]
  by (simp add: EnsureReleasePipelineStatusIsTracked_def)

theorem vanished_execution_not_tracked_witness:
  "EnsureReleasePipelineStatusIsTracked running_world
     = (Continue, running_world\<lparr>calls := [CallList KPipelineRun]\<rparr>)"
  using vanished_execution_not_tracked [of running_world]
  by (simp add: running_world_def example_world_def example_cluster_def example_release_def
      MarkRunning_def HasStarted_def IsDone_def ContinueProcessing_def)

subsection \<open>Finalizers\<close>

lemma finalizeRelease_cases:
  assumes "finalizeRelease w = (f, w2)"
  obtains
    (lookup_failed) e where "getReleasePipelineRun w = (Inl e, w2)" "f = Some e"
  | (none) "getReleasePipelineRun w = (Inr None, w2)" "f = None"
  | (delete_failed) p w1 e where "getReleasePipelineRun w = (Inr (Some p), w1)"
      "client_Delete_PipelineRun p w1 = (Some e, w2)" "\<not> IsNotFound e" "f = Some e"
  | (gone) p w1 e where "getReleasePipelineRun w = (Inr (Some p), w1)"
      "client_Delete_PipelineRun p w1 = (Some e, w2)" "IsNotFound e" "f = None"
  | (deleted) p w1 where "getReleasePipelineRun w = (Inr (Some p), w1)"
      "client_Delete_PipelineRun p w1 = (None, w2)" "f = None"
  using assms
  by (auto simp: finalizeRelease_def split: prod.splits sum.splits option.splits if_splits)

lemma finalizeRelease_frame:
  assumes "finalizeRelease w = (f, w2)"
  shows "release w2 = release w \<and> stored (cluster w2) = stored (cluster w)
         \<and> bindings (cluster w2) = bindings (cluster w)"
  using assms
  by (auto simp: finalizeRelease_def client_Delete_PipelineRun_def Let_def
      split: prod.splits sum.splits option.splits if_splits
      dest!: getReleasePipelineRun_frame call_result)

lemma finalizeRelease_calls:
  assumes "finalizeRelease w = (f, w2)"
  shows "(\<forall>e w1. getReleasePipelineRun w = (Inl e, w1) \<longrightarrow> calls w2 = calls w @ [CallList KPipelineRun])
       \<and> (\<forall>w1. getReleasePipelineRun w = (Inr None, w1) \<longrightarrow> calls w2 = calls w @ [CallList KPipelineRun])
       \<and> (\<forall>p w1. getReleasePipelineRun w = (Inr (Some p), w1) \<longrightarrow>
             calls w2 = calls w @ [CallList KPipelineRun, CallDelete KPipelineRun (pr_Namespace p) (pr_Name p)])"
  using assms
  by (auto simp: finalizeRelease_def 
      split: prod.splits sum.splits option.splits if_splits
      dest!: getReleasePipelineRun_frame client_Delete_PipelineRun_result)


lemma client_Patch_calls:
  "client_Patch original w = (f, w') \<Longrightarrow>
     calls w' = calls w @ [CallPatch] \<and> pipelineRuns (cluster w') = pipelineRuns (cluster w)"
  using client_Patch_failed [of original w _ w'] client_Patch_served [of original w w']
  by (cases f) auto

lemma removal_patch:
  assumes "client_Patch (release v) (v\<lparr>release := RemoveFinalizer (release v) finalizerName\<rparr>) = (None, w')"
    and "finalizerName \<in> set (rel_Finalizers (release v))"
  shows "\<exists>s. stored (cluster w') = Some s \<and> finalizerName \<notin> set (rel_Finalizers s)"
proof -
  have "filter (\<lambda>f. f \<noteq> finalizerName) (rel_Finalizers (release v)) \<noteq> rel_Finalizers (release v)"
    using assms(2) by (metis (mono_tags, lifting) filter_id_conv)
  then show ?thesis
    using client_Patch_served [OF assms(1)]
    by (auto simp: RemoveFinalizer_def merge_def)
qed

lemma served_mono: "served (Suc n) w \<Longrightarrow> served n w"
  using set_take_subset_set_take [of n "Suc n" "faults w"] by (auto simp: served_def)

lemma served_tl: "served (Suc n) w \<Longrightarrow> faults w' = tl (faults w) \<Longrightarrow> served n w'"
  by (cases "faults w") (auto simp: served_def)

lemma served_call_None: "served (Suc n) w \<Longrightarrow> call c w = (f, w') \<Longrightarrow> f = None \<and> served n w'"
  using call_result [of c w f w'] served_tl [of n w w']
  by (cases "faults w") (auto simp: served_def)

lemma served_release [simp]: "served n (w\<lparr>release := x\<rparr>) = served n w"
  by (simp add: served_def)

lemma getReleasePipelineRun_served:
  assumes "served (Suc n) w" and "getReleasePipelineRun w = (x, w1)"
  shows "(\<exists>y. x = Inr y) \<and> served n w1"
proof -
  have "served n w1"
    using assms served_tl getReleasePipelineRun_frame by blast
  moreover have "\<exists>y. x = Inr y"
    using assms
    by (auto simp: getReleasePipelineRun_def client_List_def Let_def
        split: prod.splits option.splits list.splits dest: served_call_None)
  ultimately show ?thesis by simp
qed

lemma client_Delete_PipelineRun_served:
  assumes "served (Suc n) w" and "client_Delete_PipelineRun p w = (r, w')"
  shows "(r = None \<or> (\<exists>e. r = Some e \<and> IsNotFound e)) \<and> p \<notin> set (pipelineRuns (cluster w'))
         \<and> served n w'"
proof -
  obtain f w1 where c: "call (CallDelete KPipelineRun (pr_Namespace p) (pr_Name p)) w = (f, w1)"
    by (cases "call (CallDelete KPipelineRun (pr_Namespace p) (pr_Name p)) w")
  have f: "f = None" and s: "served n w1"
    using served_call_None [OF assms(1) c] by simp_all
  show ?thesis
  proof (cases "\<exists>x \<in> set (pipelineRuns (cluster w1)). pr_Namespace x = pr_Namespace p \<and> pr_Name x = pr_Name p")
    case True
    then have "r = None"
      and "w' = w1\<lparr>cluster := (cluster w1)\<lparr>pipelineRuns :=
              filter (\<lambda>x. \<not> (pr_Namespace x = pr_Namespace p \<and> pr_Name x = pr_Name p))
                (pipelineRuns (cluster w1))\<rparr>\<rparr>"
      using assms(2) c f by (simp_all add: client_Delete_PipelineRun_def Let_def)
    then show ?thesis using s by (simp add: served_def)
  next
    case False
    then have "r = Some (NewNotFound KPipelineRun (pr_Name p))" and "w' = w1"
      using assms(2) c f by (auto simp: client_Delete_PipelineRun_def Let_def split: if_splits)
    then show ?thesis using s False by (auto simp: NewNotFound_def)
  qed
qed

lemma finalizeRelease_served:
  assumes "served (Suc (Suc n)) w" and "finalizeRelease w = (f, v)"
  shows "f = None \<and> served n v
         \<and> (\<forall>p w1. getReleasePipelineRun w = (Inr (Some p), w1) \<longrightarrow> p \<notin> set (pipelineRuns (cluster v)))"
  using assms(2)
proof (cases rule: finalizeRelease_cases)
  case (lookup_failed e)
  then show ?thesis
    using getReleasePipelineRun_served [OF assms(1)] by blast
next
  case none
  then show ?thesis
    using getReleasePipelineRun_served [OF assms(1) none(1)] served_mono by simp
next
  case (delete_failed p w1 e)
  then show ?thesis
    using getReleasePipelineRun_served [OF assms(1) delete_failed(1)]
      client_Delete_PipelineRun_served [of n w1 p "Some e" v] by simp
next
  case (gone p w1 e)
  then show ?thesis
    using getReleasePipelineRun_served [OF assms(1) gone(1)]
      client_Delete_PipelineRun_served [of n w1 p "Some e" v] by simp
next
  case (deleted p w1)
  then show ?thesis
    using getReleasePipelineRun_served [OF assms(1) deleted(1)]
      client_Delete_PipelineRun_served [of n w1 p None v] by simp
qed

lemma client_Patch_served_call:
  assumes "served (Suc n) w" and "stored_release w \<noteq> None" and "client_Patch original w = (g, u)"
  shows "g = None"
proof -
  obtain f w1 where c: "call CallPatch w = (f, w1)"
    by (cases "call CallPatch w")
  have "f = None"
    using served_call_None [OF assms(1) c] by simp
  moreover have "release w1 = release w" "cluster w1 = cluster w"
    using call_result [OF c] by simp_all
  then have "stored_release w1 = stored_release w"
    by (simp only: stored_release_def)
  ultimately show ?thesis
    using assms(2,3) c by (auto simp: client_Patch_def Let_def split: option.splits)
qed

lemma EnsureFinalizersAreCalled_token:
  assumes "EnsureFinalizersAreCalled w = (r, w')"
    and "rel_DeletionTimestamp (release w) \<noteq> None" and "finalizerName \<in> set (rel_Finalizers (release w))"
  shows "(\<exists>e. finalizeRelease w = (Some e, w') \<and> r = RequeueError e)
       \<or> (\<exists>v e. finalizeRelease w = (None, v)
             \<and> client_Patch (release v) (v\<lparr>release := RemoveFinalizer (release v) finalizerName\<rparr>) = (Some e, w')
             \<and> r = RequeueError e)
       \<or> (\<exists>v. finalizeRelease w = (None, v)
             \<and> client_Patch (release v) (v\<lparr>release := RemoveFinalizer (release v) finalizerName\<rparr>) = (None, w')
             \<and> r = RequeueRequest)"
  using assms
  by (auto simp: EnsureFinalizersAreCalled_def ContainsFinalizer_def RequeueWithError_def Requeue_def Let_def
      split: prod.splits option.splits)

lemma EnsureFinalizersAreCalled_served:
  assumes "EnsureFinalizersAreCalled w = (r, w')"
    and "rel_DeletionTimestamp (release w) \<noteq> None" and "finalizerName \<in> set (rel_Finalizers (release w))"
    and "served (Suc (Suc (Suc 0))) w" and "stored_release w \<noteq> None"
  shows "\<exists>v u. finalizeRelease w = (None, v)
           \<and> client_Patch (release v) (v\<lparr>release := RemoveFinalizer (release v) finalizerName\<rparr>) = (None, u)
           \<and> r = RequeueRequest \<and> w' = u"
proof -
  obtain f v where F: "finalizeRelease w = (f, v)"
    by (cases "finalizeRelease w")
  have f: "f = None" and s: "served (Suc 0) v"
    using finalizeRelease_served [OF assms(4) F] by simp_all
  let ?v = "v\<lparr>release := RemoveFinalizer (release v) finalizerName\<rparr>"
  obtain g u where P: "client_Patch (release v) ?v = (g, u)"
    by (cases "client_Patch (release v) ?v")
  have "rel_Namespace (release ?v) = rel_Namespace (release w)" "rel_Name (release ?v) = rel_Name (release w)"
    "stored (cluster ?v) = stored (cluster w)"
    using finalizeRelease_frame [OF F] by (simp_all add: RemoveFinalizer_def)
  then have "stored_release ?v = stored_release w"
    by (simp only: stored_release_def)
  then have "g = None"
    using client_Patch_served_call [of 0 ?v "release v" g u] s assms(5) P by simp
  then show ?thesis
    using EnsureFinalizersAreCalled_token [OF assms(1,2,3)] F f P by auto
qed

lemma EnsureFinalizersAreCalled_deleting:
  assumes "EnsureFinalizersAreCalled w = (r, w')"
  shows "rel_DeletionTimestamp (release w) \<noteq> None \<longrightarrow>
           r \<noteq> Continue
         \<and> (release w' = release w \<or> finalizerName \<notin> set (rel_Finalizers (release w')))
         \<and> (stored (cluster w') = stored (cluster w)
            \<or> (\<exists>s. stored (cluster w') = Some s \<and> finalizerName \<notin> set (rel_Finalizers s)))"
proof
  assume d: "rel_DeletionTimestamp (release w) \<noteq> None"
  show "r \<noteq> Continue
         \<and> (release w' = release w \<or> finalizerName \<notin> set (rel_Finalizers (release w')))
         \<and> (stored (cluster w') = stored (cluster w)
            \<or> (\<exists>s. stored (cluster w') = Some s \<and> finalizerName \<notin> set (rel_Finalizers s)))"
  proof (cases "finalizerName \<in> set (rel_Finalizers (release w))")
    case False
    then have "r = RequeueRequest \<and> w' = w"
      using assms d by (auto simp: EnsureFinalizersAreCalled_def ContainsFinalizer_def Requeue_def)
    then show ?thesis by simp
  next
    case True
    from EnsureFinalizersAreCalled_token [OF assms d True]
    consider (finalize_failed) e where "finalizeRelease w = (Some e, w')" "r = RequeueError e"
      | (patch_failed) v e where "finalizeRelease w = (None, v)"
          "client_Patch (release v) (v\<lparr>release := RemoveFinalizer (release v) finalizerName\<rparr>) = (Some e, w')"
          "r = RequeueError e"
      | (removed) v where "finalizeRelease w = (None, v)"
          "client_Patch (release v) (v\<lparr>release := RemoveFinalizer (release v) finalizerName\<rparr>) = (None, w')"
          "r = RequeueRequest"
      by blast
    then show ?thesis
    proof cases
      case finalize_failed
      then show ?thesis
        using finalizeRelease_frame [OF finalize_failed(1)] by simp
    next
      case patch_failed
      then show ?thesis
        using finalizeRelease_frame [OF patch_failed(1)] client_Patch_failed [OF patch_failed(2)]
        by (simp add: RemoveFinalizer_def)
    next
      case removed
      have tok: "finalizerName \<in> set (rel_Finalizers (release v))"
        using True finalizeRelease_frame [OF removed(1)] by simp
      obtain s where s: "stored (cluster w') = Some s" "finalizerName \<notin> set (rel_Finalizers s)"
        using removal_patch [OF removed(2) tok] by blast
      moreover have "stored (cluster w') = Some (release w')"
        using client_Patch_served [OF removed(2)] by blast
      ultimately show ?thesis
        using removed(3) by auto
    qed
  qed
qed

lemma ReconcileHandler_short_circuit:
  "fst (operation w) \<noteq> Continue \<Longrightarrow> ReconcileHandler (operation # operations) w = operation w"
  by (cases "operation w"; cases "fst (operation w)") auto

lemma ReconcileHandler_continue:
  "operation w = (Continue, w1)
   \<Longrightarrow> ReconcileHandler (operation # operations) w = ReconcileHandler operations w1"
  by simp

text \<open>
  C6. Finalizer ordering, for \<^verbatim>\<open>EnsureFinalizersAreCalled\<close> returning \<open>r\<close> and the world
  \<open>w'\<close>. Without a deletion timestamp the operation continues and the world is as
  before. With a deletion timestamp and without the token it requeues and the world is
  as before (no call at all, so no cleanup). With both, the result is a requeue or a
  requeue-with-error, never continue; a requeue-with-error leaves the cluster's copy of
  the Release, and so its finalizers, as before; a requeue means the cluster's copy no
  longer carries the token. The calls come in this order: the List of the PipelineRun;
  when it fails, the operation requeues with that error; when it finds a PipelineRun, the
  Delete of that PipelineRun, and only after it the Patch that removes the token; a
  Delete that is served removes the PipelineRun from the cluster, a Delete answered
  not-found is followed by the Patch all the same, and any other failure of the Delete
  requeues with that error before any Patch; a Patch that fails requeues with its error,
  and a Patch that is served gives the requeue. So when the three calls are served and
  the cluster holds the Release, the operation requeues, the cluster's copy has lost the
  token and the PipelineRun that the lookup found is gone. Whatever the result, for a
  Release marked for deletion it is the result of the whole pass: the chain runs no
  operation after this one.
\<close>

theorem finalizer_ordering:
  assumes E: "EnsureFinalizersAreCalled w = (r, w')"
  shows "(rel_DeletionTimestamp (release w) = None \<longrightarrow> r = Continue \<and> w' = w)
   \<and> (rel_DeletionTimestamp (release w) \<noteq> None \<and> finalizerName \<notin> set (rel_Finalizers (release w))
        \<longrightarrow> r = RequeueRequest \<and> w' = w)
   \<and> (rel_DeletionTimestamp (release w) \<noteq> None \<and> finalizerName \<in> set (rel_Finalizers (release w)) \<longrightarrow>
        (r = RequeueRequest \<or> (\<exists>e. r = RequeueError e))
      \<and> (\<forall>e. r = RequeueError e \<longrightarrow> stored (cluster w') = stored (cluster w))
      \<and> (r = RequeueRequest \<longrightarrow> (\<exists>s. stored (cluster w') = Some s \<and> finalizerName \<notin> set (rel_Finalizers s)))
      \<and> (\<forall>e w1. getReleasePipelineRun w = (Inl e, w1) \<longrightarrow> r = RequeueError e \<and> w' = w1)
      \<and> (\<forall>w1. getReleasePipelineRun w = (Inr None, w1)
            \<longrightarrow> calls w' = calls w @ [CallList KPipelineRun, CallPatch])
      \<and> (\<forall>p w1 f w2. getReleasePipelineRun w = (Inr (Some p), w1)
                     \<and> client_Delete_PipelineRun p w1 = (f, w2) \<longrightarrow>
            (case f of
               None \<Rightarrow>
                 calls w' = calls w @ [CallList KPipelineRun,
                                       CallDelete KPipelineRun (pr_Namespace p) (pr_Name p), CallPatch]
                 \<and> p \<notin> set (pipelineRuns (cluster w'))
             | Some e \<Rightarrow>
                 if IsNotFound e
                 then calls w' = calls w @ [CallList KPipelineRun,
                                            CallDelete KPipelineRun (pr_Namespace p) (pr_Name p), CallPatch]
                 else r = RequeueError e \<and> w' = w2))
      \<and> (\<forall>v e u. finalizeRelease w = (None, v)
                  \<and> client_Patch (release v) (v\<lparr>release := RemoveFinalizer (release v) finalizerName\<rparr>)
                      = (Some e, u)
            \<longrightarrow> r = RequeueError e \<and> w' = u)
      \<and> (\<forall>v u. finalizeRelease w = (None, v)
                  \<and> client_Patch (release v) (v\<lparr>release := RemoveFinalizer (release v) finalizerName\<rparr>)
                      = (None, u)
            \<longrightarrow> r = RequeueRequest \<and> w' = u))
   \<and> (rel_DeletionTimestamp (release w) \<noteq> None \<and> finalizerName \<in> set (rel_Finalizers (release w))
      \<and> served 3 w \<and> stored_release w \<noteq> None \<longrightarrow>
        r = RequeueRequest
      \<and> (\<exists>s. stored (cluster w') = Some s \<and> finalizerName \<notin> set (rel_Finalizers s))
      \<and> (\<forall>p w1. getReleasePipelineRun w = (Inr (Some p), w1) \<longrightarrow> p \<notin> set (pipelineRuns (cluster w'))))
   \<and> (rel_DeletionTimestamp (release w) \<noteq> None
        \<longrightarrow> ReconcileHandler (EnsureFinalizersAreCalled # operations) w = (r, w'))"
proof -
  have absent: "rel_DeletionTimestamp (release w) = None \<longrightarrow> r = Continue \<and> w' = w"
    using E by (auto simp: EnsureFinalizersAreCalled_def ContinueProcessing_def)
  have no_token: "rel_DeletionTimestamp (release w) \<noteq> None \<and> finalizerName \<notin> set (rel_Finalizers (release w))
        \<longrightarrow> r = RequeueRequest \<and> w' = w"
    using E by (auto simp: EnsureFinalizersAreCalled_def ContainsFinalizer_def Requeue_def)
  have token: "rel_DeletionTimestamp (release w) \<noteq> None \<and> finalizerName \<in> set (rel_Finalizers (release w)) \<longrightarrow>
        (r = RequeueRequest \<or> (\<exists>e. r = RequeueError e))
      \<and> (\<forall>e. r = RequeueError e \<longrightarrow> stored (cluster w') = stored (cluster w))
      \<and> (r = RequeueRequest \<longrightarrow> (\<exists>s. stored (cluster w') = Some s \<and> finalizerName \<notin> set (rel_Finalizers s)))
      \<and> (\<forall>e w1. getReleasePipelineRun w = (Inl e, w1) \<longrightarrow> r = RequeueError e \<and> w' = w1)
      \<and> (\<forall>w1. getReleasePipelineRun w = (Inr None, w1)
            \<longrightarrow> calls w' = calls w @ [CallList KPipelineRun, CallPatch])
      \<and> (\<forall>p w1 f w2. getReleasePipelineRun w = (Inr (Some p), w1)
                     \<and> client_Delete_PipelineRun p w1 = (f, w2) \<longrightarrow>
            (case f of
               None \<Rightarrow>
                 calls w' = calls w @ [CallList KPipelineRun,
                                       CallDelete KPipelineRun (pr_Namespace p) (pr_Name p), CallPatch]
                 \<and> p \<notin> set (pipelineRuns (cluster w'))
             | Some e \<Rightarrow>
                 if IsNotFound e
                 then calls w' = calls w @ [CallList KPipelineRun,
                                            CallDelete KPipelineRun (pr_Namespace p) (pr_Name p), CallPatch]
                 else r = RequeueError e \<and> w' = w2))
      \<and> (\<forall>v e u. finalizeRelease w = (None, v)
                  \<and> client_Patch (release v) (v\<lparr>release := RemoveFinalizer (release v) finalizerName\<rparr>)
                      = (Some e, u)
            \<longrightarrow> r = RequeueError e \<and> w' = u)
      \<and> (\<forall>v u. finalizeRelease w = (None, v)
                  \<and> client_Patch (release v) (v\<lparr>release := RemoveFinalizer (release v) finalizerName\<rparr>)
                      = (None, u)
            \<longrightarrow> r = RequeueRequest \<and> w' = u)"
  proof
  assume a: "rel_DeletionTimestamp (release w) \<noteq> None \<and> finalizerName \<in> set (rel_Finalizers (release w))"
  obtain f v where F: "finalizeRelease w = (f, v)"
    by (cases "finalizeRelease w")
  note frame = finalizeRelease_frame [OF F]
  note fcalls = finalizeRelease_calls [OF F]
  let ?v = "v\<lparr>release := RemoveFinalizer (release v) finalizerName\<rparr>"
  obtain g u where P: "client_Patch (release v) ?v = (g, u)"
    by (cases "client_Patch (release v) ?v")
  have failed: "r = RequeueError e \<and> w' = v" if "f = Some e" for e
    using E a F that by (simp add: EnsureFinalizersAreCalled_def ContainsFinalizer_def RequeueWithError_def)
  have cleaned: "w' = u \<and> r = (case g of None \<Rightarrow> RequeueRequest | Some e \<Rightarrow> RequeueError e)" if "f = None"
    using E a F P that
    by (auto simp: EnsureFinalizersAreCalled_def ContainsFinalizer_def RequeueWithError_def Requeue_def
        Let_def split: option.splits)
  have tok: "finalizerName \<in> set (rel_Finalizers (release v))"
    using a frame by simp
  have c1: "r = RequeueRequest \<or> (\<exists>e. r = RequeueError e)"
    using failed cleaned by (cases f; cases g) auto
  have c2: "\<forall>e. r = RequeueError e \<longrightarrow> stored (cluster w') = stored (cluster w)"
  proof (cases f)
    case None
    show ?thesis
    proof (cases g)
      case None
      with \<open>f = None\<close> cleaned show ?thesis by simp
    next
      case (Some x)
      with \<open>f = None\<close> cleaned client_Patch_failed [of "release v" ?v x u] P frame
      show ?thesis by simp
    qed
  next
    case (Some e)
    with failed frame show ?thesis by simp
  qed
  have c3: "r = RequeueRequest \<longrightarrow> (\<exists>s. stored (cluster w') = Some s \<and> finalizerName \<notin> set (rel_Finalizers s))"
  proof (cases f)
    case None
    show ?thesis
    proof (cases g)
      case None
      with \<open>f = None\<close> cleaned removal_patch [of v u] P tok show ?thesis by simp
    next
      case (Some x)
      with \<open>f = None\<close> cleaned show ?thesis by simp
    qed
  next
    case (Some e)
    with failed show ?thesis by simp
  qed
  have c4: "\<forall>e w1. getReleasePipelineRun w = (Inl e, w1) \<longrightarrow> r = RequeueError e \<and> w' = w1"
    using F failed by (auto simp: finalizeRelease_def)
  have c5: "\<forall>w1. getReleasePipelineRun w = (Inr None, w1)
            \<longrightarrow> calls w' = calls w @ [CallList KPipelineRun, CallPatch]"
  proof (intro allI impI)
    fix w1 assume n: "getReleasePipelineRun w = (Inr None, w1)"
    then have "f = None" using F by (simp add: finalizeRelease_def)
    with cleaned client_Patch_calls [OF P] fcalls n
    show "calls w' = calls w @ [CallList KPipelineRun, CallPatch]" by simp
  qed
  have c6: "\<forall>p w1 f w2. getReleasePipelineRun w = (Inr (Some p), w1)
                     \<and> client_Delete_PipelineRun p w1 = (f, w2) \<longrightarrow>
            (case f of
               None \<Rightarrow>
                 calls w' = calls w @ [CallList KPipelineRun,
                                       CallDelete KPipelineRun (pr_Namespace p) (pr_Name p), CallPatch]
                 \<and> p \<notin> set (pipelineRuns (cluster w'))
             | Some e \<Rightarrow>
                 if IsNotFound e
                 then calls w' = calls w @ [CallList KPipelineRun,
                                            CallDelete KPipelineRun (pr_Namespace p) (pr_Name p), CallPatch]
                 else r = RequeueError e \<and> w' = w2)"
  proof (intro allI impI)
    fix p w1 d w2
    assume h: "getReleasePipelineRun w = (Inr (Some p), w1) \<and> client_Delete_PipelineRun p w1 = (d, w2)"
    then have v: "v = w2" and f: "f = (case d of None \<Rightarrow> None | Some e \<Rightarrow> if IsNotFound e then None else Some e)"
      using F by (auto simp: finalizeRelease_def split: option.splits if_splits)
    have c: "calls v = calls w @ [CallList KPipelineRun, CallDelete KPipelineRun (pr_Namespace p) (pr_Name p)]"
      using fcalls h by simp
    show "case d of
               None \<Rightarrow>
                 calls w' = calls w @ [CallList KPipelineRun,
                                       CallDelete KPipelineRun (pr_Namespace p) (pr_Name p), CallPatch]
                 \<and> p \<notin> set (pipelineRuns (cluster w'))
             | Some e \<Rightarrow>
                 if IsNotFound e
                 then calls w' = calls w @ [CallList KPipelineRun,
                                            CallDelete KPipelineRun (pr_Namespace p) (pr_Name p), CallPatch]
                 else r = RequeueError e \<and> w' = w2"
    proof (cases d)
      case None
      then have "f = None" using f by simp
      moreover have "p \<notin> set (pipelineRuns (cluster v))"
        using h None v client_Delete_PipelineRun_result [of p w1 None w2] by simp
      ultimately show ?thesis
        using None cleaned client_Patch_calls [OF P] c by simp
    next
      case (Some e)
      show ?thesis
      proof (cases "IsNotFound e")
        case True
        then have "f = None" using f Some by simp
        then show ?thesis
          using Some True cleaned client_Patch_calls [OF P] c by simp
      next
        case False
        then have "f = Some e" using f Some by simp
        then show ?thesis
          using Some False failed v by simp
      qed
    qed
  qed
  have c7: "\<forall>v e u. finalizeRelease w = (None, v)
                  \<and> client_Patch (release v) (v\<lparr>release := RemoveFinalizer (release v) finalizerName\<rparr>)
                      = (Some e, u)
            \<longrightarrow> r = RequeueError e \<and> w' = u"
    using F P cleaned by auto
  have c8: "\<forall>v u. finalizeRelease w = (None, v)
                  \<and> client_Patch (release v) (v\<lparr>release := RemoveFinalizer (release v) finalizerName\<rparr>)
                      = (None, u)
            \<longrightarrow> r = RequeueRequest \<and> w' = u"
    using F P cleaned by auto
  from c1 c2 c3 c4 c5 c6 c7 c8 show "(r = RequeueRequest \<or> (\<exists>e. r = RequeueError e))
      \<and> (\<forall>e. r = RequeueError e \<longrightarrow> stored (cluster w') = stored (cluster w))
      \<and> (r = RequeueRequest \<longrightarrow> (\<exists>s. stored (cluster w') = Some s \<and> finalizerName \<notin> set (rel_Finalizers s)))
      \<and> (\<forall>e w1. getReleasePipelineRun w = (Inl e, w1) \<longrightarrow> r = RequeueError e \<and> w' = w1)
      \<and> (\<forall>w1. getReleasePipelineRun w = (Inr None, w1)
            \<longrightarrow> calls w' = calls w @ [CallList KPipelineRun, CallPatch])
      \<and> (\<forall>p w1 f w2. getReleasePipelineRun w = (Inr (Some p), w1)
                     \<and> client_Delete_PipelineRun p w1 = (f, w2) \<longrightarrow>
            (case f of
               None \<Rightarrow>
                 calls w' = calls w @ [CallList KPipelineRun,
                                       CallDelete KPipelineRun (pr_Namespace p) (pr_Name p), CallPatch]
                 \<and> p \<notin> set (pipelineRuns (cluster w'))
             | Some e \<Rightarrow>
                 if IsNotFound e
                 then calls w' = calls w @ [CallList KPipelineRun,
                                            CallDelete KPipelineRun (pr_Namespace p) (pr_Name p), CallPatch]
                 else r = RequeueError e \<and> w' = w2))
      \<and> (\<forall>v e u. finalizeRelease w = (None, v)
                  \<and> client_Patch (release v) (v\<lparr>release := RemoveFinalizer (release v) finalizerName\<rparr>)
                      = (Some e, u)
            \<longrightarrow> r = RequeueError e \<and> w' = u)
      \<and> (\<forall>v u. finalizeRelease w = (None, v)
                  \<and> client_Patch (release v) (v\<lparr>release := RemoveFinalizer (release v) finalizerName\<rparr>)
                      = (None, u)
            \<longrightarrow> r = RequeueRequest \<and> w' = u)"
    by (intro conjI)
  qed
  have all_served: "rel_DeletionTimestamp (release w) \<noteq> None \<and> finalizerName \<in> set (rel_Finalizers (release w))
      \<and> served 3 w \<and> stored_release w \<noteq> None \<longrightarrow>
        r = RequeueRequest
      \<and> (\<exists>s. stored (cluster w') = Some s \<and> finalizerName \<notin> set (rel_Finalizers s))
      \<and> (\<forall>p w1. getReleasePipelineRun w = (Inr (Some p), w1) \<longrightarrow> p \<notin> set (pipelineRuns (cluster w')))"
  proof
    assume a: "rel_DeletionTimestamp (release w) \<noteq> None \<and> finalizerName \<in> set (rel_Finalizers (release w))
      \<and> served 3 w \<and> stored_release w \<noteq> None"
    then have s3: "served (Suc (Suc (Suc 0))) w"
      by (simp add: numeral_3_eq_3)
    from a E obtain v u where removed: "finalizeRelease w = (None, v)"
      "client_Patch (release v) (v\<lparr>release := RemoveFinalizer (release v) finalizerName\<rparr>) = (None, u)"
      "r = RequeueRequest" "w' = u"
      using EnsureFinalizersAreCalled_served [OF E _ _ s3] by blast
    have tok: "finalizerName \<in> set (rel_Finalizers (release v))"
      using a finalizeRelease_frame [OF removed(1)] by simp
    have gone: "\<forall>p w1. getReleasePipelineRun w = (Inr (Some p), w1) \<longrightarrow> p \<notin> set (pipelineRuns (cluster v))"
      using finalizeRelease_served [OF _ removed(1)] s3 by blast
    show "r = RequeueRequest
      \<and> (\<exists>s. stored (cluster w') = Some s \<and> finalizerName \<notin> set (rel_Finalizers s))
      \<and> (\<forall>p w1. getReleasePipelineRun w = (Inr (Some p), w1) \<longrightarrow> p \<notin> set (pipelineRuns (cluster w')))"
      using removed(3,4) removal_patch [OF removed(2) tok] gone client_Patch_calls [OF removed(2)]
      by simp
  qed
  have chain: "rel_DeletionTimestamp (release w) \<noteq> None
        \<longrightarrow> ReconcileHandler (EnsureFinalizersAreCalled # operations) w = (r, w')"
    using E EnsureFinalizersAreCalled_deleting [OF E] ReconcileHandler_short_circuit [of EnsureFinalizersAreCalled w]
    by simp
  from absent no_token token all_served chain show ?thesis by (intro conjI)
qed


theorem finalizer_ordering_witness:
  "rel_DeletionTimestamp (release (deleting_world [finalizerName] [example_pipelineRun])) \<noteq> None
   \<and> finalizerName \<in> set (rel_Finalizers (release (deleting_world [finalizerName] [example_pipelineRun])))
   \<and> fst (EnsureFinalizersAreCalled (deleting_world [finalizerName] [example_pipelineRun])) = RequeueRequest
   \<and> calls (snd (EnsureFinalizersAreCalled (deleting_world [finalizerName] [example_pipelineRun])))
       = [CallList KPipelineRun, CallDelete KPipelineRun ''managed'' ''release-pipelinerun-0'', CallPatch]
   \<and> example_pipelineRun
       \<notin> set (pipelineRuns (cluster (snd (EnsureFinalizersAreCalled
               (deleting_world [finalizerName] [example_pipelineRun])))))
   \<and> (\<exists>s. stored (cluster (snd (EnsureFinalizersAreCalled
               (deleting_world [finalizerName] [example_pipelineRun])))) = Some s
          \<and> finalizerName \<notin> set (rel_Finalizers s))
   \<and> served 3 (deleting_world [finalizerName] [example_pipelineRun])
   \<and> stored_release (deleting_world [finalizerName] [example_pipelineRun]) \<noteq> None
   \<and> Reconcile (deleting_world [finalizerName] [example_pipelineRun])
       = EnsureFinalizersAreCalled (deleting_world [finalizerName] [example_pipelineRun])"
proof -
  let ?w = "deleting_world [finalizerName] [example_pipelineRun]"
  have E: "EnsureFinalizersAreCalled ?w
             = (fst (EnsureFinalizersAreCalled ?w), snd (EnsureFinalizersAreCalled ?w))"
    by simp
  have marked: "rel_DeletionTimestamp (release ?w) \<noteq> None \<and> finalizerName \<in> set (rel_Finalizers (release ?w))"
    by (simp add: example_defs)
  have requeued: "fst (EnsureFinalizersAreCalled ?w) = RequeueRequest"
    by (simp add: example_defs operation_defs)
  have lookup: "getReleasePipelineRun ?w
                  = (Inr (Some example_pipelineRun), ?w\<lparr>calls := [CallList KPipelineRun]\<rparr>)"
    by (simp add: example_defs operation_defs)
  have delete: "fst (client_Delete_PipelineRun example_pipelineRun (?w\<lparr>calls := [CallList KPipelineRun]\<rparr>)) = None"
    by (simp add: example_defs operation_defs)
  obtain w2 where d: "client_Delete_PipelineRun example_pipelineRun (?w\<lparr>calls := [CallList KPipelineRun]\<rparr>) = (None, w2)"
    using delete by (metis prod.collapse)
  note t = finalizer_ordering [OF E, THEN conjunct2, THEN conjunct2, THEN conjunct1, THEN mp, OF marked]
  note removed = t [THEN conjunct2, THEN conjunct2, THEN conjunct1, THEN mp, OF requeued]
  note ordered = t [THEN conjunct2, THEN conjunct2, THEN conjunct2, THEN conjunct2, THEN conjunct2,
                    THEN conjunct1, rule_format, OF conjI [OF lookup d]]
  have "pr_Namespace example_pipelineRun = ''managed''" "pr_Name example_pipelineRun = ''release-pipelinerun-0''"
    "calls (deleting_world [finalizerName] [example_pipelineRun]) = []"
    by (simp_all add: example_pipelineRun_def deleting_world_def finalizing_world_def)
  moreover have all_served: "rel_DeletionTimestamp (release ?w) \<noteq> None
      \<and> finalizerName \<in> set (rel_Finalizers (release ?w)) \<and> served 3 ?w \<and> stored_release ?w \<noteq> None"
    by (simp add: example_defs served_def stored_release_def)
  moreover note finalizer_ordering [OF E, THEN conjunct2, THEN conjunct2, THEN conjunct2, THEN conjunct1,
      THEN mp, OF all_served]
  moreover have "Reconcile ?w = EnsureFinalizersAreCalled ?w"
    using finalizer_ordering [OF E, THEN conjunct2, THEN conjunct2, THEN conjunct2, THEN conjunct2,
        THEN mp, OF conjunct1 [OF marked]]
    by (simp add: Reconcile_def)
  ultimately show ?thesis
    using marked requeued removed ordered by simp
qed



subsection \<open>Resolving the admission\<close>

lemma activeLoop_Some:
  "activeLoop releasePlan items (Some a)
     = (if filter (\<lambda>x. rpa_Application x = plan_Application releasePlan) items = []
        then Inr (Some a) else Inl (multipleFound releasePlan))"
  by (induction items) auto

lemma activeLoop_None:
  "activeLoop releasePlan items None
     = (case filter (\<lambda>x. rpa_Application x = plan_Application releasePlan) items of
          [] \<Rightarrow> Inr None
        | c # rest \<Rightarrow>
            if map_of (rpa_Labels c) AutoReleaseLabel = Some ''false'' then Inl (autoReleaseFalse c)
            else if rest = [] then Inr (Some c)
            else Inl (multipleFound releasePlan))"
  by (induction items) (auto simp: activeLoop_Some)

lemma served_Suc: "served (Suc n) w \<longleftrightarrow> (case faults w of [] \<Rightarrow> True | f # fs \<Rightarrow> f = None \<and> served n (w\<lparr>faults := fs\<rparr>))"
  by (auto simp: served_def split: list.splits)

lemma call_served:
  "served (Suc n) w \<Longrightarrow> call c w = (None, after [c] w) \<and> served n (after [c] w)"
  by (auto simp: served_Suc call_def after_def served_def drop_Suc split: list.splits)

lemma after_fields [simp]:
  "release (after cs w) = release w" "cluster (after cs w) = cluster w" "clock (after cs w) = clock w"
  "calls (after cs w) = calls w @ cs" "faults (after cs w) = drop (length cs) (faults w)"
  by (simp_all add: after_def)

lemma after_after: "after ds (after cs w) = after (cs @ ds) w"
  by (simp add: after_def add.commute)

lemma getReleasePlan_served:
  assumes "served (Suc n) w"
  shows "getReleasePlan w
           = (case releasePlanOf w of
                None \<Rightarrow> Inl (NewNotFound KReleasePlan (rel_ReleasePlan (release w)))
              | Some p \<Rightarrow> Inr p,
              after [CallGet KReleasePlan (rel_Namespace (release w)) (rel_ReleasePlan (release w))] w)"
  using call_served [OF assms]
  by (simp add: getReleasePlan_def client_Get_def releasePlanOf_def split: option.splits)

lemma getActiveReleasePlanAdmission_served:
  assumes "served 2 w" and "releasePlanOf w = Some releasePlan"
  shows "getActiveReleasePlanAdmission w
           = (case candidates releasePlan w of
                [] \<Rightarrow> Inl (noneFound releasePlan)
              | c # rest \<Rightarrow>
                  if map_of (rpa_Labels c) AutoReleaseLabel = Some ''false'' then Inl (autoReleaseFalse c)
                  else if rest = [] then Inr c
                  else Inl (multipleFound releasePlan),
              after (resolving w) w)"
proof -
  let ?g = "CallGet KReleasePlan (rel_Namespace (release w)) (rel_ReleasePlan (release w))"
  have s2: "served (Suc (Suc 0)) w" using assms(1) by (simp add: numeral_2_eq_2)
  have g: "getReleasePlan w = (Inr releasePlan, after [?g] w)"
    using getReleasePlan_served [OF s2] assms(2) by simp
  have s1: "served (Suc 0) (after [?g] w)"
    using call_served [OF s2] by simp
  have l: "client_List KReleasePlanAdmission releasePlanAdmissions
             (\<lambda>x. rpa_Namespace x = plan_Target releasePlan \<and> rpa_Origin x = plan_Namespace releasePlan)
             None (after [?g] w)
           = (Inr (filter (\<lambda>x. rpa_Namespace x = plan_Target releasePlan \<and> rpa_Origin x = plan_Namespace releasePlan)
                     (releasePlanAdmissions (cluster w))),
              after (resolving w) w)"
    using call_served [OF s1, of "CallList KReleasePlanAdmission"]
    by (simp add: client_List_def after_after resolving_def)
  show ?thesis
    by (simp add: getActiveReleasePlanAdmission_def g l activeLoop_None candidates_def
        del: filter_filter split: list.splits)
qed


lemma activeLoop_opted_in:
  "activeLoop releasePlan items None = Inr (Some a)
   \<Longrightarrow> map_of (rpa_Labels a) AutoReleaseLabel \<noteq> Some ''false''
       \<and> a \<in> set items \<and> rpa_Application a = plan_Application releasePlan"
proof -
  assume h: "activeLoop releasePlan items None = Inr (Some a)"
  let ?cs = "filter (\<lambda>x. rpa_Application x = plan_Application releasePlan) items"
  from h have "?cs = [a] \<and> map_of (rpa_Labels a) AutoReleaseLabel \<noteq> Some ''false''"
    by (auto simp: activeLoop_None split: list.splits if_splits)
  moreover have "a \<in> set ?cs \<Longrightarrow> a \<in> set items \<and> rpa_Application a = plan_Application releasePlan"
    by simp
  ultimately show ?thesis by simp
qed

lemma getActiveReleasePlanAdmission_opted_in:
  assumes "getActiveReleasePlanAdmission w = (Inr a, w')"
  shows "map_of (rpa_Labels a) AutoReleaseLabel \<noteq> Some ''false''"
  using assms
  by (auto simp: getActiveReleasePlanAdmission_def
      split: prod.splits sum.splits option.splits dest: activeLoop_opted_in)

lemma adjacent_Cons:
  "adjacent a b (x # zs) = (zs \<noteq> [] \<and> (x = a \<and> hd zs = b \<or> adjacent a b zs))"
  by (cases zs) auto

lemma adjacent_append:
  "adjacent a b (xs @ ys)
     = (adjacent a b xs \<or> adjacent a b ys \<or> (xs \<noteq> [] \<and> ys \<noteq> [] \<and> last xs = a \<and> hd ys = b))"
proof (induction xs)
  case Nil
  then show ?case by simp
next
  case (Cons x xs)
  then show ?case
    by (cases xs; cases ys) (auto simp: adjacent_Cons)
qed

lemma adjacent_members: "adjacent a b xs \<Longrightarrow> a \<in> set xs \<and> b \<in> set xs"
  by (induction a b xs rule: adjacent.induct) auto

lemma sublist_adjacent: "sublist u s \<Longrightarrow> adjacent a b u \<Longrightarrow> adjacent a b s"
  by (auto simp: sublist_def adjacent_append)

lemma Contains_adjacent: "Contains s u \<Longrightarrow> adjacent a b u \<Longrightarrow> adjacent a b s"
  using sublist_adjacent by (simp add: Contains_sublist)

lemma adjacent_spaceless_before:
  "CHR '' '' \<notin> set t \<Longrightarrow> adjacent a (CHR '' '') (p @ t @ q)
     = (adjacent a (CHR '' '') p \<or> adjacent a (CHR '' '') q
        \<or> (p \<noteq> [] \<and> t = [] \<and> q \<noteq> [] \<and> last p = a \<and> hd q = CHR '' '')
        \<or> (t \<noteq> [] \<and> q \<noteq> [] \<and> last t = a \<and> hd q = CHR '' ''))"
  by (cases "t = []") (auto simp: adjacent_append dest: adjacent_members hd_in_set)

lemma adjacent_spaceless_after:
  "CHR '' '' \<notin> set t \<Longrightarrow> adjacent (CHR '' '') b (p @ t @ q)
     = (adjacent (CHR '' '') b p \<or> adjacent (CHR '' '') b q
        \<or> (p \<noteq> [] \<and> t = [] \<and> q \<noteq> [] \<and> last p = CHR '' '' \<and> hd q = b)
        \<or> (p \<noteq> [] \<and> t \<noteq> [] \<and> last p = CHR '' '' \<and> hd t = b))"
  by (cases "t = []") (auto simp: adjacent_append dest: adjacent_members last_in_set)

lemma noneFound_unmarked:
  assumes "CHR '' '' \<notin> set (plan_Target releasePlan)" and "CHR '' '' \<notin> set (plan_Application releasePlan)"
  shows "\<not> Contains (Error (noneFound releasePlan)) ''multiple ReleasePlanAdmissions found''"
    and "\<not> Contains (Error (noneFound releasePlan)) ''auto-release label set to false''"
proof -
  define p where "p = ''no ReleasePlanAdmission found in the target (''"
  define q where "q = '') for application '' @ [CHR 0x27]"
  define r where "r = [CHR 0x27]"
  have e: "Error (noneFound releasePlan)
             = p @ plan_Target releasePlan @ (q @ plan_Application releasePlan @ r)"
    by (simp add: noneFound_def Errorf_def p_def q_def r_def)
  have p: "\<not> adjacent (CHR ''s'') (CHR '' '') p" "\<not> adjacent (CHR '' '') (CHR ''l'') p"
    "last p = CHR ''(''" "hd p = CHR ''n''" "p \<noteq> []"
    by (simp_all add: p_def)
  have q: "\<not> adjacent (CHR ''s'') (CHR '' '') q" "\<not> adjacent (CHR '' '') (CHR ''l'') q"
    "last q = CHR 0x27" "hd q = CHR '')''" "q \<noteq> []"
    by (simp_all add: q_def)
  have r: "\<not> adjacent (CHR ''s'') (CHR '' '') r" "\<not> adjacent (CHR '' '') (CHR ''l'') r"
    "last r = CHR 0x27" "hd r = CHR 0x27" "r \<noteq> []"
    by (simp_all add: r_def)
  have "\<not> adjacent (CHR ''s'') (CHR '' '') (q @ plan_Application releasePlan @ r)"
    using assms(2) q r by (simp add: adjacent_spaceless_before)
  then have "\<not> adjacent (CHR ''s'') (CHR '' '') (Error (noneFound releasePlan))"
    unfolding e using assms(1) p q
    by (simp add: adjacent_spaceless_before)
  moreover have "adjacent (CHR ''s'') (CHR '' '') ''multiple ReleasePlanAdmissions found''"
    by simp
  ultimately show "\<not> Contains (Error (noneFound releasePlan)) ''multiple ReleasePlanAdmissions found''"
    using Contains_adjacent by blast
  have "\<not> adjacent (CHR '' '') (CHR ''l'') (q @ plan_Application releasePlan @ r)"
    using assms(2) q r by (simp add: adjacent_spaceless_after)
  then have "\<not> adjacent (CHR '' '') (CHR ''l'') (Error (noneFound releasePlan))"
    unfolding e using assms(1) p q
    by (simp add: adjacent_spaceless_after)
  moreover have "adjacent (CHR '' '') (CHR ''l'') ''auto-release label set to false''"
    by simp
  ultimately show "\<not> Contains (Error (noneFound releasePlan)) ''auto-release label set to false''"
    using Contains_adjacent by blast
qed

lemma autoReleaseFalse_unmarked:
  assumes "CHR '' '' \<notin> set (rpa_Name c)"
  shows "\<not> Contains (Error (autoReleaseFalse c)) ''multiple ReleasePlanAdmissions found''"
proof -
  define p where "p = ''found ReleasePlanAdmission '' @ [CHR 0x27]"
  define q where "q = [CHR 0x27] @ '' with auto-release label set to false''"
  have e: "Error (autoReleaseFalse c) = p @ rpa_Name c @ q"
    by (simp add: autoReleaseFalse_def Errorf_def p_def q_def)
  have p: "\<not> adjacent (CHR ''s'') (CHR '' '') p" "last p = CHR 0x27" "p \<noteq> []"
    by (simp_all add: p_def)
  have q: "\<not> adjacent (CHR ''s'') (CHR '' '') q" "hd q = CHR 0x27" "q \<noteq> []"
    by (simp_all add: q_def)
  have "\<not> adjacent (CHR ''s'') (CHR '' '') (Error (autoReleaseFalse c))"
    unfolding e using assms p q
    by (simp add: adjacent_spaceless_before)
  moreover have "adjacent (CHR ''s'') (CHR '' '') ''multiple ReleasePlanAdmissions found''"
    by simp
  ultimately show ?thesis
    using Contains_adjacent by blast
qed

lemma multipleFound_marked:
  "Contains (Error (multipleFound releasePlan)) ''multiple ReleasePlanAdmissions found''"
proof -
  have "Error (multipleFound releasePlan)
          = [] @ ''multiple ReleasePlanAdmissions found''
             @ ('' with the target ('' @ plan_Target releasePlan
                @ '') for application '' @ [CHR 0x27] @ plan_Application releasePlan @ [CHR 0x27])"
    by (simp add: multipleFound_def Errorf_def)
  then show ?thesis
    using Contains_middle by metis
qed


lemma reads_refl: "reads w w"
  unfolding reads_def by (auto intro: exI [of _ 0] exI [of _ "[]"])

lemma reads_trans: "reads w w1 \<Longrightarrow> reads w1 w2 \<Longrightarrow> reads w w2"
  unfolding reads_def
  apply (elim conjE exE)
  subgoal for n cs n' cs'
    by (auto intro!: exI [of _ "n + n'"] exI [of _ "cs @ cs'"] simp: add.commute)
  done

lemma reads_call: "is_read c \<Longrightarrow> call c w = (f, w') \<Longrightarrow> reads w w'"
  unfolding reads_def
  by (auto simp: call_def drop_Suc split: list.splits intro: exI [of _ 0] exI [of _ "Suc 0"])

lemma client_Get_reads:
  "client_Get k objects namespace_of name_of namespace name w = (r, w') \<Longrightarrow> reads w w'"
  by (auto simp: client_Get_def split: prod.splits option.splits
      dest!: reads_call [of "CallGet k namespace name", simplified])

lemma client_List_reads:
  "client_List k objects selector limit w = (r, w') \<Longrightarrow> reads w w'"
  by (auto simp: client_List_def Let_def split: prod.splits option.splits
      dest!: reads_call [of "CallList k", simplified])

lemma getReleasePlan_reads: "getReleasePlan w = (r, w') \<Longrightarrow> reads w w'"
  by (auto simp: getReleasePlan_def dest: client_Get_reads)

lemma getActiveReleasePlanAdmission_reads:
  "getActiveReleasePlanAdmission w = (r, w') \<Longrightarrow> reads w w'"
  by (auto simp: getActiveReleasePlanAdmission_def
      split: prod.splits sum.splits option.splits
      dest!: getReleasePlan_reads client_List_reads intro: reads_trans)

lemma reads_no_patch:
  "reads w w' \<Longrightarrow> CallStatusPatch \<notin> set (drop (length (calls w)) (calls w'))
                  \<and> CallPatch \<notin> set (drop (length (calls w)) (calls w'))"
  unfolding reads_def by fastforce

lemma merge_status_synced: "merge_status original changed original = changed"
  by (simp add: merge_status_def merge_def Let_def)

lemma client_Status_Patch_failed:
  "client_Status_Patch original w = (Some e, w') \<Longrightarrow>
     release w' = release w \<and> cluster w' = cluster w \<and> clock w' = clock w
     \<and> calls w' = calls w @ [CallStatusPatch] \<and> faults w' = tl (faults w)"
  by (auto simp: client_Status_Patch_def Let_def split: prod.splits option.splits dest!: call_result)

lemma client_Status_Patch_served:
  "client_Status_Patch original w = (None, w') \<Longrightarrow>
     \<exists>s. stored_release w = Some s
       \<and> release w' = s\<lparr>rel_Status := merge_status (rel_Status original) (rel_Status (release w)) (rel_Status s)\<rparr>
       \<and> cluster w' = (cluster w)\<lparr>stored := Some (release w')\<rparr>
       \<and> clock w' = clock w
       \<and> calls w' = calls w @ [CallStatusPatch] \<and> faults w' = tl (faults w)"
  by (auto simp: client_Status_Patch_def Let_def stored_release_def
      split: prod.splits option.splits if_splits dest!: call_result)

lemma markInvalid_result:
  assumes "markInvalid reason e v = (r, w')"
  shows "calls w' = calls v @ [CallStatusPatch]"
    and "(r = Stop \<and> stored (cluster w') = Some (release w')
           \<and> (stored (cluster v) = Some (release v)
                \<longrightarrow> release w' = MarkInvalid reason (Error e) (release v)))
         \<or> (\<exists>pe. r = RequeueError pe \<and> cluster w' = cluster v
                \<and> release w' = MarkInvalid reason (Error e) (release v))"
proof -
  let ?v = "v\<lparr>release := MarkInvalid reason (Error e) (release v)\<rparr>"
  obtain pe where p: "client_Status_Patch (release v) ?v = (pe, w')" and r: "r = RequeueOnErrorOrStop pe"
    using assms by (auto simp: markInvalid_def Let_def split: prod.splits)
  have key: "rel_Name (MarkInvalid reason (Error e) (release v)) = rel_Name (release v)"
    "rel_Namespace (MarkInvalid reason (Error e) (release v)) = rel_Namespace (release v)"
    by (simp_all add: MarkInvalid_def)
  show "calls w' = calls v @ [CallStatusPatch]"
    using p client_Status_Patch_failed [of "release v" ?v _ w'] client_Status_Patch_served [of "release v" ?v w']
    by (cases pe) auto
  show "(r = Stop \<and> stored (cluster w') = Some (release w')
           \<and> (stored (cluster v) = Some (release v)
                \<longrightarrow> release w' = MarkInvalid reason (Error e) (release v)))
         \<or> (\<exists>pe. r = RequeueError pe \<and> cluster w' = cluster v
                \<and> release w' = MarkInvalid reason (Error e) (release v))"
  proof (cases pe)
    case None
    then obtain s where s: "stored_release ?v = Some s"
      "release w' = s\<lparr>rel_Status := merge_status (rel_Status (release v)) (rel_Status (release ?v)) (rel_Status s)\<rparr>"
      "cluster w' = (cluster ?v)\<lparr>stored := Some (release w')\<rparr>"
      using client_Status_Patch_served [of "release v" ?v w'] p by auto
    have "release w' = MarkInvalid reason (Error e) (release v)" if "stored (cluster v) = Some (release v)"
    proof -
      have "s = release v" using s(1) that by (simp add: stored_release_def key)
      then show ?thesis using s(2) by (simp add: merge_status_synced MarkInvalid_def)
    qed
    then show ?thesis using None r s(3) by (simp add: RequeueOnErrorOrStop_def)
  next
    case (Some x)
    then show ?thesis
      using client_Status_Patch_failed [of "release v" ?v x w'] p r
      by (simp add: RequeueOnErrorOrStop_def)
  qed
qed


lemma named_in_message:
  "Contains (Error (multipleFound releasePlan)) (plan_Target releasePlan)"
  "Contains (Error (multipleFound releasePlan)) (plan_Application releasePlan)"
  "Contains (Error (noneFound releasePlan)) (plan_Target releasePlan)"
  "Contains (Error (noneFound releasePlan)) (plan_Application releasePlan)"
  "Contains (Error (noneFound releasePlan)) ''no ReleasePlanAdmission found''"
proof -
  have "Error (multipleFound releasePlan)
          = ''multiple ReleasePlanAdmissions found with the target ('' @ plan_Target releasePlan
             @ ('') for application '' @ [CHR 0x27] @ plan_Application releasePlan @ [CHR 0x27])"
    by (simp add: multipleFound_def Errorf_def)
  then show "Contains (Error (multipleFound releasePlan)) (plan_Target releasePlan)"
    using Contains_middle by metis
  have "Error (multipleFound releasePlan)
          = (''multiple ReleasePlanAdmissions found with the target ('' @ plan_Target releasePlan
             @ '') for application '' @ [CHR 0x27]) @ plan_Application releasePlan @ [CHR 0x27]"
    by (simp add: multipleFound_def Errorf_def)
  then show "Contains (Error (multipleFound releasePlan)) (plan_Application releasePlan)"
    using Contains_middle by metis
  have "Error (noneFound releasePlan)
          = ''no ReleasePlanAdmission found in the target ('' @ plan_Target releasePlan
             @ ('') for application '' @ [CHR 0x27] @ plan_Application releasePlan @ [CHR 0x27])"
    by (simp add: noneFound_def Errorf_def)
  then show "Contains (Error (noneFound releasePlan)) (plan_Target releasePlan)"
    using Contains_middle by metis
  have "Error (noneFound releasePlan)
          = (''no ReleasePlanAdmission found in the target ('' @ plan_Target releasePlan
             @ '') for application '' @ [CHR 0x27]) @ plan_Application releasePlan @ [CHR 0x27]"
    by (simp add: noneFound_def Errorf_def)
  then show "Contains (Error (noneFound releasePlan)) (plan_Application releasePlan)"
    using Contains_middle by metis
  have "Error (noneFound releasePlan)
          = [] @ ''no ReleasePlanAdmission found'' @ ('' in the target ('' @ plan_Target releasePlan
             @ '') for application '' @ [CHR 0x27] @ plan_Application releasePlan @ [CHR 0x27])"
    by (simp add: noneFound_def Errorf_def)
  then show "Contains (Error (noneFound releasePlan)) ''no ReleasePlanAdmission found''"
    using Contains_middle by metis
qed

lemma autoReleaseFalse_marked:
  "Contains (Error (autoReleaseFalse c)) ''auto-release label set to false''"
  "Contains (Error (autoReleaseFalse c)) (rpa_Name c)"
proof -
  have "Error (autoReleaseFalse c)
          = (''found ReleasePlanAdmission '' @ [CHR 0x27] @ rpa_Name c @ [CHR 0x27] @ '' with '')
             @ ''auto-release label set to false'' @ []"
    by (simp add: autoReleaseFalse_def Errorf_def)
  then show "Contains (Error (autoReleaseFalse c)) ''auto-release label set to false''"
    using Contains_middle by metis
  have "Error (autoReleaseFalse c)
          = (''found ReleasePlanAdmission '' @ [CHR 0x27]) @ rpa_Name c
             @ ([CHR 0x27] @ '' with auto-release label set to false'')"
    by (simp add: autoReleaseFalse_def Errorf_def)
  then show "Contains (Error (autoReleaseFalse c)) (rpa_Name c)"
    using Contains_middle by metis
qed

lemmas admission_defs =
  admissions_world_def opted_out_admission_def second_admission_def
  example_world_def example_cluster_def example_release_def example_status_def
  example_plan_def example_admission_def
  served_def releasePlanOf_def candidates_def resolving_def after_def AutoReleaseLabel_def

lemmas evaluation_defs =
  EnsureReleasePlanAdmissionEnabled_def getActiveReleasePlanAdmission_def getReleasePlan_def
  client_Get_def client_List_def call_def markInvalid_def client_Status_Patch_def stored_release_def
  merge_status_def merge_def MarkInvalid_def multipleFound_def autoReleaseFalse_def noneFound_def
  Errorf_def RequeueOnErrorOrStop_def ContinueProcessing_def Let_def

text \<open>
  C3. Opt-out respected. Whatever the world, an admission that
  \<^verbatim>\<open>getActiveReleasePlanAdmission\<close> returns does not carry the auto-release label with the
  value \<^verbatim>\<open>"false"\<close>. When the plan is found, the List is served and exactly one listed
  admission declares the plan's application, the result is decided by that label alone:
  with the value \<^verbatim>\<open>"false"\<close> it is the error "found ReleasePlanAdmission '...' with
  auto-release label set to false", which names the admission; without the label or with
  any other value the admission is returned.
\<close>

theorem opt_out_respected:
  "(getActiveReleasePlanAdmission w = (Inr a, w')
      \<longrightarrow> map_of (rpa_Labels a) AutoReleaseLabel \<noteq> Some ''false'')
   \<and> (served 2 w \<and> releasePlanOf w = Some releasePlan \<and> candidates releasePlan w = [c]
      \<longrightarrow> getActiveReleasePlanAdmission w
            = (if map_of (rpa_Labels c) AutoReleaseLabel = Some ''false''
               then Inl (autoReleaseFalse c) else Inr c,
               after (resolving w) w))
   \<and> Contains (Error (autoReleaseFalse c)) ''auto-release label set to false''
   \<and> Contains (Error (autoReleaseFalse c)) (rpa_Name c)"
  using getActiveReleasePlanAdmission_opted_in [of w a w'] autoReleaseFalse_marked [of c]
  by (auto simp: getActiveReleasePlanAdmission_served)

theorem opt_out_respected_witness:
  "getActiveReleasePlanAdmission (admissions_world [opted_out_admission])
     = (Inl (autoReleaseFalse opted_out_admission),
        (admissions_world [opted_out_admission])
          \<lparr>calls := [CallGet KReleasePlan ''dev'' ''plan'', CallList KReleasePlanAdmission]\<rparr>)
   \<and> getActiveReleasePlanAdmission (admissions_world [second_admission])
     = (Inr second_admission,
        (admissions_world [second_admission])
          \<lparr>calls := [CallGet KReleasePlan ''dev'' ''plan'', CallList KReleasePlanAdmission]\<rparr>)
   \<and> getActiveReleasePlanAdmission (admissions_world [example_admission])
     = (Inr example_admission,
        (admissions_world [example_admission])
          \<lparr>calls := [CallGet KReleasePlan ''dev'' ''plan'', CallList KReleasePlanAdmission]\<rparr>)
   \<and> map_of (rpa_Labels second_admission) AutoReleaseLabel = Some ''true''
   \<and> map_of (rpa_Labels example_admission) AutoReleaseLabel = None"
proof -
  have h: "served 2 (admissions_world [x]) \<and> releasePlanOf (admissions_world [x]) = Some example_plan
           \<and> candidates example_plan (admissions_world [x]) = [x]"
    if "x \<in> {opted_out_admission, second_admission, example_admission}" for x
    using that by (auto simp: admission_defs)
  have a: "after (resolving (admissions_world [x])) (admissions_world [x])
             = (admissions_world [x])
                 \<lparr>calls := [CallGet KReleasePlan ''dev'' ''plan'', CallList KReleasePlanAdmission]\<rparr>" for x
    by (simp add: admission_defs)
  have l: "map_of (rpa_Labels opted_out_admission) AutoReleaseLabel = Some ''false''"
    "map_of (rpa_Labels second_admission) AutoReleaseLabel = Some ''true''"
    "map_of (rpa_Labels example_admission) AutoReleaseLabel = None"
    by (simp_all add: admission_defs)
  from opt_out_respected [of "admissions_world [opted_out_admission]" _ _ example_plan opted_out_admission,
         THEN conjunct2, THEN conjunct1, THEN mp, OF h]
       opt_out_respected [of "admissions_world [second_admission]" _ _ example_plan second_admission,
         THEN conjunct2, THEN conjunct1, THEN mp, OF h]
       opt_out_respected [of "admissions_world [example_admission]" _ _ example_plan example_admission,
         THEN conjunct2, THEN conjunct1, THEN mp, OF h]
       a l
  have r: "getActiveReleasePlanAdmission (admissions_world [opted_out_admission])
     = (Inl (autoReleaseFalse opted_out_admission),
        (admissions_world [opted_out_admission])
          \<lparr>calls := [CallGet KReleasePlan ''dev'' ''plan'', CallList KReleasePlanAdmission]\<rparr>)
   \<and> getActiveReleasePlanAdmission (admissions_world [second_admission])
     = (Inr second_admission,
        (admissions_world [second_admission])
          \<lparr>calls := [CallGet KReleasePlan ''dev'' ''plan'', CallList KReleasePlanAdmission]\<rparr>)
   \<and> getActiveReleasePlanAdmission (admissions_world [example_admission])
     = (Inr example_admission,
        (admissions_world [example_admission])
          \<lparr>calls := [CallGet KReleasePlan ''dev'' ''plan'', CallList KReleasePlanAdmission]\<rparr>)"
    by simp
  from r opt_out_respected [of "admissions_world [second_admission]" second_admission
         "(admissions_world [second_admission])
            \<lparr>calls := [CallGet KReleasePlan ''dev'' ''plan'', CallList KReleasePlanAdmission]\<rparr>",
         THEN conjunct1] l
  show ?thesis by simp
qed


text \<open>
  C5 as the code has it. When the plan is found, the List is served and no listed
  admission declares the plan's application, \<^verbatim>\<open>getActiveReleasePlanAdmission\<close> fails with
  "no ReleasePlanAdmission found in the target (...) for application '...'", which names
  the target and the application. \<^verbatim>\<open>EnsureReleasePlanAdmissionEnabled\<close> tells the failure
  modes apart by searching the message of the error: it returns continue, with nothing
  but the two reads done, when that message holds neither "multiple
  ReleasePlanAdmissions found" nor "auto-release label set to false", and otherwise
  marks the Release invalid as for the failure mode whose text it found. The message
  holds neither text when the target and the application contain no blank. Conversely,
  whenever the gating operation does anything else than continue untouched, the
  resolution failed with a message holding one of the two texts; when the plan is found,
  the List served and target and application contain no blank, that failure is the
  multiple-admissions error or the auto-release error of a candidate. And in these two
  failure modes, the name of the first candidate containing no blank, the gating
  operation does mark the Release invalid, with the target-disabled reason when the
  first candidate opts out and the validation reason otherwise, issues the status patch
  and does not continue.
\<close>

theorem no_admission_continues:
  "(served 2 w \<and> releasePlanOf w = Some releasePlan \<and> candidates releasePlan w = []
     \<longrightarrow> getActiveReleasePlanAdmission w = (Inl (noneFound releasePlan), after (resolving w) w)
       \<and> Contains (Error (noneFound releasePlan)) ''no ReleasePlanAdmission found''
       \<and> Contains (Error (noneFound releasePlan)) (plan_Target releasePlan)
       \<and> Contains (Error (noneFound releasePlan)) (plan_Application releasePlan)
       \<and> EnsureReleasePlanAdmissionEnabled w
           = (if Contains (Error (noneFound releasePlan)) ''multiple ReleasePlanAdmissions found''
              then markInvalid ReleaseReasonValidationError (noneFound releasePlan) (after (resolving w) w)
              else if Contains (Error (noneFound releasePlan)) ''auto-release label set to false''
              then markInvalid ReleaseReasonTargetDisabledError (noneFound releasePlan) (after (resolving w) w)
              else (ContinueProcessing, after (resolving w) w)))
   \<and> (served 2 w \<and> releasePlanOf w = Some releasePlan \<and> candidates releasePlan w = []
      \<and> CHR '' '' \<notin> set (plan_Target releasePlan) \<and> CHR '' '' \<notin> set (plan_Application releasePlan)
     \<longrightarrow> \<not> Contains (Error (noneFound releasePlan)) ''multiple ReleasePlanAdmissions found''
       \<and> \<not> Contains (Error (noneFound releasePlan)) ''auto-release label set to false''
       \<and> EnsureReleasePlanAdmissionEnabled w = (ContinueProcessing, after (resolving w) w))
   \<and> (EnsureReleasePlanAdmissionEnabled w = (r, w')
      \<and> (r \<noteq> Continue \<or> release w' \<noteq> release w \<or> cluster w' \<noteq> cluster w
          \<or> CallStatusPatch \<in> set (drop (length (calls w)) (calls w')))
     \<longrightarrow> (\<exists>e w1. getActiveReleasePlanAdmission w = (Inl e, w1)
            \<and> (Contains (Error e) ''multiple ReleasePlanAdmissions found''
               \<or> Contains (Error e) ''auto-release label set to false'')))
   \<and> (served 2 w \<and> releasePlanOf w = Some releasePlan
      \<and> CHR '' '' \<notin> set (plan_Target releasePlan) \<and> CHR '' '' \<notin> set (plan_Application releasePlan)
      \<and> fst (EnsureReleasePlanAdmissionEnabled w) \<noteq> Continue
     \<longrightarrow> fst (getActiveReleasePlanAdmission w) = Inl (multipleFound releasePlan)
         \<or> (\<exists>c \<in> set (candidates releasePlan w).
               fst (getActiveReleasePlanAdmission w) = Inl (autoReleaseFalse c)))
   \<and> (served 2 w \<and> releasePlanOf w = Some releasePlan \<and> candidates releasePlan w = c # rest
      \<and> (map_of (rpa_Labels c) AutoReleaseLabel = Some ''false'' \<or> rest \<noteq> [])
      \<and> CHR '' '' \<notin> set (rpa_Name c)
     \<longrightarrow> EnsureReleasePlanAdmissionEnabled w
           = (if map_of (rpa_Labels c) AutoReleaseLabel = Some ''false''
              then markInvalid ReleaseReasonTargetDisabledError (autoReleaseFalse c) (after (resolving w) w)
              else markInvalid ReleaseReasonValidationError (multipleFound releasePlan) (after (resolving w) w))
       \<and> fst (EnsureReleasePlanAdmissionEnabled w) \<noteq> Continue
       \<and> calls (snd (EnsureReleasePlanAdmissionEnabled w)) = calls w @ resolving w @ [CallStatusPatch])"
proof -
  have none: "served 2 w \<and> releasePlanOf w = Some releasePlan \<and> candidates releasePlan w = []
     \<longrightarrow> getActiveReleasePlanAdmission w = (Inl (noneFound releasePlan), after (resolving w) w)
       \<and> Contains (Error (noneFound releasePlan)) ''no ReleasePlanAdmission found''
       \<and> Contains (Error (noneFound releasePlan)) (plan_Target releasePlan)
       \<and> Contains (Error (noneFound releasePlan)) (plan_Application releasePlan)
       \<and> EnsureReleasePlanAdmissionEnabled w
           = (if Contains (Error (noneFound releasePlan)) ''multiple ReleasePlanAdmissions found''
              then markInvalid ReleaseReasonValidationError (noneFound releasePlan) (after (resolving w) w)
              else if Contains (Error (noneFound releasePlan)) ''auto-release label set to false''
              then markInvalid ReleaseReasonTargetDisabledError (noneFound releasePlan) (after (resolving w) w)
              else (ContinueProcessing, after (resolving w) w))"
    by (simp add: getActiveReleasePlanAdmission_served EnsureReleasePlanAdmissionEnabled_def
        named_in_message)
  have blank_free: "served 2 w \<and> releasePlanOf w = Some releasePlan \<and> candidates releasePlan w = []
      \<and> CHR '' '' \<notin> set (plan_Target releasePlan) \<and> CHR '' '' \<notin> set (plan_Application releasePlan)
     \<longrightarrow> \<not> Contains (Error (noneFound releasePlan)) ''multiple ReleasePlanAdmissions found''
       \<and> \<not> Contains (Error (noneFound releasePlan)) ''auto-release label set to false''
       \<and> EnsureReleasePlanAdmissionEnabled w = (ContinueProcessing, after (resolving w) w)"
    by (simp add: getActiveReleasePlanAdmission_served EnsureReleasePlanAdmissionEnabled_def
        noneFound_unmarked)
  have only: "EnsureReleasePlanAdmissionEnabled w = (r, w')
      \<and> (r \<noteq> Continue \<or> release w' \<noteq> release w \<or> cluster w' \<noteq> cluster w
          \<or> CallStatusPatch \<in> set (drop (length (calls w)) (calls w')))
     \<longrightarrow> (\<exists>e w1. getActiveReleasePlanAdmission w = (Inl e, w1)
            \<and> (Contains (Error e) ''multiple ReleasePlanAdmissions found''
               \<or> Contains (Error e) ''auto-release label set to false''))"
  proof
    assume a: "EnsureReleasePlanAdmissionEnabled w = (r, w')
      \<and> (r \<noteq> Continue \<or> release w' \<noteq> release w \<or> cluster w' \<noteq> cluster w
          \<or> CallStatusPatch \<in> set (drop (length (calls w)) (calls w')))"
    obtain x w1 where g: "getActiveReleasePlanAdmission w = (x, w1)"
      by (cases "getActiveReleasePlanAdmission w")
    note f = getActiveReleasePlanAdmission_reads [OF g]
    have quiet: False if "r = Continue" "w' = w1"
      using a that f reads_no_patch [OF f] by (auto simp: reads_def)
    show "\<exists>e w1. getActiveReleasePlanAdmission w = (Inl e, w1)
            \<and> (Contains (Error e) ''multiple ReleasePlanAdmissions found''
               \<or> Contains (Error e) ''auto-release label set to false'')"
    proof (cases x)
      case (Inl e)
      then show ?thesis
        using a g quiet
        by (auto simp: EnsureReleasePlanAdmissionEnabled_def ContinueProcessing_def split: if_splits)
    next
      case (Inr b)
      then show ?thesis
        using a g quiet
        by (auto simp: EnsureReleasePlanAdmissionEnabled_def ContinueProcessing_def)
    qed
  qed
  have modes: "served 2 w \<and> releasePlanOf w = Some releasePlan
      \<and> CHR '' '' \<notin> set (plan_Target releasePlan) \<and> CHR '' '' \<notin> set (plan_Application releasePlan)
      \<and> fst (EnsureReleasePlanAdmissionEnabled w) \<noteq> Continue
     \<longrightarrow> fst (getActiveReleasePlanAdmission w) = Inl (multipleFound releasePlan)
         \<or> (\<exists>c \<in> set (candidates releasePlan w).
               fst (getActiveReleasePlanAdmission w) = Inl (autoReleaseFalse c))"
    by (auto simp: getActiveReleasePlanAdmission_served EnsureReleasePlanAdmissionEnabled_def
        noneFound_unmarked ContinueProcessing_def split: list.splits if_splits)
  have marked: "served 2 w \<and> releasePlanOf w = Some releasePlan \<and> candidates releasePlan w = c # rest
      \<and> (map_of (rpa_Labels c) AutoReleaseLabel = Some ''false'' \<or> rest \<noteq> [])
      \<and> CHR '' '' \<notin> set (rpa_Name c)
     \<longrightarrow> EnsureReleasePlanAdmissionEnabled w
           = (if map_of (rpa_Labels c) AutoReleaseLabel = Some ''false''
              then markInvalid ReleaseReasonTargetDisabledError (autoReleaseFalse c) (after (resolving w) w)
              else markInvalid ReleaseReasonValidationError (multipleFound releasePlan) (after (resolving w) w))
       \<and> fst (EnsureReleasePlanAdmissionEnabled w) \<noteq> Continue
       \<and> calls (snd (EnsureReleasePlanAdmissionEnabled w)) = calls w @ resolving w @ [CallStatusPatch]"
  proof
    assume a: "served 2 w \<and> releasePlanOf w = Some releasePlan \<and> candidates releasePlan w = c # rest
      \<and> (map_of (rpa_Labels c) AutoReleaseLabel = Some ''false'' \<or> rest \<noteq> [])
      \<and> CHR '' '' \<notin> set (rpa_Name c)"
    let ?reason = "if map_of (rpa_Labels c) AutoReleaseLabel = Some ''false''
                   then ReleaseReasonTargetDisabledError else ReleaseReasonValidationError"
    let ?e = "if map_of (rpa_Labels c) AutoReleaseLabel = Some ''false''
              then autoReleaseFalse c else multipleFound releasePlan"
    have g: "getActiveReleasePlanAdmission w = (Inl ?e, after (resolving w) w)"
      using a by (auto simp: getActiveReleasePlanAdmission_served)
    have e: "EnsureReleasePlanAdmissionEnabled w = markInvalid ?reason ?e (after (resolving w) w)"
      using a g autoReleaseFalse_unmarked [of c] autoReleaseFalse_marked(1) [of c]
        multipleFound_marked [of releasePlan]
      by (simp add: EnsureReleasePlanAdmissionEnabled_def)
    obtain r1 w1 where m: "markInvalid ?reason ?e (after (resolving w) w) = (r1, w1)"
      by (cases "markInvalid ?reason ?e (after (resolving w) w)")
    have "r1 \<noteq> Continue" "calls w1 = calls w @ resolving w @ [CallStatusPatch]"
      using markInvalid_result [OF m] by auto
    then show "EnsureReleasePlanAdmissionEnabled w
           = (if map_of (rpa_Labels c) AutoReleaseLabel = Some ''false''
              then markInvalid ReleaseReasonTargetDisabledError (autoReleaseFalse c) (after (resolving w) w)
              else markInvalid ReleaseReasonValidationError (multipleFound releasePlan) (after (resolving w) w))
       \<and> fst (EnsureReleasePlanAdmissionEnabled w) \<noteq> Continue
       \<and> calls (snd (EnsureReleasePlanAdmissionEnabled w)) = calls w @ resolving w @ [CallStatusPatch]"
      using e m by (auto split: if_splits)
  qed
  from none blank_free only modes marked show ?thesis by (intro conjI)
qed

theorem no_admission_continues_witness:
  "served 2 (admissions_world []) \<and> releasePlanOf (admissions_world []) = Some example_plan
   \<and> candidates example_plan (admissions_world []) = []
   \<and> fst (getActiveReleasePlanAdmission (admissions_world [])) = Inl (noneFound example_plan)
   \<and> EnsureReleasePlanAdmissionEnabled (admissions_world [])
       = (Continue, (admissions_world [])
            \<lparr>calls := [CallGet KReleasePlan ''dev'' ''plan'', CallList KReleasePlanAdmission]\<rparr>)
   \<and> fst (EnsureReleasePlanAdmissionEnabled (admissions_world [example_admission, second_admission])) = Stop
   \<and> fst (getActiveReleasePlanAdmission (admissions_world [example_admission, second_admission]))
       = Inl (multipleFound example_plan)
   \<and> EnsureReleasePlanAdmissionEnabled (admissions_world [opted_out_admission])
       = markInvalid ReleaseReasonTargetDisabledError (autoReleaseFalse opted_out_admission)
           ((admissions_world [opted_out_admission])
              \<lparr>calls := [CallGet KReleasePlan ''dev'' ''plan'', CallList KReleasePlanAdmission]\<rparr>)"
proof -
  let ?w = "admissions_world []"
  let ?v = "admissions_world [example_admission, second_admission]"
  let ?u = "admissions_world [opted_out_admission]"
  have z: "served 2 ?w \<and> releasePlanOf ?w = Some example_plan \<and> candidates example_plan ?w = []"
    by (simp add: admission_defs)
  have h: "served 2 ?w \<and> releasePlanOf ?w = Some example_plan \<and> candidates example_plan ?w = []
           \<and> CHR '' '' \<notin> set (plan_Target example_plan) \<and> CHR '' '' \<notin> set (plan_Application example_plan)"
    by (simp add: admission_defs)
  have a: "after (resolving x) x
             = x\<lparr>calls := [CallGet KReleasePlan ''dev'' ''plan'', CallList KReleasePlanAdmission]\<rparr>"
    if "x \<in> {?w, ?u}" for x
    using that by (auto simp: admission_defs)
  have stop: "fst (EnsureReleasePlanAdmissionEnabled ?v) = Stop"
    by (simp add: admission_defs evaluation_defs)
  have k: "served 2 ?v \<and> releasePlanOf ?v = Some example_plan
           \<and> CHR '' '' \<notin> set (plan_Target example_plan) \<and> CHR '' '' \<notin> set (plan_Application example_plan)
           \<and> fst (EnsureReleasePlanAdmissionEnabled ?v) \<noteq> Continue"
    using stop by (simp add: admission_defs)
  have c: "\<forall>c \<in> set (candidates example_plan ?v).
             fst (getActiveReleasePlanAdmission ?v) \<noteq> Inl (autoReleaseFalse c)"
    by (simp add: admission_defs evaluation_defs)
  have E: "EnsureReleasePlanAdmissionEnabled ?v
             = (fst (EnsureReleasePlanAdmissionEnabled ?v), snd (EnsureReleasePlanAdmissionEnabled ?v))
           \<and> (fst (EnsureReleasePlanAdmissionEnabled ?v) \<noteq> Continue
               \<or> release (snd (EnsureReleasePlanAdmissionEnabled ?v)) \<noteq> release ?v
               \<or> cluster (snd (EnsureReleasePlanAdmissionEnabled ?v)) \<noteq> cluster ?v
               \<or> CallStatusPatch \<in> set (drop (length (calls ?v)) (calls (snd (EnsureReleasePlanAdmissionEnabled ?v)))))"
    using stop by (metis OperationResult.distinct(1) prod.collapse)
  have o: "served 2 ?u \<and> releasePlanOf ?u = Some example_plan
           \<and> candidates example_plan ?u = opted_out_admission # []
           \<and> (map_of (rpa_Labels opted_out_admission) AutoReleaseLabel = Some ''false'' \<or> [] \<noteq> [])
           \<and> CHR '' '' \<notin> set (rpa_Name opted_out_admission)"
    by (simp add: admission_defs)
  have l: "map_of (rpa_Labels opted_out_admission) AutoReleaseLabel = Some ''false''"
    by (simp add: admission_defs)
  from no_admission_continues [of ?w example_plan, THEN conjunct1, THEN mp, OF z]
       no_admission_continues [of ?w example_plan, THEN conjunct2, THEN conjunct1, THEN mp, OF h]
       no_admission_continues [of ?v _ "fst (EnsureReleasePlanAdmissionEnabled ?v)"
          "snd (EnsureReleasePlanAdmissionEnabled ?v)", THEN conjunct2, THEN conjunct2, THEN conjunct1, THEN mp, OF E]
       no_admission_continues [of ?v example_plan, THEN conjunct2, THEN conjunct2, THEN conjunct2,
          THEN conjunct1, THEN mp, OF k]
       no_admission_continues [of ?u example_plan _ _ opted_out_admission "[]", THEN conjunct2, THEN conjunct2,
          THEN conjunct2, THEN conjunct2, THEN mp, OF o]
       h a [of ?w] a [of ?u] stop c l
  show ?thesis by (auto simp: ContinueProcessing_def)
qed

text \<open>
  C5 as the spec states it does not hold: a plan whose target holds the text "multiple
  ReleasePlanAdmissions found" has no candidate at all, the resolution fails with the
  no-admission error, which names that target, and the gating operation marks the
  Release invalid with the validation reason and stops.
\<close>

theorem no_admission_marked_invalid_counterexample:
  "releasePlanOf blank_target_world = Some blank_target_plan
   \<and> candidates blank_target_plan blank_target_world = []
   \<and> fst (getActiveReleasePlanAdmission blank_target_world)
       = Inl (Errorf (''no ReleasePlanAdmission found in the target (multiple ReleasePlanAdmissions found)''
                      @ '' for application '' @ [CHR 0x27] @ ''web'' @ [CHR 0x27]))
   \<and> fst (EnsureReleasePlanAdmissionEnabled blank_target_world) = Stop
   \<and> st_Released (rel_Status (release (snd (EnsureReleasePlanAdmissionEnabled blank_target_world))))
       = Some (ConditionFalse, ReleaseReasonValidationError,
               ''no ReleasePlanAdmission found in the target (multiple ReleasePlanAdmissions found)''
                 @ '' for application '' @ [CHR 0x27] @ ''web'' @ [CHR 0x27])
   \<and> stored (cluster (snd (EnsureReleasePlanAdmissionEnabled blank_target_world)))
       = Some (release (snd (EnsureReleasePlanAdmissionEnabled blank_target_world)))"
  by (simp add: blank_target_world_def blank_target_plan_def admission_defs evaluation_defs)





subsection \<open>Triggering the execution\<close>

lemma getReleaseStrategy_reads: "getReleaseStrategy a w = (r, w') \<Longrightarrow> reads w w'"
  by (auto simp: getReleaseStrategy_def dest: client_Get_reads)

lemma getEnterpriseContractPolicy_reads: "getEnterpriseContractPolicy s w = (r, w') \<Longrightarrow> reads w w'"
  by (auto simp: getEnterpriseContractPolicy_def dest: client_Get_reads)

lemma getSnapshot_reads: "getSnapshot w = (r, w') \<Longrightarrow> reads w w'"
  by (auto simp: getSnapshot_def dest: client_Get_reads)

lemma getEnvironment_reads: "getEnvironment a w = (r, w') \<Longrightarrow> reads w w'"
  by (auto simp: getEnvironment_def dest: client_Get_reads)

lemma getApplication_reads: "getApplication a w = (r, w') \<Longrightarrow> reads w w'"
  by (auto simp: getApplication_def dest: client_Get_reads)

lemma getApplicationComponents_reads: "getApplicationComponents a w = (r, w') \<Longrightarrow> reads w w'"
  by (auto simp: getApplicationComponents_def dest: client_List_reads)

lemma getReleasePipelineRun_reads: "getReleasePipelineRun w = (r, w') \<Longrightarrow> reads w w'"
  by (auto simp: getReleasePipelineRun_def split: prod.splits sum.splits list.splits
      dest: client_List_reads)

lemma getSnapshotEnvironmentBinding_reads:
  "getSnapshotEnvironmentBinding env a w = (r, w') \<Longrightarrow> reads w w'"
  by (auto simp: getSnapshotEnvironmentBinding_def split: prod.splits sum.splits
      dest: client_List_reads)







subsection \<open>Creating at most once\<close>

lemma transient_drop: "transient w \<Longrightarrow> faults w' = drop n (faults w) \<Longrightarrow> transient w'"
  unfolding transient_def by (auto dest: in_set_dropD)

lemma same_spec_refl: "same_spec r r"
  by (simp add: same_spec_def)

lemma same_spec_trans: "same_spec r r' \<Longrightarrow> same_spec r' r'' \<Longrightarrow> same_spec r r''"
  by (simp add: same_spec_def)

lemma updates_refl: "updates w w"
  unfolding updates_def by (auto simp: same_spec_refl intro: exI [of _ 0])

lemma updates_trans:
  assumes "updates w w1" and "updates w1 w2"
  shows "updates w w2"
proof -
  obtain n where n: "faults w1 = drop n (faults w)"
    using assms(1) unfolding updates_def by blast
  obtain m where m: "faults w2 = drop m (faults w1)"
    using assms(2) unfolding updates_def by blast
  have "faults w2 = drop (n + m) (faults w)"
    using n m by (simp add: add.commute)
  then have f: "\<exists>k. faults w2 = drop k (faults w)" by blast
  have k: "rel_Name (release w2) = rel_Name (release w)"
    "rel_Namespace (release w2) = rel_Namespace (release w)"
    "static (cluster w2) = static (cluster w)"
    using assms unfolding updates_def by simp_all
  have c: "consistent w \<longrightarrow> consistent w2 \<and> same_spec (release w) (release w2)"
    using assms same_spec_trans unfolding updates_def by blast
  from f k c show ?thesis
    unfolding updates_def by blast
qed

lemma stored_release_same:
  assumes "rel_Name (release w') = rel_Name (release w)"
    and "rel_Namespace (release w') = rel_Namespace (release w)"
    and "stored (cluster w') = stored (cluster w)"
  shows "stored_release w' = stored_release w"
  by (simp only: stored_release_def assms)

lemma consistent_same:
  assumes c: "consistent w" and s: "same_spec (release w) (release w')"
    and t: "stored (cluster w') = stored (cluster w)"
  shows "consistent w'"
proof -
  have e: "stored_release w' = stored_release w"
    using s t by (intro stored_release_same) (simp_all only: same_spec_def)
  have "same_spec (release w') x" if "stored_release w' = Some x" for x
  proof -
    have "same_spec (release w) x"
      using c that e unfolding consistent_def by simp
    then show ?thesis
      using s unfolding same_spec_def by metis
  qed
  then show ?thesis
    unfolding consistent_def by blast
qed

lemma updates_static:
  assumes "same_spec (release w) (release w')" and "static (cluster w') = static (cluster w)"
    and "stored (cluster w') = stored (cluster w)" and "faults w' = drop n (faults w)"
  shows "updates w w'"
proof -
  have "consistent w \<longrightarrow> consistent w' \<and> same_spec (release w) (release w')"
    using assms(1,3) consistent_same [of w w'] by simp
  moreover have "rel_Name (release w') = rel_Name (release w)"
    "rel_Namespace (release w') = rel_Namespace (release w)"
    using assms(1) by (simp_all add: same_spec_def)
  moreover have "\<exists>n. faults w' = drop n (faults w)"
    using assms(4) by blast
  ultimately show ?thesis
    unfolding updates_def using assms(2) by blast
qed

lemma updates_same:
  assumes "same_spec (release w) (release w')" and "cluster w' = cluster w"
    and "faults w' = drop n (faults w)"
  shows "updates w w'"
  using updates_static [of w w' n] assms by simp

lemma reads_updates: "reads w w' \<Longrightarrow> updates w w'"
proof -
  assume "reads w w'"
  then obtain n where "release w' = release w" "cluster w' = cluster w" "faults w' = drop n (faults w)"
    unfolding reads_def by blast
  then show ?thesis
    using updates_same [of w w' n] by (simp add: same_spec_refl)
qed

lemma reads_transient: "reads w w' \<Longrightarrow> transient w \<Longrightarrow> transient w'"
  unfolding reads_def using transient_drop by blast

lemma updates_transient: "updates w w' \<Longrightarrow> transient w \<Longrightarrow> transient w'"
  unfolding updates_def using transient_drop by blast

lemma updates_status:
  "updates w (w\<lparr>release := (release w)\<lparr>rel_Status := st\<rparr>\<rparr>)"
  by (rule updates_same [where n = 0]) (simp_all add: same_spec_def)

lemma client_Status_Patch_updates:
  "client_Status_Patch original w = (f, w') \<Longrightarrow>
     updates w w' \<and> pipelineRuns (cluster w') = pipelineRuns (cluster w)
     \<and> bindings (cluster w') = bindings (cluster w) \<and> snapshots (cluster w') = snapshots (cluster w)"
proof (cases f)
  case None
  assume "client_Status_Patch original w = (f, w')"
  with None obtain s where s: "stored_release w = Some s"
      "release w' = s\<lparr>rel_Status := merge_status (rel_Status original) (rel_Status (release w)) (rel_Status s)\<rparr>"
      "cluster w' = (cluster w)\<lparr>stored := Some (release w')\<rparr>"
      "faults w' = tl (faults w)"
    using client_Status_Patch_served by blast
  have key: "rel_Name s = rel_Name (release w)" "rel_Namespace s = rel_Namespace (release w)"
    using s(1) by (auto simp: stored_release_def split: option.splits if_splits)
  have "consistent w'"
    using s(2,3) by (simp add: consistent_def stored_release_def same_spec_def)
  moreover have "same_spec (release w) (release w')" if "consistent w"
    using that s(1,2) by (simp add: consistent_def same_spec_def)
  moreover have "faults w' = drop 1 (faults w)"
    using s(4) by (simp add: drop_Suc)
  ultimately show ?thesis
    unfolding updates_def using s(2,3) key by (auto simp: static_def)
next
  case (Some e)
  assume "client_Status_Patch original w = (f, w')"
  with Some have "release w' = release w \<and> cluster w' = cluster w \<and> faults w' = drop 1 (faults w)"
    using client_Status_Patch_failed [of original w e w'] by (simp add: drop_Suc)
  then show ?thesis
    using updates_same [of w w' 1] by (simp add: same_spec_refl)
qed


lemma updates_release: "same_spec (release w) r' \<Longrightarrow> updates w (w\<lparr>release := r'\<rparr>)"
  by (rule updates_same [where n = 0]) simp_all

lemma updates_fields:
  "updates w w' \<Longrightarrow> rel_Name (release w') = rel_Name (release w)
     \<and> rel_Namespace (release w') = rel_Namespace (release w)
     \<and> static (cluster w') = static (cluster w)"
  unfolding updates_def by blast

lemma call_error: "call c w = (Some e, w') \<Longrightarrow> Some e \<in> set (faults w)"
  by (auto simp: call_def split: list.splits)

lemma client_List_error:
  "client_List k objects selector limit w = (Inl e, w') \<Longrightarrow> Some e \<in> set (faults w)"
  by (auto simp: client_List_def Let_def split: prod.splits option.splits dest: call_error)

lemma client_List_items:
  "client_List k objects selector limit w = (Inr items, w') \<Longrightarrow>
     items = (case limit of None \<Rightarrow> filter selector (objects (cluster w))
              | Some n \<Rightarrow> take n (filter selector (objects (cluster w))))"
  by (auto simp: client_List_def Let_def split: prod.splits option.splits dest!: call_result)

lemma getReleasePipelineRun_error:
  "getReleasePipelineRun w = (Inl e, w') \<Longrightarrow> Some e \<in> set (faults w)"
  by (auto simp: getReleasePipelineRun_def split: prod.splits sum.splits list.splits
      dest: client_List_error)

lemma getReleasePipelineRun_absent:
  assumes "getReleasePipelineRun w = (Inr None, w')"
  shows "\<forall>p \<in> set (pipelineRuns (cluster w)). \<not> labelled (release w) p"
proof -
  let ?sel = "\<lambda>x. MatchingLabels [(ReleaseNameLabel, rel_Name (release w)),
                                   (ReleaseNamespaceLabel, rel_Namespace (release w))] (pr_Labels x)"
  obtain items w1 where l: "client_List KPipelineRun pipelineRuns ?sel (Some 1) w = (Inr items, w1)"
    and i: "items = []"
    using assms by (auto simp: getReleasePipelineRun_def split: prod.splits sum.splits list.splits)
  have "take 1 (filter ?sel (pipelineRuns (cluster w))) = []"
    using client_List_items [OF l] i by simp
  then have "filter ?sel (pipelineRuns (cluster w)) = []"
    by simp
  then show ?thesis
    unfolding labelled_def by (simp add: filter_empty_conv)
qed

lemma same_spec_marks:
  "same_spec r (MarkInvalid reason message r)"
  "same_spec r (MarkRunning now r)"
  "same_spec r (MarkSucceeded r)"
  "same_spec r (MarkFailed reason message r)"
  "same_spec r (r\<lparr>rel_Status := st\<rparr>)"
  by (simp_all add: same_spec_def MarkInvalid_def MarkRunning_def MarkSucceeded_def MarkFailed_def)

lemma quiet_refl: "quiet w w"
  by (simp add: quiet_def updates_refl)

lemma quiet_trans: "quiet w w1 \<Longrightarrow> quiet w1 w2 \<Longrightarrow> quiet w w2"
  unfolding quiet_def using updates_trans by auto

lemma reads_quiet: "reads w w' \<Longrightarrow> quiet w w'"
  unfolding quiet_def using reads_updates [of w w'] by (simp add: reads_def)

lemma release_quiet: "same_spec (release w) r' \<Longrightarrow> quiet w (w\<lparr>release := r'\<rparr>)"
  unfolding quiet_def using updates_release by simp

lemma client_Status_Patch_quiet: "client_Status_Patch original w = (f, w') \<Longrightarrow> quiet w w'"
  unfolding quiet_def using client_Status_Patch_updates by simp

lemma markInvalid_quiet:
  assumes "markInvalid reason e w = (r, w')"
  shows "quiet w w'"
proof -
  let ?v = "w\<lparr>release := MarkInvalid reason (Error e) (release w)\<rparr>"
  obtain pe where p: "client_Status_Patch (release w) ?v = (pe, w')"
    using assms by (auto simp: markInvalid_def Let_def split: prod.splits)
  show ?thesis
    by (rule quiet_trans [OF release_quiet [OF same_spec_marks(1)] client_Status_Patch_quiet [OF p]])
qed

lemma registerReleaseStatusData_quiet:
  assumes "registerReleaseStatusData p s w = (f, w')"
  shows "quiet w w'"
proof (cases "p = None \<or> s = None")
  case True
  then have "w' = w"
    using assms by (auto simp: registerReleaseStatusData_def split: option.splits)
  then show ?thesis by (simp add: quiet_refl)
next
  case False
  then obtain r' where p: "client_Status_Patch (release w) (w\<lparr>release := MarkRunning (clock w) r'\<rparr>) = (f, w')"
    and r': "same_spec (release w) r'"
    using assms by (auto simp: registerReleaseStatusData_def Let_def same_spec_marks)
  have "same_spec (release w) (MarkRunning (clock w) r')"
    using r' same_spec_marks(2) same_spec_trans by blast
  from quiet_trans [OF release_quiet [OF this] client_Status_Patch_quiet [OF p]]
  show ?thesis .
qed

lemma labelled_new:
  "labelled r (NewReleasePipelineRun name namespace r s p n)"
  by (simp add: labelled_def MatchingLabels_def NewReleasePipelineRun_def
      ReleaseNameLabel_def ReleaseNamespaceLabel_def)

lemma createReleasePipelineRun_effect:
  assumes "createReleasePipelineRun s p n w = (x, w')"
  shows "release w' = release w \<and> updates w w' \<and> bindings (cluster w') = bindings (cluster w)
         \<and> snapshots (cluster w') = snapshots (cluster w)
         \<and> (case x of
               Inl e \<Rightarrow> pipelineRuns (cluster w') = pipelineRuns (cluster w)
             | Inr created \<Rightarrow> pipelineRuns (cluster w') = pipelineRuns (cluster w) @ [created]
                              \<and> labelled (release w) created)"
proof -
  let ?obj = "NewReleasePipelineRun ''release-pipelinerun'' (strat_Namespace s) (release w) s p n"
  obtain f w1 where c: "call (CallCreate KPipelineRun) w = (f, w1)"
    by (cases "call (CallCreate KPipelineRun) w")
  note r = call_result [OF c]
  have d: "faults w1 = drop 1 (faults w)"
    using r by (simp add: drop_Suc)
  show ?thesis
  proof (cases f)
    case (Some e)
    then have "x = Inl e" "w' = w1"
      using assms c by (simp_all add: createReleasePipelineRun_def client_Create_PipelineRun_def)
    then show ?thesis
      using r d updates_same [of w w1 1] by (simp add: same_spec_refl)
  next
    case None
    let ?created = "?obj\<lparr>pr_Name := pr_GenerateName ?obj @ Itoa (serial (cluster w1))\<rparr>"
    have x: "x = Inr ?created"
      and w': "w' = w1\<lparr>cluster := (cluster w1)\<lparr>pipelineRuns := pipelineRuns (cluster w1) @ [?created],
                                               serial := Suc (serial (cluster w1))\<rparr>\<rparr>"
      using assms c None
      by (simp_all add: createReleasePipelineRun_def client_Create_PipelineRun_def Let_def r)
    have l: "labelled (release w) ?created"
      using labelled_new [of "release w"] by (simp add: labelled_def)
    have u: "updates w w'"
      by (rule updates_static [where n = 1]) (simp_all add: w' r drop_Suc same_spec_refl static_def)
    show ?thesis
      using x l u by (simp add: w' r)
  qed
qed


lemma labelled_updates: "updates w w' \<Longrightarrow> labelled (release w') p = labelled (release w) p"
  using updates_fields [of w w'] by (simp add: labelled_def)

lemma quiet_launched: "quiet w w1 \<Longrightarrow> launched w1 w2 \<Longrightarrow> launched w w2"
  unfolding quiet_def launched_def
  using updates_trans [of w w1 w2] labelled_updates [of w w1] by auto

lemma launched_quiet: "launched w w1 \<Longrightarrow> quiet w1 w2 \<Longrightarrow> launched w w2"
  unfolding quiet_def launched_def
  using updates_trans [of w w1 w2] by auto

lemma triggerReleasePipelineRun_effect:
  assumes "triggerReleasePipelineRun w = (r, w')"
  shows "quiet w w' \<or> launched w w'"
proof -
  obtain x1 w1 where g1: "getActiveReleasePlanAdmission w = (x1, w1)"
    by (cases "getActiveReleasePlanAdmission w")
  have q1: "quiet w w1"
    using getActiveReleasePlanAdmission_reads [OF g1] by (rule reads_quiet)
  show ?thesis
  proof (cases x1)
    case (Inl e)
    then have "markInvalid ReleaseReasonReleasePlanValidationError e w1 = (r, w')"
      using assms g1 by (simp add: triggerReleasePipelineRun_def)
    then show ?thesis
      using q1 markInvalid_quiet quiet_trans by blast
  next
    case (Inr a)
    obtain x2 w2 where g2: "getReleaseStrategy a w1 = (x2, w2)"
      by (cases "getReleaseStrategy a w1")
    have q2: "quiet w w2"
      using q1 getReleaseStrategy_reads [OF g2] reads_quiet quiet_trans by blast
    show ?thesis
    proof (cases x2)
      case (Inl e)
      then have "markInvalid ReleaseReasonValidationError e w2 = (r, w')"
        using assms g1 g2 \<open>x1 = Inr a\<close> by (simp add: triggerReleasePipelineRun_def)
      then show ?thesis
        using q2 markInvalid_quiet quiet_trans by blast
    next
      case (Inr s)
      note x2 = this
      obtain x3 w3 where g3: "getEnterpriseContractPolicy s w2 = (x3, w3)"
        by (cases "getEnterpriseContractPolicy s w2")
      have q3: "quiet w w3"
        using q2 getEnterpriseContractPolicy_reads [OF g3] reads_quiet quiet_trans by blast
      show ?thesis
      proof (cases x3)
        case (Inl e)
        then have "markInvalid ReleaseReasonValidationError e w3 = (r, w')"
          using assms g1 g2 g3 \<open>x1 = Inr a\<close> x2 by (simp add: triggerReleasePipelineRun_def)
        then show ?thesis
          using q3 markInvalid_quiet quiet_trans by blast
      next
        case (Inr p)
        note x3 = this
        obtain x4 w4 where g4: "getSnapshot w3 = (x4, w4)"
          by (cases "getSnapshot w3")
        have q4: "quiet w w4"
          using q3 getSnapshot_reads [OF g4] reads_quiet quiet_trans by blast
        show ?thesis
        proof (cases x4)
          case (Inl e)
          then have "markInvalid ReleaseReasonValidationError e w4 = (r, w')"
            using assms g1 g2 g3 g4 \<open>x1 = Inr a\<close> x2 x3 by (simp add: triggerReleasePipelineRun_def)
          then show ?thesis
            using q4 markInvalid_quiet quiet_trans by blast
        next
          case (Inr n)
          note x4 = this
          obtain x5 w5 where g5: "createReleasePipelineRun s p n w4 = (x5, w5)"
            by (cases "createReleasePipelineRun s p n w4")
          note c = createReleasePipelineRun_effect [OF g5]
          show ?thesis
          proof (cases x5)
            case (Inl e)
            then have "w' = w5"
              using assms g1 g2 g3 g4 g5 \<open>x1 = Inr a\<close> x2 x3 x4
              by (simp add: triggerReleasePipelineRun_def)
            moreover have "quiet w4 w5"
              using c Inl by (simp add: quiet_def)
            ultimately show ?thesis
              using q4 quiet_trans by blast
          next
            case (Inr created)
            then obtain f where "registerReleaseStatusData (Some created) (Some s) w5 = (f, w')"
              using assms g1 g2 g3 g4 g5 \<open>x1 = Inr a\<close> x2 x3 x4
              by (auto simp: triggerReleasePipelineRun_def split: prod.splits)
            then have "quiet w5 w'"
              by (rule registerReleaseStatusData_quiet)
            moreover have "launched w4 w5"
              using c Inr by (simp add: launched_def)
            ultimately show ?thesis
              using q4 quiet_launched launched_quiet by blast
          qed
        qed
      qed
    qed
  qed
qed

lemma EnsureReleasePipelineRunExists_effect:
  assumes "EnsureReleasePipelineRunExists w = (r, w')"
  shows "quiet w w' \<or> launched w w'"
proof -
  obtain l w1 where g: "getReleasePipelineRun w = (l, w1)"
    by (cases "getReleasePipelineRun w")
  have q: "quiet w w1"
    using getReleasePipelineRun_reads [OF g] by (rule reads_quiet)
  consider (failed) e where "l = Inl e" "\<not> IsNotFound e"
    | (absent) "l = Inr None \<or> (\<exists>e. l = Inl e \<and> IsNotFound e)"
    | (found) p where "l = Inr (Some p)"
  proof (cases l)
    case (Inl e)
    then show ?thesis using failed absent by (cases "IsNotFound e") auto
  next
    case (Inr b)
    then show ?thesis using absent found by (cases b) auto
  qed
  then show ?thesis
  proof cases
    case failed
    then have "w' = w1"
      using assms g by (simp add: EnsureReleasePipelineRunExists_def)
    then show ?thesis using q by simp
  next
    case absent
    then have "triggerReleasePipelineRun w1 = (r, w')"
      using assms g by (auto simp: EnsureReleasePipelineRunExists_def)
    then show ?thesis
      using triggerReleasePipelineRun_effect q quiet_trans quiet_launched by blast
  next
    case found
    then have "w' = w1"
      using assms g by (simp add: EnsureReleasePipelineRunExists_def registerReleaseStatusData_def)
    then show ?thesis using q by simp
  qed
qed

lemma EnsureReleasePipelineRunExists_found:
  assumes "transient w" and "\<exists>p \<in> set (pipelineRuns (cluster w)). labelled (release w) p"
    and "EnsureReleasePipelineRunExists w = (r, w')"
  shows "reads w w'"
proof -
  obtain l w1 where g: "getReleasePipelineRun w = (l, w1)"
    by (cases "getReleasePipelineRun w")
  note q = getReleasePipelineRun_reads [OF g]
  have "l \<noteq> Inr None"
    using getReleasePipelineRun_absent [of w w1] g assms(2) by auto
  moreover have "\<not> IsNotFound e" if "l = Inl e" for e
    using getReleasePipelineRun_error [of w e w1] g that assms(1) by (simp add: transient_def)
  ultimately consider (failed) e where "l = Inl e" "\<not> IsNotFound e" | (found) p where "l = Inr (Some p)"
    by (cases l) auto
  then show ?thesis
  proof cases
    case failed
    then have "w' = w1"
      using assms(3) g by (simp add: EnsureReleasePipelineRunExists_def)
    then show ?thesis using q by simp
  next
    case found
    then have "w' = w1"
      using assms(3) g by (simp add: EnsureReleasePipelineRunExists_def registerReleaseStatusData_def)
    then show ?thesis using q by simp
  qed
qed

lemma at_most_one_execution:
  assumes "transient w"
  shows "\<exists>ps. pipelineRuns (cluster (snd (EnsureReleasePipelineRunExists
                  (snd (EnsureReleasePipelineRunExists w)))))
               = pipelineRuns (cluster w) @ ps \<and> length ps \<le> 1"
proof -
  obtain r1 w1 where e1: "EnsureReleasePipelineRunExists w = (r1, w1)"
    by (cases "EnsureReleasePipelineRunExists w")
  obtain r2 w2 where e2: "EnsureReleasePipelineRunExists w1 = (r2, w2)"
    by (cases "EnsureReleasePipelineRunExists w1")
  note f1 = EnsureReleasePipelineRunExists_effect [OF e1]
  note f2 = EnsureReleasePipelineRunExists_effect [OF e2]
  have t1: "transient w1"
    using f1 assms updates_transient unfolding quiet_def launched_def by blast
  have "\<exists>ps. pipelineRuns (cluster w2) = pipelineRuns (cluster w) @ ps \<and> length ps \<le> 1"
  proof (cases "quiet w w1")
    case True
    then have same: "pipelineRuns (cluster w1) = pipelineRuns (cluster w)"
      by (simp add: quiet_def)
    from f2 show ?thesis
    proof
      assume "quiet w1 w2"
      then have "pipelineRuns (cluster w2) = pipelineRuns (cluster w) @ []"
        using same by (simp add: quiet_def)
      then show ?thesis by (intro exI [of _ "[]"]) simp
    next
      assume "launched w1 w2"
      then obtain p where "pipelineRuns (cluster w2) = pipelineRuns (cluster w) @ [p]"
        using same unfolding launched_def by auto
      then show ?thesis by (intro exI [of _ "[p]"]) simp
    qed
  next
    case False
    then have "launched w w1" using f1 by blast
    then obtain p where p: "pipelineRuns (cluster w1) = pipelineRuns (cluster w) @ [p]"
      "labelled (release w) p" and u: "updates w w1"
      unfolding launched_def by auto
    have "labelled (release w1) p"
      using labelled_updates [OF u] p(2) by simp
    then have "\<exists>p \<in> set (pipelineRuns (cluster w1)). labelled (release w1) p"
      using p(1) by auto
    from EnsureReleasePipelineRunExists_found [OF t1 this e2]
    have "pipelineRuns (cluster w2) = pipelineRuns (cluster w) @ [p]"
      using p(1) by (simp add: reads_def)
    then show ?thesis by (intro exI [of _ "[p]"]) simp
  qed
  then show ?thesis
    using e1 e2 by simp
qed


lemma client_Get_found:
  "client_Get k objects namespace_of name_of namespace name w = (Inr x, w') \<Longrightarrow>
     find (\<lambda>x. namespace_of x = namespace \<and> name_of x = name) (objects (cluster w)) = Some x"
  by (auto simp: client_Get_def split: prod.splits option.splits dest!: call_result)

lemma getActiveReleasePlanAdmission_activeOf:
  assumes "getActiveReleasePlanAdmission w = (Inr a, w')"
  shows "activeOf w = Some a"
proof -
  obtain releasePlan w1 where g: "getReleasePlan w = (Inr releasePlan, w1)"
    using assms by (auto simp: getActiveReleasePlanAdmission_def split: prod.splits sum.splits)
  let ?sel = "\<lambda>x. rpa_Namespace x = plan_Target releasePlan \<and> rpa_Origin x = plan_Namespace releasePlan"
  obtain items w2 where l: "client_List KReleasePlanAdmission releasePlanAdmissions ?sel None w1 = (Inr items, w2)"
    and a: "activeLoop releasePlan items None = Inr (Some a)"
    using assms g
    by (auto simp: getActiveReleasePlanAdmission_def split: prod.splits sum.splits option.splits)
  have p: "releasePlanOf w = Some releasePlan"
    using g client_Get_found unfolding getReleasePlan_def releasePlanOf_def by fastforce
  have "cluster w1 = cluster w"
    using getReleasePlan_reads [OF g] by (simp add: reads_def)
  then have i: "items = filter ?sel (releasePlanAdmissions (cluster w))"
    using client_List_items [OF l] by simp
  have "filter (\<lambda>x. rpa_Application x = plan_Application releasePlan) items = [a]
        \<and> map_of (rpa_Labels a) AutoReleaseLabel \<noteq> Some ''false''"
    using a by (auto simp: activeLoop_None split: list.splits if_splits)
  then show ?thesis
    using p i by (simp add: activeOf_def candidates_def del: filter_filter)
qed

lemma activeOf_application:
  "activeOf w = Some a \<Longrightarrow> releasePlanOf w = Some releasePlan
   \<Longrightarrow> rpa_Application a = plan_Application releasePlan"
proof -
  assume a: "activeOf w = Some a" and p: "releasePlanOf w = Some releasePlan"
  then have "candidates releasePlan w = [a]"
    by (auto simp: activeOf_def split: list.splits if_splits)
  then have "a \<in> set (candidates releasePlan w)" by simp
  then show ?thesis by (simp add: candidates_def)
qed

lemma getEnvironment_environmentOf:
  "getEnvironment a w = (Inr env, w') \<Longrightarrow> environmentOf a w = Some env"
  using client_Get_found unfolding getEnvironment_def environmentOf_def by fastforce

lemma getSnapshot_snapshotOf:
  "getSnapshot w = (Inr s, w') \<Longrightarrow> snapshotOf w = Some s"
  using client_Get_found unfolding getSnapshot_def snapshotOf_def by fastforce

lemma getSnapshotEnvironmentBinding_error:
  "getSnapshotEnvironmentBinding env a w = (Inl e, w') \<Longrightarrow> Some e \<in> set (faults w)"
  by (auto simp: getSnapshotEnvironmentBinding_def split: prod.splits sum.splits
      dest: client_List_error)

lemma getSnapshotEnvironmentBinding_absent:
  assumes "getSnapshotEnvironmentBinding env a w = (Inr None, w')"
  shows "\<not> (\<exists>b \<in> set (bindings (cluster w)). bound env a b)"
proof -
  let ?sel = "\<lambda>x. seb_Namespace x = env_Namespace env \<and> seb_Environment x = env_Name env"
  obtain items w1 where l: "client_List KSnapshotEnvironmentBinding bindings ?sel None w = (Inr items, w1)"
    and n: "find (\<lambda>b. seb_Application b = rpa_Application a) items = None"
    using assms by (auto simp: getSnapshotEnvironmentBinding_def split: prod.splits sum.splits)
  have "items = filter ?sel (bindings (cluster w))"
    using client_List_items [OF l] by simp
  then show ?thesis
    using n by (auto simp: find_None_iff bound_def)
qed

lemma releasePlanOf_updates:
  assumes "updates w w'" and "consistent w"
  shows "releasePlanOf w' = releasePlanOf w"
proof -
  have "same_spec (release w) (release w')" "static (cluster w') = static (cluster w)"
    using assms unfolding updates_def by simp_all
  then have "rel_Namespace (release w') = rel_Namespace (release w)"
    "rel_ReleasePlan (release w') = rel_ReleasePlan (release w)"
    "releasePlans (cluster w') = releasePlans (cluster w)"
    by (simp_all add: same_spec_def static_def)
  then show ?thesis
    by (simp only: releasePlanOf_def)
qed

lemma candidates_updates:
  assumes "updates w w'"
  shows "candidates releasePlan w' = candidates releasePlan w"
proof -
  have "static (cluster w') = static (cluster w)"
    using assms unfolding updates_def by simp
  then have "releasePlanAdmissions (cluster w') = releasePlanAdmissions (cluster w)"
    by (simp add: static_def)
  then show ?thesis
    by (simp only: candidates_def)
qed

lemma activeOf_updates:
  assumes "updates w w'" and "consistent w"
  shows "activeOf w' = activeOf w"
  by (simp only: activeOf_def releasePlanOf_updates [OF assms] candidates_updates [OF assms(1)])

lemma environmentOf_updates:
  assumes "updates w w'"
  shows "environmentOf a w' = environmentOf a w"
proof -
  have "static (cluster w') = static (cluster w)"
    using assms unfolding updates_def by simp
  then have "environments (cluster w') = environments (cluster w)"
    by (simp add: static_def)
  then show ?thesis
    by (simp only: environmentOf_def)
qed


lemma find_append_Some: "find P xs = Some x \<Longrightarrow> find P (xs @ ys) = Some x"
  by (induction xs) auto

lemma SyncSnapshot_effect:
  assumes "SyncSnapshot s namespace w = (f, w')"
  shows "release w' = release w \<and> updates w w'
         \<and> pipelineRuns (cluster w') = pipelineRuns (cluster w)
         \<and> bindings (cluster w') = bindings (cluster w)
         \<and> (\<exists>extra. snapshots (cluster w') = snapshots (cluster w) @ extra)"
proof -
  obtain g w1 where c: "call (CallSyncSnapshot (snap_Name s) namespace) w = (g, w1)"
    by (cases "call (CallSyncSnapshot (snap_Name s) namespace) w")
  note r = call_result [OF c]
  have q: "release w1 = release w \<and> updates w w1 \<and> cluster w1 = cluster w"
    using r updates_same [of w w1 1] by (simp add: drop_Suc same_spec_refl)
  let ?exists = "\<exists>x \<in> set (snapshots (cluster w1)). snap_Namespace x = namespace \<and> snap_Name x = snap_Name s"
  let ?w2 = "w1\<lparr>cluster := (cluster w1)\<lparr>snapshots := snapshots (cluster w1) @ [s\<lparr>snap_Namespace := namespace\<rparr>]\<rparr>\<rparr>"
  have w': "w' = w1 \<or> w' = ?w2"
    using assms c by (auto simp: SyncSnapshot_def Let_def split: option.splits if_splits)
  have u2: "updates w1 ?w2"
    by (rule updates_static [where n = 0]) (simp_all add: same_spec_refl static_def)
  from w' show ?thesis
  proof
    assume "w' = w1"
    then show ?thesis using q by simp
  next
    assume "w' = ?w2"
    then show ?thesis
      using q u2 updates_trans [of w w1 ?w2] by simp
  qed
qed

lemma snapshotOf_extended:
  assumes "snapshotOf w = Some s" and "rel_Namespace (release w') = rel_Namespace (release w)"
    and "rel_Snapshot (release w') = rel_Snapshot (release w)"
    and "snapshots (cluster w') = snapshots (cluster w) @ extra"
  shows "snapshotOf w' = Some s"
  using assms(1) find_append_Some
  by (simp only: snapshotOf_def assms(2,3,4))

lemma syncResources_effect:
  assumes "syncResources w = (f, w')"
  shows "release w' = release w \<and> updates w w'
         \<and> pipelineRuns (cluster w') = pipelineRuns (cluster w)
         \<and> bindings (cluster w') = bindings (cluster w)
         \<and> (f = None \<longrightarrow> (\<exists>s. snapshotOf w = Some s \<and> snapshotOf w' = Some s))"
proof -
  obtain x1 w1 where g1: "getActiveReleasePlanAdmission w = (x1, w1)"
    by (cases "getActiveReleasePlanAdmission w")
  note r1 = getActiveReleasePlanAdmission_reads [OF g1]
  show ?thesis
  proof (cases x1)
    case (Inl e)
    then have "f = Some e" "w' = w1"
      using assms g1 by (simp_all add: syncResources_def)
    then show ?thesis
      using r1 reads_updates [OF r1] by (simp add: reads_def)
  next
    case (Inr a)
    note x1 = this
    obtain x2 w2 where g2: "getSnapshot w1 = (x2, w2)"
      by (cases "getSnapshot w1")
    have r2: "reads w w2"
      using r1 getSnapshot_reads [OF g2] reads_trans by blast
    show ?thesis
    proof (cases x2)
      case (Inl e)
      then have "f = Some e" "w' = w2"
        using assms g1 g2 x1 by (simp_all add: syncResources_def)
      then show ?thesis
        using r2 reads_updates [OF r2] by (simp add: reads_def)
    next
      case (Inr s)
      then have y: "SyncSnapshot s (rpa_Namespace a) w2 = (f, w')"
        using assms g1 g2 x1 by (simp add: syncResources_def)
      note e = SyncSnapshot_effect [OF y]
      have "snapshotOf w1 = Some s"
        using g2 Inr getSnapshot_snapshotOf by simp
      then have s1: "snapshotOf w = Some s"
        using r1 by (simp add: snapshotOf_def reads_def)
      then have s2: "snapshotOf w2 = Some s"
        using r2 by (simp add: snapshotOf_def reads_def)
      obtain extra where x: "snapshots (cluster w') = snapshots (cluster w2) @ extra"
        using e by blast
      have "snapshotOf w' = Some s"
        using snapshotOf_extended [OF s2 _ _ x] e by simp
      then show ?thesis
        using e s1 r2 reads_updates [OF r2] updates_trans [of w w2 w'] by (simp add: reads_def)
    qed
  qed
qed

lemma getSnapshotEnvironmentResources_result:
  assumes "getSnapshotEnvironmentResources a w = (x, w')"
  shows "reads w w' \<and> (\<forall>application cs s. x = Inr (application, cs, s) \<longrightarrow> snapshotOf w = Some s)"
proof -
  obtain x1 w1 where g1: "getApplication a w = (x1, w1)"
    by (cases "getApplication a w")
  note r1 = getApplication_reads [OF g1]
  show ?thesis
  proof (cases x1)
    case (Inl e)
    then show ?thesis
      using assms g1 r1 by (auto simp: getSnapshotEnvironmentResources_def)
  next
    case (Inr application)
    note x1 = this
    obtain x2 w2 where g2: "getApplicationComponents application w1 = (x2, w2)"
      by (cases "getApplicationComponents application w1")
    have r2: "reads w w2"
      using r1 getApplicationComponents_reads [OF g2] reads_trans by blast
    show ?thesis
    proof (cases x2)
      case (Inl e)
      then show ?thesis
        using assms g1 g2 x1 r2 by (auto simp: getSnapshotEnvironmentResources_def)
    next
      case (Inr cs)
      note x2 = this
      obtain x3 w3 where g3: "getSnapshot w2 = (x3, w3)"
        by (cases "getSnapshot w2")
      have r3: "reads w w3"
        using r2 getSnapshot_reads [OF g3] reads_trans by blast
      show ?thesis
      proof (cases x3)
        case (Inl e)
        then show ?thesis
          using assms g1 g2 g3 x1 x2 r3 by (auto simp: getSnapshotEnvironmentResources_def)
      next
        case (Inr s)
        then have "snapshotOf w2 = Some s"
          using g3 getSnapshot_snapshotOf by simp
        then have "snapshotOf w = Some s"
          using r2 by (simp add: snapshotOf_def reads_def)
        then show ?thesis
          using assms g1 g2 g3 x1 x2 Inr r3 by (auto simp: getSnapshotEnvironmentResources_def)
      qed
    qed
  qed
qed


lemma client_Create_SnapshotEnvironmentBinding_effect:
  assumes "client_Create_SnapshotEnvironmentBinding obj w = (x, w')"
  shows "release w' = release w \<and> updates w w'
         \<and> pipelineRuns (cluster w') = pipelineRuns (cluster w)
         \<and> snapshots (cluster w') = snapshots (cluster w)
         \<and> (case x of
               Inl e \<Rightarrow> bindings (cluster w') = bindings (cluster w)
             | Inr b \<Rightarrow> bindings (cluster w') = bindings (cluster w) @ [b]
                        \<and> seb_Namespace b = seb_Namespace obj \<and> seb_Environment b = seb_Environment obj
                        \<and> seb_Application b = seb_Application obj)"
proof -
  obtain f w1 where c: "call (CallCreate KSnapshotEnvironmentBinding) w = (f, w1)"
    by (cases "call (CallCreate KSnapshotEnvironmentBinding) w")
  note r = call_result [OF c]
  show ?thesis
  proof (cases f)
    case (Some e)
    then have "x = Inl e" "w' = w1"
      using assms c by (simp_all add: client_Create_SnapshotEnvironmentBinding_def)
    then show ?thesis
      using r updates_same [of w w1 1] by (simp add: same_spec_refl drop_Suc)
  next
    case None
    let ?created = "obj\<lparr>seb_Name := seb_GenerateName obj @ Itoa (serial (cluster w1))\<rparr>"
    have x: "x = Inr ?created"
      and w': "w' = w1\<lparr>cluster := (cluster w1)\<lparr>bindings := bindings (cluster w1) @ [?created],
                                               serial := Suc (serial (cluster w1))\<rparr>\<rparr>"
      using assms c None
      by (simp_all add: client_Create_SnapshotEnvironmentBinding_def Let_def r)
    have u: "updates w w'"
      by (rule updates_static [where n = 1]) (simp_all add: w' r drop_Suc same_spec_refl static_def)
    show ?thesis
      using x u by (simp add: w' r)
  qed
qed

lemma createSnapshotEnvironmentBinding_effect:
  assumes "createSnapshotEnvironmentBinding env a w = (x, w')"
  shows "release w' = release w \<and> updates w w'
         \<and> pipelineRuns (cluster w') = pipelineRuns (cluster w)
         \<and> snapshots (cluster w') = snapshots (cluster w)
         \<and> (case x of
               Inl e \<Rightarrow> bindings (cluster w') = bindings (cluster w)
             | Inr b \<Rightarrow> bindings (cluster w') = bindings (cluster w) @ [b] \<and> built env w b)"
proof -
  obtain y w1 where g: "getSnapshotEnvironmentResources a w = (y, w1)"
    by (cases "getSnapshotEnvironmentResources a w")
  note res = getSnapshotEnvironmentResources_result [OF g]
  then have r1: "reads w w1" by simp
  have q1: "release w1 = release w \<and> updates w w1 \<and> cluster w1 = cluster w"
    using r1 reads_updates [OF r1] by (simp add: reads_def)
  show ?thesis
  proof (cases y)
    case (Inl e)
    then have "x = Inl e" "w' = w1"
      using assms g by (simp_all add: createSnapshotEnvironmentBinding_def)
    then show ?thesis using q1 by simp
  next
    case (Inr t)
    then obtain application cs s where t: "y = Inr (application, cs, s)"
      by (cases t) auto
    then have s: "snapshotOf w = Some s"
      using res by simp
    let ?new = "NewSnapshotEnvironmentBinding cs s env"
    show ?thesis
    proof (cases "SetControllerReference application ?new")
      case (Inl e)
      then have "x = Inl e" "w' = w1"
        using assms g t by (simp_all add: createSnapshotEnvironmentBinding_def)
      then show ?thesis using q1 by simp
    next
      case (Inr b1)
      note c1 = this
      then have b1: "seb_Namespace b1 = env_Namespace env \<and> seb_Environment b1 = env_Name env
                     \<and> seb_Application b1 = snap_Application s"
        by (auto simp: SetControllerReference_def NewSnapshotEnvironmentBinding_def split: if_splits)
      show ?thesis
      proof (cases "SetOwnerAnnotations (release w1) b1")
        case (Inl e)
        then have "x = Inl e" "w' = w1"
          using assms g t c1 by (simp_all add: createSnapshotEnvironmentBinding_def)
        then show ?thesis using q1 by simp
      next
        case (Inr b2)
        then have b2: "seb_Namespace b2 = env_Namespace env \<and> seb_Environment b2 = env_Name env
                     \<and> seb_Application b2 = snap_Application s"
          using b1 by (auto simp: SetOwnerAnnotations_def split: if_splits)
        have "client_Create_SnapshotEnvironmentBinding b2 w1 = (x, w')"
          using assms g t c1 Inr by (simp add: createSnapshotEnvironmentBinding_def)
        note e = client_Create_SnapshotEnvironmentBinding_effect [OF this]
        have "updates w w'"
          using q1 e updates_trans by blast
        then show ?thesis
          using e q1 b2 s by (cases x) (simp_all add: built_def)
      qed
    qed
  qed
qed


lemma built_reads: "reads w w1 \<Longrightarrow> built env w1 b = built env w b"
  by (simp add: built_def snapshotOf_def reads_def)

lemma triggerSnapshotEnvironmentBinding_effect:
  assumes "triggerSnapshotEnvironmentBinding env a w = (r, w')"
  shows "updates w w' \<and> pipelineRuns (cluster w') = pipelineRuns (cluster w)
         \<and> (bindings (cluster w') = bindings (cluster w)
            \<or> (\<exists>b. bindings (cluster w') = bindings (cluster w) @ [b] \<and> built env w b))"
proof -
  obtain f w1 where y: "syncResources w = (f, w1)"
    by (cases "syncResources w")
  note e1 = syncResources_effect [OF y]
  show ?thesis
  proof (cases f)
    case (Some e)
    then have "w' = w1"
      using assms y by (simp add: triggerSnapshotEnvironmentBinding_def)
    then show ?thesis using e1 by simp
  next
    case None
    then obtain s where s: "snapshotOf w = Some s" "snapshotOf w1 = Some s"
      using e1 by blast
    obtain x w2 where c: "createSnapshotEnvironmentBinding env a w1 = (x, w2)"
      by (cases "createSnapshotEnvironmentBinding env a w1")
    note e2 = createSnapshotEnvironmentBinding_effect [OF c]
    have u2: "updates w w2"
      using e1 e2 updates_trans by blast
    show ?thesis
    proof (cases x)
      case (Inl e)
      then have "w' = w2"
        using assms y None c by (simp add: triggerSnapshotEnvironmentBinding_def Let_def)
      then show ?thesis using e1 e2 u2 Inl by simp
    next
      case (Inr b)
      let ?v = "w2\<lparr>release := (release w2)\<lparr>rel_Status := (rel_Status (release w2))
                   \<lparr>st_SnapshotEnvironmentBinding := NamespacedName (seb_Namespace b) (seb_Name b)\<rparr>\<rparr>\<rparr>"
      obtain pe where p: "client_Status_Patch (release w1) ?v = (pe, w')"
        using assms y None c Inr
        by (auto simp: triggerSnapshotEnvironmentBinding_def Let_def split: prod.splits)
      have "quiet w2 ?v"
        by (rule release_quiet) (rule same_spec_marks(5))
      then have q: "quiet w2 w'"
        using client_Status_Patch_quiet [OF p] quiet_trans by blast
      have "built env w1 b"
        using e2 Inr by simp
      then have "built env w b"
        using s by (simp add: built_def)
      moreover have "bindings (cluster w') = bindings (cluster w) @ [b]"
        using q e1 e2 Inr by (simp add: quiet_def)
      moreover have "updates w w'"
        using u2 q updates_trans unfolding quiet_def by blast
      moreover have "pipelineRuns (cluster w') = pipelineRuns (cluster w)"
        using q e1 e2 by (simp add: quiet_def)
      ultimately show ?thesis by blast
    qed
  qed
qed

lemma EnsureSnapshotEnvironmentBindingExists_effect:
  assumes "EnsureSnapshotEnvironmentBindingExists w = (r, w')"
  shows "updates w w' \<and> pipelineRuns (cluster w') = pipelineRuns (cluster w)
         \<and> (bindings (cluster w') = bindings (cluster w)
            \<or> (\<exists>b a env. bindings (cluster w') = bindings (cluster w) @ [b]
                  \<and> activeOf w = Some a \<and> environmentOf a w = Some env \<and> built env w b
                  \<and> (transient w \<longrightarrow> \<not> (\<exists>b' \<in> set (bindings (cluster w)). bound env a b'))))"
proof (cases "\<not> HasSucceeded (release w) \<or> HasBeenDeployed (release w)")
  case True
  then have "w' = w"
    using assms by (simp add: EnsureSnapshotEnvironmentBindingExists_def)
  then show ?thesis by (simp add: updates_refl)
next
  case False
  note guard = this
  obtain x1 w1 where g1: "getActiveReleasePlanAdmission w = (x1, w1)"
    by (cases "getActiveReleasePlanAdmission w")
  note r1 = getActiveReleasePlanAdmission_reads [OF g1]
  have unchanged: ?thesis if "w' = v" "reads w v" for v
    using that reads_updates [of w v] by (simp add: reads_def)
  show ?thesis
  proof (cases x1)
    case (Inl e)
    then have "w' = w1"
      using assms g1 guard by (simp add: EnsureSnapshotEnvironmentBindingExists_def)
    then show ?thesis using unchanged r1 by simp
  next
    case (Inr a)
    note x1 = this
    have a: "activeOf w = Some a"
      using g1 x1 getActiveReleasePlanAdmission_activeOf by simp
    show ?thesis
    proof (cases "rpa_Environment a = []")
      case True
      then have "w' = w1"
        using assms g1 guard x1 by (simp add: EnsureSnapshotEnvironmentBindingExists_def)
      then show ?thesis using unchanged r1 by simp
    next
      case False
      note declared = this
      obtain x2 w2 where g2: "getEnvironment a w1 = (x2, w2)"
        by (cases "getEnvironment a w1")
      have r2: "reads w w2"
        using r1 getEnvironment_reads [OF g2] reads_trans by blast
      show ?thesis
      proof (cases x2)
        case (Inl e)
        then have "w' = w2"
          using assms g1 g2 guard x1 declared by (simp add: EnsureSnapshotEnvironmentBindingExists_def)
        then show ?thesis using unchanged r2 by simp
      next
        case (Inr env)
        note x2 = this
        have "environmentOf a w1 = Some env"
          using g2 x2 getEnvironment_environmentOf by simp
        then have env: "environmentOf a w = Some env"
          using r1 by (simp add: environmentOf_def reads_def)
        obtain x3 w3 where g3: "getSnapshotEnvironmentBinding env a w2 = (x3, w3)"
          by (cases "getSnapshotEnvironmentBinding env a w2")
        have r3: "reads w w3"
          using r2 getSnapshotEnvironmentBinding_reads [OF g3] reads_trans by blast
        have t: "triggerSnapshotEnvironmentBinding env a w3 = (r, w')"
          if "x3 = Inr None \<or> (\<exists>e. x3 = Inl e \<and> IsNotFound e)"
          using that assms g1 g2 g3 guard x1 x2 declared
          by (auto simp: EnsureSnapshotEnvironmentBindingExists_def)
        have created: ?thesis
          if n: "x3 = Inr None \<or> (\<exists>e. x3 = Inl e \<and> IsNotFound e)"
        proof -
          note e = triggerSnapshotEnvironmentBinding_effect [OF t [OF n]]
          have c3: "release w3 = release w \<and> cluster w3 = cluster w"
            using r3 by (simp add: reads_def)
          have u: "updates w w'"
            using e reads_updates [OF r3] updates_trans by blast
          have absent: "\<not> (\<exists>b' \<in> set (bindings (cluster w)). bound env a b')" if "transient w"
          proof -
            have "transient w2" using that r2 reads_transient by blast
            then have "x3 = Inr None"
              using n g3 getSnapshotEnvironmentBinding_error [of env a w2 _ w3]
              by (auto simp: transient_def)
            then have "\<not> (\<exists>b' \<in> set (bindings (cluster w2)). bound env a b')"
              using g3 getSnapshotEnvironmentBinding_absent by blast
            then show ?thesis using r2 by (simp add: reads_def)
          qed
          show ?thesis
            using e u c3 a env absent built_reads [OF r3] by auto
        qed
        show ?thesis
        proof (cases x3)
          case (Inl e)
          show ?thesis
          proof (cases "IsNotFound e")
            case True
            then show ?thesis using created Inl by blast
          next
            case False
            then have "w' = w3"
              using assms g1 g2 g3 guard x1 x2 declared Inl
              by (simp add: EnsureSnapshotEnvironmentBindingExists_def)
            then show ?thesis using unchanged r3 by simp
          qed
        next
          case (Inr found)
          show ?thesis
          proof (cases found)
            case None
            then show ?thesis using created Inr by blast
          next
            case (Some b)
            then have "w' = w3"
              using assms g1 g2 g3 guard x1 x2 declared Inr
              by (simp add: EnsureSnapshotEnvironmentBindingExists_def)
            then show ?thesis using unchanged r3 by simp
          qed
        qed
      qed
    qed
  qed
qed


lemma EnsureSnapshotEnvironmentBindingExists_found:
  assumes "transient w" and "activeOf w = Some a" and "environmentOf a w = Some env"
    and "\<exists>b \<in> set (bindings (cluster w)). bound env a b"
  shows "bindings (cluster (snd (EnsureSnapshotEnvironmentBindingExists w))) = bindings (cluster w)"
proof -
  obtain r w' where e: "EnsureSnapshotEnvironmentBindingExists w = (r, w')"
    by (cases "EnsureSnapshotEnvironmentBindingExists w")
  from EnsureSnapshotEnvironmentBindingExists_effect [OF e] assms
  have "bindings (cluster w') = bindings (cluster w)" by auto
  then show ?thesis using e by simp
qed

lemma at_most_one_binding:
  assumes "transient w" and "consistent w" and "snapshot_of_plan w"
  shows "\<exists>bs. bindings (cluster (snd (EnsureSnapshotEnvironmentBindingExists
                  (snd (EnsureSnapshotEnvironmentBindingExists w)))))
               = bindings (cluster w) @ bs \<and> length bs \<le> 1"
proof -
  obtain r1 w1 where e1: "EnsureSnapshotEnvironmentBindingExists w = (r1, w1)"
    by (cases "EnsureSnapshotEnvironmentBindingExists w")
  obtain r2 w2 where e2: "EnsureSnapshotEnvironmentBindingExists w1 = (r2, w2)"
    by (cases "EnsureSnapshotEnvironmentBindingExists w1")
  note f1 = EnsureSnapshotEnvironmentBindingExists_effect [OF e1]
  note f2 = EnsureSnapshotEnvironmentBindingExists_effect [OF e2]
  have u: "updates w w1" using f1 by simp
  have t1: "transient w1"
    using u assms(1) updates_transient by blast
  have "\<exists>bs. bindings (cluster w2) = bindings (cluster w) @ bs \<and> length bs \<le> 1"
  proof (cases "bindings (cluster w1) = bindings (cluster w)")
    case True
    show ?thesis
    proof (cases "bindings (cluster w2) = bindings (cluster w1)")
      case True
      then have "bindings (cluster w2) = bindings (cluster w) @ []"
        using \<open>bindings (cluster w1) = bindings (cluster w)\<close> by simp
      then show ?thesis by (intro exI [of _ "[]"]) simp
    next
      case False
      then obtain b where "bindings (cluster w2) = bindings (cluster w1) @ [b]"
        using f2 by blast
      then have "bindings (cluster w2) = bindings (cluster w) @ [b]"
        using True by simp
      then show ?thesis by (intro exI [of _ "[b]"]) simp
    qed
  next
    case False
    then obtain b a env where c: "bindings (cluster w1) = bindings (cluster w) @ [b]"
      "activeOf w = Some a" "environmentOf a w = Some env" "built env w b"
      using f1 by blast
    obtain s where s: "snapshotOf w = Some s" "seb_Application b = snap_Application s"
      using c(4) unfolding built_def by blast
    obtain releasePlan where p: "releasePlanOf w = Some releasePlan"
      using c(2) by (auto simp: activeOf_def split: option.splits)
    have "snap_Application s = plan_Application releasePlan"
      using assms(3) s(1) p unfolding snapshot_of_plan_def by blast
    then have "seb_Application b = rpa_Application a"
      using s(2) activeOf_application [OF c(2) p] by simp
    then have "bound env a b"
      using c(4) by (simp add: built_def bound_def)
    then have "\<exists>b \<in> set (bindings (cluster w1)). bound env a b"
      using c(1) by auto
    moreover have "activeOf w1 = Some a"
      using activeOf_updates [OF u assms(2)] c(2) by simp
    moreover have "environmentOf a w1 = Some env"
      using environmentOf_updates [OF u] c(3) by simp
    ultimately have "bindings (cluster (snd (EnsureSnapshotEnvironmentBindingExists w1)))
                       = bindings (cluster w1)"
      using EnsureSnapshotEnvironmentBindingExists_found [OF t1] by blast
    then have "bindings (cluster w2) = bindings (cluster w) @ [b]"
      using e2 c(1) by simp
    then show ?thesis by (intro exI [of _ "[b]"]) simp
  qed
  then show ?thesis
    using e1 e2 by simp
qed

lemmas creation_defs =
  succeeded_world_def triggered_world_def example_world_def example_cluster_def example_release_def
  example_status_def example_plan_def example_admission_def example_pipelineRun_def example_binding_def
  transient_def labelled_def bound_def activeOf_def environmentOf_def snapshotOf_def releasePlanOf_def
  candidates_def consistent_def same_spec_def snapshot_of_plan_def stored_release_def
  MatchingLabels_def MarkSucceeded_def AutoReleaseLabel_def ReleaseNameLabel_def ReleaseNamespaceLabel_def

text \<open>
  C1 as the code has it. Idempotent creation, in every world whose pending failures are
  not not-found errors (both lookups take a not-found answer for "absent" and go on to
  create). When a PipelineRun carrying the two labels of the Release is in the cluster,
  \<^verbatim>\<open>EnsureReleasePipelineRunExists\<close> leaves the PipelineRuns of the cluster as they are.
  When the cluster holds a binding for the environment and the application of the active
  admission, \<^verbatim>\<open>EnsureSnapshotEnvironmentBindingExists\<close> leaves the bindings as they are.
  Hence two runs in a row of the pipeline trigger add at most one PipelineRun to the
  cluster and remove none; and two runs in a row of the binding trigger add at most one
  binding and remove none, given that the Release in memory has the spec of its copy in
  the cluster and that its snapshot belongs to the application of its plan, so that the
  binding built from the snapshot is the one the lookup searches.
\<close>

theorem idempotent_creation:
  assumes "transient w"
  shows "((\<exists>p \<in> set (pipelineRuns (cluster w)). labelled (release w) p)
            \<longrightarrow> pipelineRuns (cluster (snd (EnsureReleasePipelineRunExists w))) = pipelineRuns (cluster w))
       \<and> (activeOf w = Some a \<and> environmentOf a w = Some env
            \<and> (\<exists>b \<in> set (bindings (cluster w)). bound env a b)
            \<longrightarrow> bindings (cluster (snd (EnsureSnapshotEnvironmentBindingExists w))) = bindings (cluster w))
       \<and> (\<exists>ps. pipelineRuns (cluster (snd (EnsureReleasePipelineRunExists
                     (snd (EnsureReleasePipelineRunExists w)))))
                  = pipelineRuns (cluster w) @ ps \<and> length ps \<le> 1)
       \<and> (consistent w \<and> snapshot_of_plan w
            \<longrightarrow> (\<exists>bs. bindings (cluster (snd (EnsureSnapshotEnvironmentBindingExists
                           (snd (EnsureSnapshotEnvironmentBindingExists w)))))
                        = bindings (cluster w) @ bs \<and> length bs \<le> 1))"
proof (intro conjI impI)
  assume "\<exists>p \<in> set (pipelineRuns (cluster w)). labelled (release w) p"
  then have "reads w (snd (EnsureReleasePipelineRunExists w))"
    using EnsureReleasePipelineRunExists_found [OF assms] by (metis prod.collapse)
  then show "pipelineRuns (cluster (snd (EnsureReleasePipelineRunExists w))) = pipelineRuns (cluster w)"
    by (simp add: reads_def)
next
  assume "activeOf w = Some a \<and> environmentOf a w = Some env
            \<and> (\<exists>b \<in> set (bindings (cluster w)). bound env a b)"
  then show "bindings (cluster (snd (EnsureSnapshotEnvironmentBindingExists w))) = bindings (cluster w)"
    using EnsureSnapshotEnvironmentBindingExists_found [OF assms] by blast
next
  show "\<exists>ps. pipelineRuns (cluster (snd (EnsureReleasePipelineRunExists
                     (snd (EnsureReleasePipelineRunExists w)))))
                  = pipelineRuns (cluster w) @ ps \<and> length ps \<le> 1"
    by (rule at_most_one_execution [OF assms])
next
  assume "consistent w \<and> snapshot_of_plan w"
  then show "\<exists>bs. bindings (cluster (snd (EnsureSnapshotEnvironmentBindingExists
                           (snd (EnsureSnapshotEnvironmentBindingExists w)))))
                        = bindings (cluster w) @ bs \<and> length bs \<le> 1"
    using at_most_one_binding [OF assms] by blast
qed


theorem idempotent_creation_witness:
  "transient triggered_world
   \<and> labelled (release triggered_world) example_pipelineRun
   \<and> pipelineRuns (cluster (snd (EnsureReleasePipelineRunExists triggered_world))) = [example_pipelineRun]
   \<and> activeOf (succeeded_world [example_binding]) = Some example_admission
   \<and> bound \<lparr>env_Name = ''production'', env_Namespace = ''managed''\<rparr> example_admission example_binding
   \<and> bindings (cluster (snd (EnsureSnapshotEnvironmentBindingExists (succeeded_world [example_binding]))))
       = [example_binding]
   \<and> length (pipelineRuns (cluster (snd (EnsureReleasePipelineRunExists
                (snd (EnsureReleasePipelineRunExists example_world)))))) = 1
   \<and> consistent (succeeded_world []) \<and> snapshot_of_plan (succeeded_world [])
   \<and> length (bindings (cluster (snd (EnsureSnapshotEnvironmentBindingExists
                (snd (EnsureSnapshotEnvironmentBindingExists (succeeded_world []))))))) = 1"
proof -
  let ?env = "\<lparr>env_Name = ''production'', env_Namespace = ''managed''\<rparr>"
  have t: "transient triggered_world" "transient (succeeded_world [example_binding])"
    "transient example_world" "transient (succeeded_world [])"
    by (simp_all add: creation_defs)
  have l: "labelled (release triggered_world) example_pipelineRun"
    by (simp add: creation_defs)
  have p: "\<exists>p \<in> set (pipelineRuns (cluster triggered_world)). labelled (release triggered_world) p"
    "pipelineRuns (cluster triggered_world) = [example_pipelineRun]"
    using l by (simp_all add: triggered_world_def)
  have a: "activeOf (succeeded_world [example_binding]) = Some example_admission"
    "environmentOf example_admission (succeeded_world [example_binding]) = Some ?env"
    by (simp_all add: creation_defs)
  have b: "bound ?env example_admission example_binding"
    by (simp add: creation_defs)
  have bs: "\<exists>b \<in> set (bindings (cluster (succeeded_world [example_binding]))). bound ?env example_admission b"
    "bindings (cluster (succeeded_world [example_binding])) = [example_binding]"
    using b by (simp_all add: succeeded_world_def)
  have c: "consistent (succeeded_world [])" "snapshot_of_plan (succeeded_world [])"
    by (simp_all add: creation_defs)
  have one: "length (pipelineRuns (cluster (snd (EnsureReleasePipelineRunExists
                (snd (EnsureReleasePipelineRunExists example_world)))))) = 1"
    by code_simp
  have two: "length (bindings (cluster (snd (EnsureSnapshotEnvironmentBindingExists
                (snd (EnsureSnapshotEnvironmentBindingExists (succeeded_world []))))))) = 1"
    by code_simp
  from idempotent_creation [OF t(1), THEN conjunct1, THEN mp, OF p(1)]
       idempotent_creation [OF t(2), of example_admission ?env, THEN conjunct2, THEN conjunct1, THEN mp,
         OF conjI [OF a(1) conjI [OF a(2) bs(1)]]]
       idempotent_creation [OF t(3), THEN conjunct2, THEN conjunct2, THEN conjunct1]
       idempotent_creation [OF t(4), THEN conjunct2, THEN conjunct2, THEN conjunct2, THEN mp,
         OF conjI [OF c(1) c(2)]]
       t l p(2) a b bs(2) c one two
  show ?thesis by simp
qed

text \<open>
  C1 as the spec states it does not hold. With the snapshot of another application than
  the plan's, two runs in a row of the binding trigger create two bindings: the lookup
  searches a binding of the admission's application, the one created carries the
  snapshot's. With the List of the PipelineRuns answered not-found, one run of the
  pipeline trigger creates a second PipelineRun beside the labelled one that exists.
  With a cluster's copy of the Release that names another plan, the second run resolves
  another admission and creates a second binding.
\<close>

theorem repeated_creation_counterexample:
  "transient foreign_snapshot_world \<and> consistent foreign_snapshot_world
   \<and> bindings (cluster foreign_snapshot_world) = []
   \<and> map seb_Application (bindings (cluster (snd (EnsureSnapshotEnvironmentBindingExists
           (snd (EnsureSnapshotEnvironmentBindingExists foreign_snapshot_world))))))
       = [''api'', ''api'']
   \<and> labelled (release unserved_list_world) example_pipelineRun
   \<and> pipelineRuns (cluster unserved_list_world) = [example_pipelineRun]
   \<and> length (pipelineRuns (cluster (snd (EnsureReleasePipelineRunExists unserved_list_world)))) = 2
   \<and> transient stale_world \<and> snapshot_of_plan stale_world
   \<and> bindings (cluster stale_world) = []
   \<and> length (bindings (cluster (snd (EnsureSnapshotEnvironmentBindingExists
           (snd (EnsureSnapshotEnvironmentBindingExists stale_world)))))) = 2"
proof -
  have "transient foreign_snapshot_world \<and> consistent foreign_snapshot_world
        \<and> bindings (cluster foreign_snapshot_world) = []"
    by (simp add: foreign_snapshot_world_def creation_defs)
  moreover have "map seb_Application (bindings (cluster (snd (EnsureSnapshotEnvironmentBindingExists
           (snd (EnsureSnapshotEnvironmentBindingExists foreign_snapshot_world))))))
       = [''api'', ''api'']"
    by code_simp
  moreover have "labelled (release unserved_list_world) example_pipelineRun
        \<and> pipelineRuns (cluster unserved_list_world) = [example_pipelineRun]"
    by (simp add: unserved_list_world_def creation_defs)
  moreover have "length (pipelineRuns (cluster (snd (EnsureReleasePipelineRunExists unserved_list_world)))) = 2"
    by code_simp
  moreover have "transient stale_world \<and> snapshot_of_plan stale_world \<and> bindings (cluster stale_world) = []"
    by (simp add: stale_world_def creation_defs)
  moreover have "length (bindings (cluster (snd (EnsureSnapshotEnvironmentBindingExists
           (snd (EnsureSnapshotEnvironmentBindingExists stale_world)))))) = 2"
    by code_simp
  ultimately show ?thesis by simp
qed

subsection \<open>The binding reference, written and read back\<close>

lemma count_list_one_split:
  assumes "count_list s sep = 1"
  shows "\<exists>a b. s = a @ sep # b \<and> sep \<notin> set a \<and> sep \<notin> set b"
proof -
  have "sep \<in> set s"
    using assms by (metis count_list_0_iff zero_neq_one)
  then obtain a b where s: "s = a @ sep # b" "sep \<notin> set a"
    by (meson split_list_first)
  then have "count_list b sep = 0"
    using assms by (simp add: count_list_0_iff)
  then have "sep \<notin> set b"
    by (simp add: count_list_0_iff)
  then show ?thesis using s by blast
qed

lemma two_segment_form:
  "(\<exists>namespace name. Separator \<notin> set namespace \<and> Separator \<notin> set name \<and> s = NamespacedName namespace name)
     \<longleftrightarrow> length (Split s Separator) = 2"
proof
  assume "\<exists>namespace name. Separator \<notin> set namespace \<and> Separator \<notin> set name \<and> s = NamespacedName namespace name"
  then show "length (Split s Separator) = 2"
    by (auto simp: Split_NamespacedName)
next
  assume "length (Split s Separator) = 2"
  then have "count_list s Separator = 1"
    by (simp add: length_Split)
  then obtain a b where "s = a @ Separator # b" "Separator \<notin> set a" "Separator \<notin> set b"
    using count_list_one_split by metis
  then show "\<exists>namespace name. Separator \<notin> set namespace \<and> Separator \<notin> set name \<and> s = NamespacedName namespace name"
    by (auto simp: NamespacedName_def)
qed

lemma triggerSnapshotEnvironmentBinding_reference:
  assumes "triggerSnapshotEnvironmentBinding env a w = (r, w')"
    and "bindings (cluster w') \<noteq> bindings (cluster w)"
  shows "\<exists>b. bindings (cluster w') = bindings (cluster w) @ [b]
           \<and> (st_SnapshotEnvironmentBinding (rel_Status (release w)) \<noteq> NamespacedName (seb_Namespace b) (seb_Name b)
                \<longrightarrow> st_SnapshotEnvironmentBinding (rel_Status (release w')) = NamespacedName (seb_Namespace b) (seb_Name b))
           \<and> (r = Continue \<longrightarrow> stored (cluster w') = Some (release w'))
           \<and> (r = Continue \<or> (\<exists>e. r = RequeueError e))"
proof -
  obtain f w1 where y: "syncResources w = (f, w1)"
    by (cases "syncResources w")
  note e1 = syncResources_effect [OF y]
  show ?thesis
  proof (cases f)
    case (Some e)
    then have "w' = w1"
      using assms y by (simp add: triggerSnapshotEnvironmentBinding_def)
    then show ?thesis using e1 assms(2) by simp
  next
    case None
    obtain x w2 where c: "createSnapshotEnvironmentBinding env a w1 = (x, w2)"
      by (cases "createSnapshotEnvironmentBinding env a w1")
    note e2 = createSnapshotEnvironmentBinding_effect [OF c]
    show ?thesis
    proof (cases x)
      case (Inl e)
      then have "w' = w2"
        using assms y None c by (simp add: triggerSnapshotEnvironmentBinding_def Let_def)
      then show ?thesis using e1 e2 Inl assms(2) by simp
    next
      case (Inr b)
      let ?n = "NamespacedName (seb_Namespace b) (seb_Name b)"
      let ?v = "w2\<lparr>release := (release w2)\<lparr>rel_Status := (rel_Status (release w2))
                   \<lparr>st_SnapshotEnvironmentBinding := ?n\<rparr>\<rparr>\<rparr>"
      obtain pe where p: "client_Status_Patch (release w1) ?v = (pe, w')"
        and r: "r = RequeueOnErrorOrContinue pe"
        using assms y None c Inr
        by (auto simp: triggerSnapshotEnvironmentBinding_def Let_def split: prod.splits)
      have rel: "release w1 = release w" "release w2 = release w"
        using e1 e2 by simp_all
      have b: "bindings (cluster w2) = bindings (cluster w) @ [b]"
        using e1 e2 Inr by simp
      show ?thesis
      proof (cases pe)
        case None
        obtain s where s: "stored_release ?v = Some s"
          "release w' = s\<lparr>rel_Status := merge_status (rel_Status (release w1)) (rel_Status (release ?v)) (rel_Status s)\<rparr>"
          "cluster w' = (cluster ?v)\<lparr>stored := Some (release w')\<rparr>"
          using client_Status_Patch_served [OF p [unfolded None]] by auto
        have "st_SnapshotEnvironmentBinding (rel_Status (release w'))
                = merge (st_SnapshotEnvironmentBinding (rel_Status (release w))) ?n
                    (st_SnapshotEnvironmentBinding (rel_Status s))"
          using s(2) rel by (simp add: merge_status_def Let_def)
        then show ?thesis
          using None r s(3) b by (auto simp: RequeueOnErrorOrContinue_def merge_def intro!: exI [of _ b])
      next
        case (Some e)
        then show ?thesis
          using client_Status_Patch_failed [OF p [unfolded Some]] r b
          by (auto simp: RequeueOnErrorOrContinue_def intro!: exI [of _ b])
      qed
    qed
  qed
qed


lemma EnsureSnapshotEnvironmentBindingExists_shape:
  assumes "EnsureSnapshotEnvironmentBindingExists w = (r, w')"
  shows "reads w w' \<or> (\<exists>env a w3. reads w w3 \<and> triggerSnapshotEnvironmentBinding env a w3 = (r, w'))"
proof (cases "\<not> HasSucceeded (release w) \<or> HasBeenDeployed (release w)")
  case True
  then have "w' = w"
    using assms by (simp add: EnsureSnapshotEnvironmentBindingExists_def)
  then show ?thesis by (simp add: reads_refl)
next
  case False
  note guard = this
  obtain x1 w1 where g1: "getActiveReleasePlanAdmission w = (x1, w1)"
    by (cases "getActiveReleasePlanAdmission w")
  note r1 = getActiveReleasePlanAdmission_reads [OF g1]
  show ?thesis
  proof (cases x1)
    case (Inl e)
    then have "w' = w1"
      using assms g1 guard by (simp add: EnsureSnapshotEnvironmentBindingExists_def)
    then show ?thesis using r1 by simp
  next
    case (Inr a)
    note x1 = this
    show ?thesis
    proof (cases "rpa_Environment a = []")
      case True
      then have "w' = w1"
        using assms g1 guard x1 by (simp add: EnsureSnapshotEnvironmentBindingExists_def)
      then show ?thesis using r1 by simp
    next
      case False
      note declared = this
      obtain x2 w2 where g2: "getEnvironment a w1 = (x2, w2)"
        by (cases "getEnvironment a w1")
      have r2: "reads w w2"
        using r1 getEnvironment_reads [OF g2] reads_trans by blast
      show ?thesis
      proof (cases x2)
        case (Inl e)
        then have "w' = w2"
          using assms g1 g2 guard x1 declared by (simp add: EnsureSnapshotEnvironmentBindingExists_def)
        then show ?thesis using r2 by simp
      next
        case (Inr env)
        note x2 = this
        obtain x3 w3 where g3: "getSnapshotEnvironmentBinding env a w2 = (x3, w3)"
          by (cases "getSnapshotEnvironmentBinding env a w2")
        have r3: "reads w w3"
          using r2 getSnapshotEnvironmentBinding_reads [OF g3] reads_trans by blast
        have "w' = w3 \<or> triggerSnapshotEnvironmentBinding env a w3 = (r, w')"
          using assms g1 g2 g3 guard x1 x2 declared
          by (auto simp: EnsureSnapshotEnvironmentBindingExists_def split: sum.splits option.splits if_splits)
        then show ?thesis using r3 by blast
      qed
    qed
  qed
qed

lemma EnsureSnapshotEnvironmentBindingExists_reference:
  assumes "EnsureSnapshotEnvironmentBindingExists w = (r, w')"
    and "bindings (cluster w') \<noteq> bindings (cluster w)"
  shows "\<exists>b. bindings (cluster w') = bindings (cluster w) @ [b]
           \<and> (st_SnapshotEnvironmentBinding (rel_Status (release w)) \<noteq> NamespacedName (seb_Namespace b) (seb_Name b)
                \<longrightarrow> st_SnapshotEnvironmentBinding (rel_Status (release w')) = NamespacedName (seb_Namespace b) (seb_Name b))
           \<and> (r = Continue \<longrightarrow> stored (cluster w') = Some (release w'))
           \<and> (r = Continue \<or> (\<exists>e. r = RequeueError e))"
proof -
  from EnsureSnapshotEnvironmentBindingExists_shape [OF assms(1)] assms(2)
  obtain env a w3 where r3: "reads w w3" and t: "triggerSnapshotEnvironmentBinding env a w3 = (r, w')"
    by (auto simp: reads_def)
  have c: "release w3 = release w" "cluster w3 = cluster w"
    using r3 by (simp_all add: reads_def)
  show ?thesis
    using triggerSnapshotEnvironmentBinding_reference [OF t] assms(2) by (simp add: c)
qed

text \<open>
  C9. Status round trip. When \<^verbatim>\<open>EnsureSnapshotEnvironmentBindingExists\<close> creates a binding
  \<open>b\<close>, it writes into the status of the Release the reference
  \<open>NamespacedName (seb_Namespace b) (seb_Name b)\<close>, and the Release in memory holds it
  afterwards whether the status patch is served or not (a status that held this very
  string before keeps what the cluster's copy holds). When neither the namespace nor the
  name contains the separator, splitting what was written gives back exactly the two of
  them, and the lookup from the status is the Get of the binding with that namespace and
  that name. The same holds of every status that holds \<open>NamespacedName namespace name\<close>.
  A stored string that is not of this form, which is to say one that does not have
  exactly one separator, is answered, without any call to the cluster, with the error
  "found invalid namespaced name ...", which is not a not-found error. A string with one
  separator and an empty part is of the form: it is split like any other and the Get is
  issued with the empty namespace or name.
\<close>

theorem status_round_trip:
  "(EnsureSnapshotEnvironmentBindingExists w = (r, w') \<and> bindings (cluster w') \<noteq> bindings (cluster w)
      \<longrightarrow> (\<exists>b. bindings (cluster w') = bindings (cluster w) @ [b]
             \<and> (st_SnapshotEnvironmentBinding (rel_Status (release w))
                    \<noteq> NamespacedName (seb_Namespace b) (seb_Name b)
                \<longrightarrow> st_SnapshotEnvironmentBinding (rel_Status (release w'))
                      = NamespacedName (seb_Namespace b) (seb_Name b)
                    \<and> (Separator \<notin> set (seb_Namespace b) \<and> Separator \<notin> set (seb_Name b)
                        \<longrightarrow> Split (st_SnapshotEnvironmentBinding (rel_Status (release w'))) Separator
                              = [seb_Namespace b, seb_Name b]
                            \<and> getSnapshotEnvironmentBindingFromReleaseStatus w'
                              = client_Get KSnapshotEnvironmentBinding bindings seb_Namespace seb_Name
                                  (seb_Namespace b) (seb_Name b) w'))))
   \<and> (Separator \<notin> set namespace \<and> Separator \<notin> set name
      \<and> st_SnapshotEnvironmentBinding (rel_Status (release w)) = NamespacedName namespace name
    \<longrightarrow> Split (st_SnapshotEnvironmentBinding (rel_Status (release w))) Separator = [namespace, name]
        \<and> getSnapshotEnvironmentBindingFromReleaseStatus w
          = client_Get KSnapshotEnvironmentBinding bindings seb_Namespace seb_Name namespace name w)
   \<and> ((\<not> (\<exists>ns n. Separator \<notin> set ns \<and> Separator \<notin> set n
              \<and> st_SnapshotEnvironmentBinding (rel_Status (release w)) = NamespacedName ns n)
        \<or> count_list (st_SnapshotEnvironmentBinding (rel_Status (release w))) Separator \<noteq> 1)
    \<longrightarrow> getSnapshotEnvironmentBindingFromReleaseStatus w
          = (Inl (invalidNamespacedName (st_SnapshotEnvironmentBinding (rel_Status (release w)))), w)
        \<and> \<not> IsNotFound (invalidNamespacedName (st_SnapshotEnvironmentBinding (rel_Status (release w))))
        \<and> Contains (Error (invalidNamespacedName (st_SnapshotEnvironmentBinding (rel_Status (release w)))))
             ''invalid namespaced name'')"
proof -
  have written: "EnsureSnapshotEnvironmentBindingExists w = (r, w') \<and> bindings (cluster w') \<noteq> bindings (cluster w)
      \<longrightarrow> (\<exists>b. bindings (cluster w') = bindings (cluster w) @ [b]
             \<and> (st_SnapshotEnvironmentBinding (rel_Status (release w))
                    \<noteq> NamespacedName (seb_Namespace b) (seb_Name b)
                \<longrightarrow> st_SnapshotEnvironmentBinding (rel_Status (release w'))
                      = NamespacedName (seb_Namespace b) (seb_Name b)
                    \<and> (Separator \<notin> set (seb_Namespace b) \<and> Separator \<notin> set (seb_Name b)
                        \<longrightarrow> Split (st_SnapshotEnvironmentBinding (rel_Status (release w'))) Separator
                              = [seb_Namespace b, seb_Name b]
                            \<and> getSnapshotEnvironmentBindingFromReleaseStatus w'
                              = client_Get KSnapshotEnvironmentBinding bindings seb_Namespace seb_Name
                                  (seb_Namespace b) (seb_Name b) w')))"
  proof
    assume a: "EnsureSnapshotEnvironmentBindingExists w = (r, w') \<and> bindings (cluster w') \<noteq> bindings (cluster w)"
    then obtain b where b: "bindings (cluster w') = bindings (cluster w) @ [b]"
      "st_SnapshotEnvironmentBinding (rel_Status (release w)) \<noteq> NamespacedName (seb_Namespace b) (seb_Name b)
         \<longrightarrow> st_SnapshotEnvironmentBinding (rel_Status (release w')) = NamespacedName (seb_Namespace b) (seb_Name b)"
      using EnsureSnapshotEnvironmentBindingExists_reference [of w r w'] by blast
    show "\<exists>b. bindings (cluster w') = bindings (cluster w) @ [b]
             \<and> (st_SnapshotEnvironmentBinding (rel_Status (release w))
                    \<noteq> NamespacedName (seb_Namespace b) (seb_Name b)
                \<longrightarrow> st_SnapshotEnvironmentBinding (rel_Status (release w'))
                      = NamespacedName (seb_Namespace b) (seb_Name b)
                    \<and> (Separator \<notin> set (seb_Namespace b) \<and> Separator \<notin> set (seb_Name b)
                        \<longrightarrow> Split (st_SnapshotEnvironmentBinding (rel_Status (release w'))) Separator
                              = [seb_Namespace b, seb_Name b]
                            \<and> getSnapshotEnvironmentBindingFromReleaseStatus w'
                              = client_Get KSnapshotEnvironmentBinding bindings seb_Namespace seb_Name
                                  (seb_Namespace b) (seb_Name b) w'))"
      using b
      by (intro exI [of _ b])
         (auto simp: getSnapshotEnvironmentBindingFromReleaseStatus_def Split_NamespacedName)
  qed
  have parsed: "Separator \<notin> set namespace \<and> Separator \<notin> set name
      \<and> st_SnapshotEnvironmentBinding (rel_Status (release w)) = NamespacedName namespace name
    \<longrightarrow> Split (st_SnapshotEnvironmentBinding (rel_Status (release w))) Separator = [namespace, name]
        \<and> getSnapshotEnvironmentBindingFromReleaseStatus w
          = client_Get KSnapshotEnvironmentBinding bindings seb_Namespace seb_Name namespace name w"
    by (auto simp: getSnapshotEnvironmentBindingFromReleaseStatus_def Split_NamespacedName)
  have malformed: "(\<not> (\<exists>ns n. Separator \<notin> set ns \<and> Separator \<notin> set n
              \<and> st_SnapshotEnvironmentBinding (rel_Status (release w)) = NamespacedName ns n)
        \<or> count_list (st_SnapshotEnvironmentBinding (rel_Status (release w))) Separator \<noteq> 1)
    \<longrightarrow> getSnapshotEnvironmentBindingFromReleaseStatus w
          = (Inl (invalidNamespacedName (st_SnapshotEnvironmentBinding (rel_Status (release w)))), w)
        \<and> \<not> IsNotFound (invalidNamespacedName (st_SnapshotEnvironmentBinding (rel_Status (release w))))
        \<and> Contains (Error (invalidNamespacedName (st_SnapshotEnvironmentBinding (rel_Status (release w)))))
             ''invalid namespaced name''"
    unfolding two_segment_form
    by (auto simp: getSnapshotEnvironmentBindingFromReleaseStatus_def length_Split
          invalidNamespacedName_descriptive)
  from written parsed malformed show ?thesis by (intro conjI)
qed

theorem status_round_trip_witness:
  "bindings (cluster (snd (EnsureSnapshotEnvironmentBindingExists (succeeded_world []))))
     = [example_binding]
   \<and> st_SnapshotEnvironmentBinding (rel_Status (release (snd (EnsureSnapshotEnvironmentBindingExists
         (succeeded_world []))))) = ''managed/production-0''
   \<and> getSnapshotEnvironmentBindingFromReleaseStatus (snd (EnsureSnapshotEnvironmentBindingExists (succeeded_world [])))
     = client_Get KSnapshotEnvironmentBinding bindings seb_Namespace seb_Name ''managed'' ''production-0''
         (snd (EnsureSnapshotEnvironmentBindingExists (succeeded_world [])))
   \<and> getSnapshotEnvironmentBindingFromReleaseStatus (tracked_world ''managed/production-0'')
     = client_Get KSnapshotEnvironmentBinding bindings seb_Namespace seb_Name ''managed'' ''production-0''
         (tracked_world ''managed/production-0'')
   \<and> getSnapshotEnvironmentBindingFromReleaseStatus (tracked_world ''managed/'')
     = client_Get KSnapshotEnvironmentBinding bindings seb_Namespace seb_Name ''managed'' []
         (tracked_world ''managed/'')
   \<and> getSnapshotEnvironmentBindingFromReleaseStatus (tracked_world ''managed/production/0'')
     = (Inl (invalidNamespacedName ''managed/production/0''), tracked_world ''managed/production/0'')"
proof -
  let ?w = "succeeded_world []"
  let ?w' = "snd (EnsureSnapshotEnvironmentBindingExists ?w)"
  have created: "bindings (cluster ?w') = [example_binding]"
    by code_simp
  have before: "bindings (cluster ?w) = []" "st_SnapshotEnvironmentBinding (rel_Status (release ?w)) = []"
    by (simp_all add: succeeded_world_def example_world_def example_cluster_def example_release_def
          example_status_def MarkSucceeded_def)
  have E: "EnsureSnapshotEnvironmentBindingExists ?w = (fst (EnsureSnapshotEnvironmentBindingExists ?w), ?w')
           \<and> bindings (cluster ?w') \<noteq> bindings (cluster ?w)"
    using created before by simp
  from status_round_trip [of ?w "fst (EnsureSnapshotEnvironmentBindingExists ?w)" ?w',
         THEN conjunct1, THEN mp, OF E]
  obtain b where b: "bindings (cluster ?w') = bindings (cluster ?w) @ [b]"
    "st_SnapshotEnvironmentBinding (rel_Status (release ?w)) \<noteq> NamespacedName (seb_Namespace b) (seb_Name b)
       \<longrightarrow> st_SnapshotEnvironmentBinding (rel_Status (release ?w')) = NamespacedName (seb_Namespace b) (seb_Name b)
         \<and> (Separator \<notin> set (seb_Namespace b) \<and> Separator \<notin> set (seb_Name b)
              \<longrightarrow> Split (st_SnapshotEnvironmentBinding (rel_Status (release ?w'))) Separator
                    = [seb_Namespace b, seb_Name b]
                  \<and> getSnapshotEnvironmentBindingFromReleaseStatus ?w'
                    = client_Get KSnapshotEnvironmentBinding bindings seb_Namespace seb_Name
                        (seb_Namespace b) (seb_Name b) ?w')"
    by blast
  have "b = example_binding"
    using b(1) created before by simp
  then have n: "seb_Namespace b = ''managed''" "seb_Name b = ''production-0''"
    by (simp_all add: example_binding_def)
  have first: "st_SnapshotEnvironmentBinding (rel_Status (release ?w')) = ''managed/production-0''
               \<and> getSnapshotEnvironmentBindingFromReleaseStatus ?w'
                 = client_Get KSnapshotEnvironmentBinding bindings seb_Namespace seb_Name ''managed'' ''production-0'' ?w'"
    using b(2) before(2) by (simp add: n NamespacedName_def Separator_def)
  have malformed: "\<not> (\<exists>ns n. Separator \<notin> set ns \<and> Separator \<notin> set n
              \<and> st_SnapshotEnvironmentBinding (rel_Status (release (tracked_world ''managed/production/0'')))
                  = NamespacedName ns n)
        \<or> count_list (st_SnapshotEnvironmentBinding (rel_Status (release (tracked_world ''managed/production/0''))))
             Separator \<noteq> 1"
    by (simp add: tracked_world_def example_world_def example_release_def example_status_def
          MarkSucceeded_def Separator_def)
  from status_round_trip [of "tracked_world ''managed/production-0''" _ _ "''managed''" "''production-0''",
         THEN conjunct2, THEN conjunct1]
       status_round_trip [of "tracked_world ''managed/''" _ _ "''managed''" "[]", THEN conjunct2, THEN conjunct1]
       status_round_trip [of "tracked_world ''managed/production/0''", THEN conjunct2, THEN conjunct2, THEN mp,
         OF malformed]
       created first
  show ?thesis
    by (simp add: tracked_world_def example_world_def example_release_def example_status_def
          MarkSucceeded_def NamespacedName_def Separator_def)
qed

end
